(* ===== verification/Prelude.thy ===== *)
theory Prelude
  imports Main "HOL-Library.Word" "HOL-Library.AList"
begin

text \<open>
  What the whole development shares: the Go values the operator computes with (maps, int32
  and int64, decimal printing), the effect type of its methods and the calculus used to
  reason about them.

  An effectful Go method is a function from a state to an outcome and a state. The outcome
  is either the value the method returns or a run-time panic (index out of range, nil
  dereference), which skips everything that follows. The errors the code handles are not
  outcomes: they are part of the returned value, as in Go.
\<close>

named_theorems wp "weakest-precondition rules of the combinators and of the primitive calls"
named_theorems contract_rules "rules of the contract calculus, one per way to build an action"

section \<open>Go values\<close>

type_synonym int32 = "32 word"
type_synonym int64 = "64 word"

text \<open>
  A Go map from strings to strings: \<open>None\<close> is the nil map, and a map that was made is
  the list of its entries. Reading an absent key gives the zero value, the empty string;
  reading the nil map is allowed.
\<close>

type_synonym entries = "(string \<times> string) list"
type_synonym go_map = "entries option"

definition map_entries :: "go_map \<Rightarrow> entries" where
  "map_entries m = (case m of None \<Rightarrow> [] | Some es \<Rightarrow> es)"

definition map_index :: "go_map \<Rightarrow> string \<Rightarrow> string" where
  "map_index m key = (case map_of (map_entries m) key of None \<Rightarrow> '''' | Some v \<Rightarrow> v)"

definition map_len :: "go_map \<Rightarrow> nat" where
  "map_len m = length (map_entries m)"

text \<open>The standard library's \<open>maps.Copy(dst, src)\<close> for a \<open>dst\<close> that is not nil.\<close>

definition maps_copy :: "entries \<Rightarrow> go_map \<Rightarrow> entries" where
  "maps_copy dst src = fold (\<lambda>(key, v). AList.update key v) (map_entries src) dst"

text \<open>No key is stored twice.\<close>

definition wf_entries :: "entries \<Rightarrow> bool" where
  "wf_entries es = distinct (map fst es)"

definition wf_map :: "go_map \<Rightarrow> bool" where
  "wf_map m = wf_entries (map_entries m)"

lemma map_entries_simps [simp]: "map_entries None = []" "map_entries (Some es) = es"
  by (simp_all add: map_entries_def)

lemma map_of_fold_update:
  "distinct (map fst es) \<Longrightarrow>
   map_of (fold (\<lambda>(key, v). AList.update key v) es dst) = map_of dst ++ map_of es"
proof (induction es arbitrary: dst)
  case Nil
  then show ?case by simp
next
  case (Cons e es)
  obtain key v where e: "e = (key, v)" by force
  from Cons.prems e have "key \<notin> dom (map_of es)" by (simp add: dom_map_of_conv_image_fst)
  then have "(map_of dst)(key \<mapsto> v) ++ map_of es = (map_of dst ++ map_of es)(key \<mapsto> v)"
    by (simp add: map_add_upd_left)
  with Cons e show ?case by (simp add: update_conv' map_add_upd del: fun_upd_apply)
qed

lemma map_of_maps_copy:
  "wf_map src \<Longrightarrow> map_of (maps_copy dst src) = map_of dst ++ map_of (map_entries src)"
  by (simp add: maps_copy_def wf_map_def wf_entries_def map_of_fold_update)

lemma wf_entries_fold_update:
  "wf_entries dst \<Longrightarrow> wf_entries (fold (\<lambda>(key, v). AList.update key v) es dst)"
  by (induction es arbitrary: dst) (auto simp: wf_entries_def distinct_update)

lemma wf_maps_copy: "wf_entries dst \<Longrightarrow> wf_entries (maps_copy dst src)"
  by (simp add: maps_copy_def wf_entries_fold_update)

text \<open>A map with one entry, as its length and a look-up tell it.\<close>

lemma map_of_single_iff:
  assumes "wf_entries es"
  shows "map_of es = [key \<mapsto> v] \<longleftrightarrow> length es = 1 \<and> map_of es key = Some v"
proof
  assume es: "map_of es = [key \<mapsto> v]"
  have "length es = card (fst ` set es)"
    using assms by (metis distinct_card length_map list.set_map wf_entries_def)
  also have "fst ` set es = {key}"
    using es by (metis dom_empty dom_fun_upd dom_map_of_conv_image_fst option.distinct(1))
  finally show "length es = 1 \<and> map_of es key = Some v" using es by simp
next
  assume "length es = 1 \<and> map_of es key = Some v"
  then show "map_of es = [key \<mapsto> v]"
    by (auto simp: length_Suc_conv split: if_splits)
qed

section \<open>Decimal printing\<close>

text \<open>The standard library's \<open>strconv.Itoa\<close>.\<close>

definition digit_char :: "nat \<Rightarrow> char" where
  "digit_char d = char_of (48 + d)"

fun decimal :: "nat \<Rightarrow> string" where
  "decimal n = (if n < 10 then [digit_char n] else decimal (n div 10) @ [digit_char (n mod 10)])"

declare decimal.simps [simp del]

definition Itoa :: "int \<Rightarrow> string" where
  "Itoa i = (if i < 0 then ''-'' @ decimal (nat (- i)) else decimal (nat i))"

lemma Itoa_zero: "Itoa 0 = ''0''"
  by code_simp

end
