(* ===== verification/K8s_Objects.thy ===== *)
theory K8s_Objects
  imports Prelude
begin

text \<open>
  The Kubernetes and Prometheus Operator objects that the operator builds and reads. These
  types are declared outside the repository; each record holds the fields that the code
  under src/ sets or reads, by the meaning the API documents, and nothing else. A nil slice
  and an empty one are the same list here, since the code never tells them apart for these
  fields; a pointer is an option. Quantities are kept as their text: the code copies them.
\<close>

section \<open>Metadata\<close>

record NamespacedName =
  nn_name :: string
  nn_namespace :: string

record TypeMeta =
  tm_api_version :: string
  tm_kind :: string

record OwnerReference =
  or_api_version :: string
  or_kind :: string
  or_name :: string
  or_uid :: string
  or_controller :: "bool option"
  or_block_owner_deletion :: "bool option"

record ObjectMeta =
  om_name :: string
  om_namespace :: string
  om_uid :: string
  om_labels :: go_map
  om_annotations :: go_map
  om_owners :: "OwnerReference list"

text \<open>The key under which the API server stores an object (\<open>client.ObjectKeyFromObject\<close>).\<close>

definition meta_key :: "ObjectMeta \<Rightarrow> NamespacedName" where
  "meta_key m = \<lparr>nn_name = om_name m, nn_namespace = om_namespace m\<rparr>"

section \<open>Status conditions\<close>

datatype ConditionStatus = ConditionTrue | ConditionFalse | ConditionUnknown

record Condition =
  c_type :: string
  c_status :: ConditionStatus
  c_reason :: string
  c_message :: string
  c_last_transition :: "int option" \<comment> \<open>None is the zero time of a literal that leaves it out\<close>

section \<open>Volumes, containers and pods\<close>

type_synonym ResourceList = "(string \<times> string) list"

record ResourceRequirements =
  rr_limits :: ResourceList
  rr_requests :: ResourceList
  rr_claims :: "string list"

record Toleration =
  tol_key :: string
  tol_operator :: string
  tol_value :: string
  tol_effect :: string
  tol_seconds :: "int64 option"

record SecretKeySelector =
  sks_name :: string
  sks_key :: string
  sks_optional :: "bool option"

record EnvVar =
  ev_name :: string
  ev_value :: string
  ev_secret :: "SecretKeySelector option"

record VolumeMount =
  vm_name :: string
  vm_path :: string

record Volume =
  vol_name :: string
  vol_claim :: string \<comment> \<open>the claim name of a PersistentVolumeClaim volume source\<close>

record ContainerPort =
  cp_name :: string
  cp_port :: int32
  cp_protocol :: string

record Container =
  ct_name :: string
  ct_image :: string
  ct_pull_policy :: string
  ct_env :: "EnvVar list"
  ct_resources :: ResourceRequirements
  ct_ports :: "ContainerPort list"
  ct_mounts :: "VolumeMount list"

record PodSecurityContext =
  psc_run_as_user :: "int64 option"
  psc_run_as_group :: "int64 option"
  psc_fs_group :: "int64 option"

record PodSpec =
  ps_restart_policy :: string
  ps_containers :: "Container list"
  ps_volumes :: "Volume list"
  ps_tolerations :: "Toleration list"
  ps_security :: "PodSecurityContext option"

record ContainerStatus =
  cs_restart_count :: int32
  cs_waiting :: "string option" \<comment> \<open>the reason of State.Waiting, None when that is nil\<close>

record Pod =
  pod_meta :: ObjectMeta
  pod_spec :: PodSpec
  pod_phase :: string
  pod_reason :: string
  pod_container_statuses :: "ContainerStatus list"

record Job =
  job_meta :: ObjectMeta
  job_template :: PodSpec
  job_succeeded :: int32
  job_failed :: int32

record PersistentVolumeClaim =
  pvc_meta :: ObjectMeta
  pvc_access_modes :: "string list"
  pvc_storage_class :: "string option"
  pvc_requests :: ResourceList
  pvc_phase :: string

section \<open>Prometheus Operator\<close>

record PodMetricsEndpoint =
  ep_port :: "string option"
  ep_path :: string

record PodMonitorSpec =
  pms_endpoints :: "PodMetricsEndpoint list"
  pms_match_labels :: go_map
  pms_match_expressions :: "string list"
  pms_match_names :: "string list"
  pms_target_labels :: "string list"

record PodMonitor =
  pm_meta :: ObjectMeta
  pm_spec :: PodMonitorSpec

section \<open>Values of the API that the code names\<close>

definition ClaimBound :: string where "ClaimBound = ''Bound''"
definition PodRunning :: string where "PodRunning = ''Running''"
definition ProtocolTCP :: string where "ProtocolTCP = ''TCP''"
definition ReadWriteOnce :: string where "ReadWriteOnce = ''ReadWriteOnce''"
definition ResourceStorage :: string where "ResourceStorage = ''storage''"
definition PullIfNotPresent :: string where "PullIfNotPresent = ''IfNotPresent''"
definition RestartPolicyNever :: string where "RestartPolicyNever = ''Never''"
definition DeletePropagationBackground :: string where
  "DeletePropagationBackground = ''Background''"

text \<open>Fields a literal leaves out have their zero value.\<close>

definition no_resources :: ResourceRequirements where
  "no_resources = \<lparr>rr_limits = [], rr_requests = [], rr_claims = []\<rparr>"

definition EnvValue :: "string \<Rightarrow> string \<Rightarrow> EnvVar" where
  "EnvValue n v = \<lparr>ev_name = n, ev_value = v, ev_secret = None\<rparr>"

lemma EnvValue_sel [simp]:
  "ev_name (EnvValue n v) = n" "ev_value (EnvValue n v) = v" "ev_secret (EnvValue n v) = None"
  by (simp_all add: EnvValue_def)

section \<open>Errors and results of a reconciliation\<close>

text \<open>
  An API error, by the answer that the predicates of \<open>k8s.io/apimachinery/pkg/api/errors\<close>
  give on it (\<open>IsNotFound\<close>, \<open>IsAlreadyExists\<close>, \<open>IsBadRequest\<close>,
  \<open>IsServiceUnavailable\<close>); every other error of the client is \<open>OtherError\<close>.
\<close>

datatype ApiError = NotFound | AlreadyExists | Conflict | BadRequest | ServiceUnavailable
  | OtherError string

text \<open>
  The errors of the operator's methods: the two sentinels of
  internal/utils/reconciler/reconciler.go, an error of the client, or an error wrapped by
  \<open>fmt.Errorf\<close> with a prefix. The sentinels are compared by identity, so a wrapped
  sentinel is not a sentinel.
\<close>

datatype GoError = ErrNextLoop | ErrTerminateLoop | Api ApiError | Wrapped string GoError

text \<open>The predicate looks through wrapped errors.\<close>

fun IsNotFound :: "GoError \<Rightarrow> bool" where
  "IsNotFound (Api e) = (e = NotFound)"
| "IsNotFound (Wrapped _ e) = IsNotFound e"
| "IsNotFound _ = False"

record Result =
  res_requeue :: bool
  res_requeue_after :: int \<comment> \<open>nanoseconds\<close>

definition Second :: int where "Second = 1000000000"

definition empty_result :: Result where
  "empty_result = \<lparr>res_requeue = False, res_requeue_after = 0\<rparr>"

definition after :: "int \<Rightarrow> Result" where
  "after d = \<lparr>res_requeue = False, res_requeue_after = d\<rparr>"

text \<open>
  What a reconciliation step returns: a pointer to a result, nil or not, and an error, nil
  or not. The two are independent in Go, and the code dereferences the first according to
  the second.
\<close>

type_synonym step_result = "Result option \<times> GoError option"

end
