(* ===== verification/Rpc_Types.thy ===== *)
theory Rpc_Types
  imports K8s_Objects
begin

text \<open>
  The custom resource of the operator, api/v1alpha1/starknetrpc_types.go: the desired state
  of a StarknetRPC (\<open>StarknetRPCSpec\<close>) and its observed state, a list of conditions.
\<close>

record StorageTemplate =
  st_size :: string
  st_class :: string

record ArchiveSnapshot =
  as_enable :: "bool option"
  as_file_name :: string
  as_checksum :: string
  as_rsync_config :: "string option"
  as_restore_image :: "string option"
  as_storage :: StorageTemplate

text \<open>The field \<open>podMonitor\<close> of the resource, not the Prometheus object of the same name.\<close>

record PodMonitorConfig =
  pmc_enabled :: bool
  pmc_labels :: go_map

record StarknetRPCSpec =
  sp_network :: string
  sp_restore_archive :: ArchiveSnapshot
  sp_resources :: ResourceRequirements
  sp_image :: "string option"
  sp_storage :: StorageTemplate
  sp_tolerations :: "Toleration list"
  sp_layer1_rpc_secret :: SecretKeySelector
  sp_pod_monitor :: "PodMonitorConfig option"

text \<open>The code tells a nil slice of conditions from an empty one, so it is an option.\<close>

record StarknetRPCStatus =
  ss_conditions :: "Condition list option"

record StarknetRPC =
  rpc_type :: TypeMeta
  rpc_meta :: ObjectMeta
  rpc_spec :: StarknetRPCSpec
  rpc_status :: StarknetRPCStatus

abbreviation rpc_name :: "StarknetRPC \<Rightarrow> string" where
  "rpc_name r \<equiv> om_name (rpc_meta r)"

abbreviation rpc_namespace :: "StarknetRPC \<Rightarrow> string" where
  "rpc_namespace r \<equiv> om_namespace (rpc_meta r)"

text \<open>Ranging over a nil slice, or taking its length, is that of the empty slice.\<close>

definition conditions :: "StarknetRPC \<Rightarrow> Condition list" where
  "conditions r = (case ss_conditions (rpc_status r) of None \<Rightarrow> [] | Some cs \<Rightarrow> cs)"

definition set_conditions :: "Condition list \<Rightarrow> StarknetRPC \<Rightarrow> StarknetRPC" where
  "set_conditions cs r = r\<lparr>rpc_status := (rpc_status r)\<lparr>ss_conditions := Some cs\<rparr>\<rparr>"

text \<open>
  Two copies of one resource that may differ in their status only: what a status update of
  the API server guarantees about the copy it returns.
\<close>

definition same_resource :: "StarknetRPC \<Rightarrow> StarknetRPC \<Rightarrow> bool" where
  "same_resource r r' = (rpc_name r' = rpc_name r \<and> rpc_namespace r' = rpc_namespace r \<and>
     om_uid (rpc_meta r') = om_uid (rpc_meta r) \<and> rpc_spec r' = rpc_spec r)"

lemma conditions_set [simp]: "conditions (set_conditions cs r) = cs"
  by (simp add: conditions_def set_conditions_def)

lemma set_conditions_sel [simp]:
  "rpc_meta (set_conditions cs r) = rpc_meta r"
  "rpc_spec (set_conditions cs r) = rpc_spec r"
  "rpc_type (set_conditions cs r) = rpc_type r"
  "ss_conditions (rpc_status (set_conditions cs r)) = Some cs"
  by (simp_all add: set_conditions_def)

lemma same_resource_refl [simp]: "same_resource r r"
  by (simp add: same_resource_def)

lemma same_resource_trans: "same_resource a b \<Longrightarrow> same_resource b c \<Longrightarrow> same_resource a c"
  by (simp add: same_resource_def)

lemma same_resource_set_conditions [simp]: "same_resource r (set_conditions cs r)"
  by (simp add: same_resource_def)

section \<open>The group and version of the resource, api/v1alpha1/groupversion_info.go\<close>

definition GroupVersion :: "string \<times> string" where
  "GroupVersion = (''pathfinder.runelabs.xyz'', ''v1alpha1'')"

text \<open>As \<open>apiVersion\<close> writes it.\<close>

definition group_version_string :: "string \<times> string \<Rightarrow> string" where
  "group_version_string gv = fst gv @ ''/'' @ snd gv"

text \<open>
  The Go types that \<open>init\<close> of starknetrpc_types.go registers with the scheme builder; the scheme
  turns each into a kind of the builder's group and version.
\<close>

definition SchemeBuilder :: "(string \<times> string) \<times> string list" where
  "SchemeBuilder = (GroupVersion, [''StarknetRPC'', ''StarknetRPCList''])"

section \<open>The owner reference the operator puts on what it creates\<close>

text \<open>The literal that every \<open>GetWanted*\<close> constructor repeats, with its two first fields.\<close>

definition owner_ref :: "string \<Rightarrow> string \<Rightarrow> StarknetRPC \<Rightarrow> OwnerReference" where
  "owner_ref api_version knd r =
     \<lparr>or_api_version = api_version, or_kind = knd, or_name = rpc_name r,
      or_uid = om_uid (rpc_meta r), or_controller = Some True,
      or_block_owner_deletion = Some True\<rparr>"

end
