(* ===== verification/Client.thy ===== *)
theory Client
  imports Rpc_Types
begin

text \<open>
  The effects of the operator. Everything outside the repository that a method calls is a
  field of a record, the \<open>client\<close>: the API server behind controller-runtime's client,
  the pod proxy, the event recorder and the two condition helpers of
  k8s.io/apimachinery/pkg/api/meta. The client acts on a world of any type; a theorem that
  states nothing about it holds for every server, also one that fails at any call, answers
  from a stale cache or is changed by others between two calls.

  A method runs on a state: the world, the one StarknetRPC object that the methods of one
  reconciliation share through a pointer, and the list of the calls made so far with their
  replies and the value of that object at the time of the call. The list is a ghost: no
  definition reads it.
\<close>

section \<open>Calls and replies\<close>

datatype Kind = KindPvc | KindJob | KindPod | KindPodMonitor | KindRpc

datatype Object = ObjPvc PersistentVolumeClaim | ObjJob Job | ObjPod Pod
  | ObjPodMonitor PodMonitor | ObjRpc StarknetRPC

datatype Request =
    GetReq Kind NamespacedName
  | CreateReq Object
  | UpdateReq Object
  | DeleteReq Kind NamespacedName "string option" \<comment> \<open>the propagation policy, if one is given\<close>
  | StatusUpdateReq StarknetRPC
  | ProxyGetReq string string string string string \<comment> \<open>scheme, namespace, pod, port, path\<close>
  | EventReq string string string \<comment> \<open>type, reason, message\<close>

datatype Reply = Failed ApiError | Done | Got Object

record Call =
  call_cluster :: StarknetRPC
  call_req :: Request
  call_reply :: Reply

section \<open>The client\<close>

record ('w, 'a) kind_api =
  api_get :: "NamespacedName \<Rightarrow> 'w \<Rightarrow> (ApiError + 'a) \<times> 'w"
  api_create :: "'a \<Rightarrow> 'w \<Rightarrow> (ApiError + 'a) \<times> 'w"
  api_update :: "'a \<Rightarrow> 'w \<Rightarrow> (ApiError + 'a) \<times> 'w"
  api_delete :: "NamespacedName \<Rightarrow> string option \<Rightarrow> 'w \<Rightarrow> ApiError option \<times> 'w"

record 'w client =
  api_pvcs :: "('w, PersistentVolumeClaim) kind_api"
  api_jobs :: "('w, Job) kind_api"
  api_pods :: "('w, Pod) kind_api"
  api_pod_monitors :: "('w, PodMonitor) kind_api"
  api_rpc_get :: "NamespacedName \<Rightarrow> 'w \<Rightarrow> (ApiError + StarknetRPC) \<times> 'w"
  api_status_update :: "StarknetRPC \<Rightarrow> 'w \<Rightarrow> (ApiError + StarknetRPC) \<times> 'w"
  api_proxy_get :: "string \<Rightarrow> string \<Rightarrow> string \<Rightarrow> string \<Rightarrow> string \<Rightarrow> 'w \<Rightarrow> ApiError option \<times> 'w"
  api_event :: "string \<Rightarrow> string \<Rightarrow> string \<Rightarrow> 'w \<Rightarrow> 'w"
  set_status_condition :: "'w \<Rightarrow> Condition list \<Rightarrow> Condition \<Rightarrow> Condition list"
  is_status_condition_true :: "Condition list \<Rightarrow> string \<Rightarrow> bool"

text \<open>A typed view of the client: the generic Go methods take any \<open>client.Object\<close>.\<close>

record ('w, 'a) handle =
  h_kind :: Kind
  h_key :: "'a \<Rightarrow> NamespacedName"
  h_obj :: "'a \<Rightarrow> Object"
  h_api :: "('w, 'a) kind_api"

definition pvcs :: "'w client \<Rightarrow> ('w, PersistentVolumeClaim) handle" where
  "pvcs k = \<lparr>h_kind = KindPvc, h_key = (\<lambda>x. meta_key (pvc_meta x)), h_obj = ObjPvc,
             h_api = api_pvcs k\<rparr>"

definition jobs :: "'w client \<Rightarrow> ('w, Job) handle" where
  "jobs k = \<lparr>h_kind = KindJob, h_key = (\<lambda>x. meta_key (job_meta x)), h_obj = ObjJob,
             h_api = api_jobs k\<rparr>"

definition pods :: "'w client \<Rightarrow> ('w, Pod) handle" where
  "pods k = \<lparr>h_kind = KindPod, h_key = (\<lambda>x. meta_key (pod_meta x)), h_obj = ObjPod,
             h_api = api_pods k\<rparr>"

definition pod_monitors :: "'w client \<Rightarrow> ('w, PodMonitor) handle" where
  "pod_monitors k = \<lparr>h_kind = KindPodMonitor, h_key = (\<lambda>x. meta_key (pm_meta x)),
             h_obj = ObjPodMonitor, h_api = api_pod_monitors k\<rparr>"

lemma handle_sel [simp]:
  "h_kind (pvcs k) = KindPvc" "h_obj (pvcs k) = ObjPvc" "h_api (pvcs k) = api_pvcs k"
  "h_key (pvcs k) p = meta_key (pvc_meta p)"
  "h_kind (jobs k) = KindJob" "h_obj (jobs k) = ObjJob" "h_api (jobs k) = api_jobs k"
  "h_key (jobs k) j = meta_key (job_meta j)"
  "h_kind (pods k) = KindPod" "h_obj (pods k) = ObjPod" "h_api (pods k) = api_pods k"
  "h_key (pods k) q = meta_key (pod_meta q)"
  "h_kind (pod_monitors k) = KindPodMonitor" "h_obj (pod_monitors k) = ObjPodMonitor"
  "h_api (pod_monitors k) = api_pod_monitors k"
  "h_key (pod_monitors k) m = meta_key (pm_meta m)"
  by (simp_all add: pvcs_def jobs_def pods_def pod_monitors_def)

section \<open>Actions\<close>

record 'w run_state =
  world :: 'w
  the_rpc :: StarknetRPC
  trace :: "Call list"

datatype 'a outcome = Ret 'a | Panicked string

type_synonym ('w, 'a) act = "'w run_state \<Rightarrow> 'a outcome \<times> 'w run_state"

definition returns :: "'a \<Rightarrow> ('w, 'a) act" where
  "returns x = (\<lambda>s. (Ret x, s))"

definition seq :: "('w, 'a) act \<Rightarrow> ('a \<Rightarrow> ('w, 'b) act) \<Rightarrow> ('w, 'b) act" where
  "seq m f = (\<lambda>s. case m s of (Ret x, s') \<Rightarrow> f x s' | (Panicked p, s') \<Rightarrow> (Panicked p, s'))"

text \<open>A computation without effects that may panic.\<close>

definition pure :: "'a outcome \<Rightarrow> ('w, 'a) act" where
  "pure r = (\<lambda>s. (r, s))"

definition read_cluster :: "('w, StarknetRPC) act" where
  "read_cluster = (\<lambda>s. (Ret (the_rpc s), s))"

definition modify_cluster :: "('w \<Rightarrow> StarknetRPC \<Rightarrow> StarknetRPC) \<Rightarrow> ('w, unit) act" where
  "modify_cluster f = (\<lambda>s. (Ret (), s\<lparr>the_rpc := f (world s) (the_rpc s)\<rparr>))"

definition outcome_bind :: "'a outcome \<Rightarrow> ('a \<Rightarrow> 'b outcome) \<Rightarrow> 'b outcome" where
  "outcome_bind r f = (case r of Ret x \<Rightarrow> f x | Panicked p \<Rightarrow> Panicked p)"

text \<open>Go's \<open>xs[0]\<close> and \<open>*p\<close>.\<close>

definition index0 :: "'a list \<Rightarrow> 'a outcome" where
  "index0 xs = (case xs of [] \<Rightarrow> Panicked ''index out of range'' | x # _ \<Rightarrow> Ret x)"

definition deref :: "'a option \<Rightarrow> 'a outcome" where
  "deref p = (case p of None \<Rightarrow> Panicked ''nil pointer dereference'' | Some x \<Rightarrow> Ret x)"

subsection \<open>The primitive calls\<close>

definition log_call :: "Request \<Rightarrow> Reply \<Rightarrow> 'w run_state \<Rightarrow> 'w run_state" where
  "log_call q r s =
     s\<lparr>trace := trace s @ [\<lparr>call_cluster = the_rpc s, call_req = q, call_reply = r\<rparr>]\<rparr>"

definition reply_of :: "('a \<Rightarrow> Object) \<Rightarrow> ApiError + 'a \<Rightarrow> Reply" where
  "reply_of f r = (case r of Inl e \<Rightarrow> Failed e | Inr x \<Rightarrow> Got (f x))"

definition reply_opt :: "ApiError option \<Rightarrow> Reply" where
  "reply_opt r = (case r of None \<Rightarrow> Done | Some e \<Rightarrow> Failed e)"

definition Get :: "('w, 'a) handle \<Rightarrow> NamespacedName \<Rightarrow> ('w, ApiError + 'a) act" where
  "Get h n = (\<lambda>s. case api_get (h_api h) n (world s) of (r, w) \<Rightarrow>
     (Ret r, log_call (GetReq (h_kind h) n) (reply_of (h_obj h) r) (s\<lparr>world := w\<rparr>)))"

definition Create :: "('w, 'a) handle \<Rightarrow> 'a \<Rightarrow> ('w, ApiError + 'a) act" where
  "Create h x = (\<lambda>s. case api_create (h_api h) x (world s) of (r, w) \<Rightarrow>
     (Ret r, log_call (CreateReq (h_obj h x)) (reply_of (h_obj h) r) (s\<lparr>world := w\<rparr>)))"

definition Update :: "('w, 'a) handle \<Rightarrow> 'a \<Rightarrow> ('w, ApiError + 'a) act" where
  "Update h x = (\<lambda>s. case api_update (h_api h) x (world s) of (r, w) \<Rightarrow>
     (Ret r, log_call (UpdateReq (h_obj h x)) (reply_of (h_obj h) r) (s\<lparr>world := w\<rparr>)))"

definition Delete :: "('w, 'a) handle \<Rightarrow> 'a \<Rightarrow> string option \<Rightarrow> ('w, ApiError option) act" where
  "Delete h x policy = (\<lambda>s. case api_delete (h_api h) (h_key h x) policy (world s) of (r, w) \<Rightarrow>
     (Ret r, log_call (DeleteReq (h_kind h) (h_key h x) policy) (reply_opt r) (s\<lparr>world := w\<rparr>)))"

text \<open>
  \<open>r.Get\<close> on the StarknetRPC and \<open>Status().Update\<close> decode the server's answer
  into the shared object; when they fail they leave it as it is.
\<close>

definition GetRpc :: "'w client \<Rightarrow> NamespacedName \<Rightarrow> ('w, ApiError option) act" where
  "GetRpc k n = (\<lambda>s. case api_rpc_get k n (world s) of
     (Inl e, w) \<Rightarrow> (Ret (Some e), log_call (GetReq KindRpc n) (Failed e) (s\<lparr>world := w\<rparr>))
   | (Inr r, w) \<Rightarrow>
       (Ret None, (log_call (GetReq KindRpc n) (Got (ObjRpc r)) (s\<lparr>world := w\<rparr>))\<lparr>the_rpc := r\<rparr>))"

definition StatusUpdate :: "'w client \<Rightarrow> ('w, ApiError option) act" where
  "StatusUpdate k = (\<lambda>s. case api_status_update k (the_rpc s) (world s) of
     (Inl e, w) \<Rightarrow>
       (Ret (Some e), log_call (StatusUpdateReq (the_rpc s)) (Failed e) (s\<lparr>world := w\<rparr>))
   | (Inr r, w) \<Rightarrow>
       (Ret None, (log_call (StatusUpdateReq (the_rpc s)) (Got (ObjRpc r)) (s\<lparr>world := w\<rparr>))\<lparr>the_rpc := r\<rparr>))"

definition ProxyGet :: "'w client \<Rightarrow> string \<Rightarrow> string \<Rightarrow> string \<Rightarrow> string \<Rightarrow> string \<Rightarrow> ('w, ApiError option) act" where
  "ProxyGet k scheme ns name port path = (\<lambda>s.
     case api_proxy_get k scheme ns name port path (world s) of (r, w) \<Rightarrow>
       (Ret r, log_call (ProxyGetReq scheme ns name port path) (reply_opt r) (s\<lparr>world := w\<rparr>)))"

definition Event :: "'w client \<Rightarrow> string \<Rightarrow> string \<Rightarrow> string \<Rightarrow> ('w, unit) act" where
  "Event k type reason msg = (\<lambda>s.
     (Ret (), log_call (EventReq type reason msg) Done
        (s\<lparr>world := api_event k type reason msg (world s)\<rparr>)))"

end
