(* ===== verification/Effects.thy ===== *)
theory Effects
  imports Client
begin

text \<open>
  Reasoning about actions. \<open>wp m Q s\<close> says that running \<open>m\<close> from \<open>s\<close> ends in an
  outcome and a state that satisfy \<open>Q\<close>; the rules in the collection \<open>wp\<close> compute it.
  \<open>calls m s\<close> is what \<open>m\<close> sent, in order. \<open>sends P m s\<close> says that every call it
  made satisfies \<open>P\<close>. \<open>contract\<close> is what the components state of their methods; its
  rules, in the collection \<open>contract_rules\<close>, follow the structure of the action.
\<close>

section \<open>Weakest preconditions\<close>

definition wp :: "('w, 'a) act \<Rightarrow> ('a outcome \<Rightarrow> 'w run_state \<Rightarrow> bool) \<Rightarrow> 'w run_state \<Rightarrow> bool" where
  "wp m Q s = (case m s of (r, s') \<Rightarrow> Q r s')"

lemma wpI: "(\<And>r s'. m s = (r, s') \<Longrightarrow> Q r s') \<Longrightarrow> wp m Q s"
  by (cases "m s") (simp add: wp_def)

lemma wpD: "wp m Q s \<Longrightarrow> m s = (r, s') \<Longrightarrow> Q r s'"
  by (simp add: wp_def)

lemma wp_mono: "wp m Q s \<Longrightarrow> (\<And>r s'. m s = (r, s') \<Longrightarrow> Q r s' \<Longrightarrow> R r s') \<Longrightarrow> wp m R s"
  by (cases "m s") (simp add: wp_def)

lemma wp_returns [wp]: "wp (returns x) Q s = Q (Ret x) s"
  by (simp add: wp_def returns_def)

lemma wp_pure [wp]: "wp (pure r) Q s = Q r s"
  by (simp add: wp_def pure_def)

lemma wp_seq [wp]:
  "wp (seq m f) Q s =
     wp m (\<lambda>r s'. case r of Ret x \<Rightarrow> wp (f x) Q s' | Panicked p \<Rightarrow> Q (Panicked p) s') s"
  by (auto simp: wp_def seq_def split: prod.splits outcome.splits)

lemma wp_cases [wp]:
  "wp (if b then m else m') Q s = (if b then wp m Q s else wp m' Q s)"
  "wp (case q of (a, c) \<Rightarrow> h a c) Q s = (case q of (a, c) \<Rightarrow> wp (h a c) Q s)"
  "wp (case v of Inl e \<Rightarrow> f e | Inr x \<Rightarrow> g x) Q s =
     (case v of Inl e \<Rightarrow> wp (f e) Q s | Inr x \<Rightarrow> wp (g x) Q s)"
  "wp (case r of None \<Rightarrow> m | Some y \<Rightarrow> n y) Q s =
     (case r of None \<Rightarrow> wp m Q s | Some y \<Rightarrow> wp (n y) Q s)"
  "wp (let x = t in l x) Q s = (let x = t in wp (l x) Q s)"
  by (auto split: prod.splits sum.splits option.splits)

lemma wp_read [wp]: "wp read_cluster Q s = Q (Ret (the_rpc s)) s"
  by (simp add: wp_def read_cluster_def)

lemma wp_modify [wp]:
  "wp (modify_cluster f) Q s = Q (Ret ()) (s\<lparr>the_rpc := f (world s) (the_rpc s)\<rparr>)"
  by (simp add: wp_def modify_cluster_def)

lemma wp_Get [wp]:
  "wp (Get h n) Q s = (case api_get (h_api h) n (world s) of (r, w) \<Rightarrow>
     Q (Ret r) (log_call (GetReq (h_kind h) n) (reply_of (h_obj h) r) (s\<lparr>world := w\<rparr>)))"
  by (simp add: wp_def Get_def split: prod.splits)

lemma wp_Create [wp]:
  "wp (Create h x) Q s = (case api_create (h_api h) x (world s) of (r, w) \<Rightarrow>
     Q (Ret r) (log_call (CreateReq (h_obj h x)) (reply_of (h_obj h) r) (s\<lparr>world := w\<rparr>)))"
  by (simp add: wp_def Create_def split: prod.splits)

lemma wp_Update [wp]:
  "wp (Update h x) Q s = (case api_update (h_api h) x (world s) of (r, w) \<Rightarrow>
     Q (Ret r) (log_call (UpdateReq (h_obj h x)) (reply_of (h_obj h) r) (s\<lparr>world := w\<rparr>)))"
  by (simp add: wp_def Update_def split: prod.splits)

lemma wp_Delete [wp]:
  "wp (Delete h x pol) Q s = (case api_delete (h_api h) (h_key h x) pol (world s) of (r, w) \<Rightarrow>
     Q (Ret r) (log_call (DeleteReq (h_kind h) (h_key h x) pol) (reply_opt r) (s\<lparr>world := w\<rparr>)))"
  by (simp add: wp_def Delete_def split: prod.splits)

lemma wp_GetRpc [wp]:
  "wp (GetRpc k n) Q s = (case api_rpc_get k n (world s) of
     (Inl e, w) \<Rightarrow> Q (Ret (Some e)) (log_call (GetReq KindRpc n) (Failed e) (s\<lparr>world := w\<rparr>))
   | (Inr r, w) \<Rightarrow> Q (Ret None)
       ((log_call (GetReq KindRpc n) (Got (ObjRpc r)) (s\<lparr>world := w\<rparr>))\<lparr>the_rpc := r\<rparr>))"
  by (simp add: wp_def GetRpc_def split: prod.splits sum.splits)

lemma wp_StatusUpdate [wp]:
  "wp (StatusUpdate k) Q s = (case api_status_update k (the_rpc s) (world s) of
     (Inl e, w) \<Rightarrow>
       Q (Ret (Some e)) (log_call (StatusUpdateReq (the_rpc s)) (Failed e) (s\<lparr>world := w\<rparr>))
   | (Inr r, w) \<Rightarrow> Q (Ret None)
       ((log_call (StatusUpdateReq (the_rpc s)) (Got (ObjRpc r)) (s\<lparr>world := w\<rparr>))\<lparr>the_rpc := r\<rparr>))"
  by (simp add: wp_def StatusUpdate_def split: prod.splits sum.splits)

lemma wp_ProxyGet [wp]:
  "wp (ProxyGet k scheme ns name port path) Q s =
    (case api_proxy_get k scheme ns name port path (world s) of (r, w) \<Rightarrow>
       Q (Ret r) (log_call (ProxyGetReq scheme ns name port path) (reply_opt r) (s\<lparr>world := w\<rparr>)))"
  by (simp add: wp_def ProxyGet_def split: prod.splits)

lemma wp_Event [wp]:
  "wp (Event k ty reason msg) Q s = Q (Ret ())
     (log_call (EventReq ty reason msg) Done (s\<lparr>world := api_event k ty reason msg (world s)\<rparr>))"
  by (simp add: wp_def Event_def)

lemma log_call_sel [simp]:
  "world (log_call q r s) = world s" "the_rpc (log_call q r s) = the_rpc s"
  "trace (log_call q r s) =
     trace s @ [\<lparr>call_cluster = the_rpc s, call_req = q, call_reply = r\<rparr>]"
  by (simp_all add: log_call_def)

lemma outcome_bind_simps [simp]:
  "outcome_bind (Ret x) f = f x" "outcome_bind (Panicked p) f = Panicked p"
  by (simp_all add: outcome_bind_def)

lemma index0_simps [simp]:
  "index0 [] = Panicked ''index out of range''" "index0 (x # xs) = Ret x"
  by (simp_all add: index0_def)

lemma deref_simps [simp]:
  "deref None = Panicked ''nil pointer dereference''" "deref (Some x) = Ret x"
  by (simp_all add: deref_def)

lemma reply_of_simps [simp]:
  "reply_of f (Inl e) = Failed e" "reply_of f (Inr x) = Got (f x)"
  by (simp_all add: reply_of_def)

lemma reply_opt_simps [simp]: "reply_opt None = Done" "reply_opt (Some e) = Failed e"
  by (simp_all add: reply_opt_def)

section \<open>The calls of an action\<close>

definition calls :: "('w, 'a) act \<Rightarrow> 'w run_state \<Rightarrow> Call list" where
  "calls m s = drop (length (trace s)) (trace (snd (m s)))"

text \<open>A call that does not change the shared object, with the answer it got.\<close>

definition answered :: "'w run_state \<Rightarrow> Request \<Rightarrow> Reply \<Rightarrow> Call" where
  "answered s q r = \<lparr>call_cluster = the_rpc s, call_req = q, call_reply = r\<rparr>"

definition sends :: "(Call \<Rightarrow> bool) \<Rightarrow> ('w, 'a) act \<Rightarrow> 'w run_state \<Rightarrow> bool" where
  "sends P m s = (\<exists>l. trace (snd (m s)) = trace s @ l \<and> (\<forall>c \<in> set l. P c))"

lemma sends_calls: "sends P m s \<Longrightarrow> trace (snd (m s)) = trace s @ calls m s \<and> (\<forall>c \<in> set (calls m s). P c)"
  by (auto simp: sends_def calls_def)

lemma sends_callsD: "sends P m s \<Longrightarrow> c \<in> set (calls m s) \<Longrightarrow> P c"
  by (auto simp: sends_def calls_def)

lemma sends_mono: "sends P m s \<Longrightarrow> (\<And>c. P c \<Longrightarrow> Q c) \<Longrightarrow> sends Q m s"
  by (auto simp: sends_def)

lemma sends_wp: "sends P m s = wp m (\<lambda>r s'. \<exists>l. trace s' = trace s @ l \<and> (\<forall>c \<in> set l. P c)) s"
  by (simp add: sends_def wp_def split: prod.splits)

lemma calls_wp: "wp m (\<lambda>r s'. drop (length (trace s)) (trace s') = l) s \<Longrightarrow> calls m s = l"
  by (simp add: calls_def wp_def split: prod.splits)

lemma sends_seq:
  assumes m: "sends P m s" and f: "\<And>x s'. m s = (Ret x, s') \<Longrightarrow> sends P (f x) s'"
  shows "sends P (seq m f) s"
proof (cases "m s")
  case (Pair r s')
  from m Pair obtain l where l: "trace s' = trace s @ l" "\<forall>c \<in> set l. P c"
    by (auto simp: sends_def)
  show ?thesis
  proof (cases r)
    case (Ret x)
    with Pair f obtain l' where "trace (snd (f x s')) = trace s' @ l'" "\<forall>c \<in> set l'. P c"
      by (auto simp: sends_def)
    with l Pair Ret show ?thesis
      by (auto simp: sends_def seq_def intro!: exI [of _ "l @ l'"])
  next
    case (Panicked p)
    with l Pair show ?thesis by (auto simp: sends_def seq_def)
  qed
qed

text \<open>Every action only appends to the record of calls; a sequence appends both parts.\<close>

definition records :: "('w, 'a) act \<Rightarrow> 'w run_state \<Rightarrow> bool" where
  "records m s = sends (\<lambda>_. True) m s"

lemma recordsI: "sends P m s \<Longrightarrow> records m s"
  by (auto simp: records_def sends_def)

lemma calls_seq:
  assumes "records m s" "m s = (Ret x, s')" "records (f x) s'"
  shows "calls (seq m f) s = calls m s @ calls (f x) s'"
  using assms by (auto simp: records_def sends_def calls_def seq_def)

lemma calls_seq_panic: "m s = (Panicked p, s') \<Longrightarrow> calls (seq m f) s = calls m s"
  by (simp add: calls_def seq_def)

lemma seq_run:
  "seq read_cluster f s = f (the_rpc s) s" "seq (returns x) g s = g x s"
  "seq (pure (Ret x)) g s = g x s" "seq (pure (Panicked p)) g s = (Panicked p, s)"
  by (simp_all add: seq_def read_cluster_def returns_def pure_def)

section \<open>What an action says\<close>

text \<open>
  \<open>talk m s Q\<close>: run from \<open>s\<close>, the action appends some list of calls to the record, and
  this list, the outcome and the final state satisfy \<open>Q\<close>. The rules follow the structure
  of the action; \<open>talk_calls\<close> reads the result for the whole of it.
\<close>

definition talk :: "('w, 'a) act \<Rightarrow> 'w run_state \<Rightarrow>
    ('a outcome \<Rightarrow> Call list \<Rightarrow> 'w run_state \<Rightarrow> bool) \<Rightarrow> bool" where
  "talk m s Q = wp m (\<lambda>r s'. \<exists>l. trace s' = trace s @ l \<and> Q r l s') s"

lemma talk_wp: "talk m s Q \<Longrightarrow> (\<And>r s' l. trace s' = trace s @ l \<Longrightarrow> Q r l s' \<Longrightarrow> R r s') \<Longrightarrow> wp m R s"
  by (auto simp: talk_def wp_def split: prod.splits)

lemma talk_calls: "talk m s Q \<Longrightarrow> Q (fst (m s)) (calls m s) (snd (m s))"
  by (auto simp: talk_def wp_def calls_def split: prod.splits)

lemma talk_mono: "talk m s Q \<Longrightarrow> (\<And>r l s'. Q r l s' \<Longrightarrow> R r l s') \<Longrightarrow> talk m s R"
  by (auto simp: talk_def wp_def split: prod.splits)

lemma talk_conj: "talk m s Q \<Longrightarrow> talk m s R \<Longrightarrow> talk m s (\<lambda>r l s'. Q r l s' \<and> R r l s')"
  by (auto simp: talk_def wp_def split: prod.splits)

lemma talk_seq:
  assumes m: "talk m s Q" and f: "\<And>x l s'. Q (Ret x) l s' \<Longrightarrow> talk (f x) s' (\<lambda>r l'. R r (l @ l'))"
    and p: "\<And>p l s'. Q (Panicked p) l s' \<Longrightarrow> R (Panicked p) l s'"
  shows "talk (seq m f) s R"
proof -
  have step: "case r of Ret x \<Rightarrow> wp (f x) (\<lambda>r s'. \<exists>l. trace s' = trace s @ l \<and> R r l s') s'
      | Panicked p \<Rightarrow> \<exists>l. trace s' = trace s @ l \<and> R (Panicked p) l s'"
    if "trace s' = trace s @ l" "Q r l s'" for r s' l
    using that f [of _ l s'] p [of _ l s']
    by (auto simp: talk_def intro: wp_mono split: outcome.split)
  show ?thesis
    unfolding talk_def wp_seq by (rule talk_wp [OF m step])
qed

lemma talk_returns: "Q (Ret x) [] s \<Longrightarrow> talk (returns x) s Q"
  by (simp add: talk_def wp)

lemma talk_read: "Q (Ret (the_rpc s)) [] s \<Longrightarrow> talk read_cluster s Q"
  by (simp add: talk_def wp)

lemma talk_reading: "talk (f (the_rpc s)) s Q \<Longrightarrow> talk (seq read_cluster f) s Q"
  by (simp add: talk_def wp)

lemma talk_pure: "Q r [] s \<Longrightarrow> talk (pure r) s Q"
  by (simp add: talk_def wp)

lemma talk_Get:
  "(\<And>r w. Q (Ret r) [answered s (GetReq (h_kind h) n) (reply_of (h_obj h) r)]
      (log_call (GetReq (h_kind h) n) (reply_of (h_obj h) r) (s\<lparr>world := w\<rparr>))) \<Longrightarrow> talk (Get h n) s Q"
  by (simp add: talk_def wp answered_def split: prod.split)

lemma talk_Create:
  "(\<And>r w. Q (Ret r) [answered s (CreateReq (h_obj h x)) (reply_of (h_obj h) r)]
      (log_call (CreateReq (h_obj h x)) (reply_of (h_obj h) r) (s\<lparr>world := w\<rparr>))) \<Longrightarrow> talk (Create h x) s Q"
  by (simp add: talk_def wp answered_def split: prod.split)

lemma talk_Delete:
  "(\<And>r w. Q (Ret r) [answered s (DeleteReq (h_kind h) (h_key h x) pol) (reply_opt r)]
      (log_call (DeleteReq (h_kind h) (h_key h x) pol) (reply_opt r) (s\<lparr>world := w\<rparr>))) \<Longrightarrow>
   talk (Delete h x pol) s Q"
  by (simp add: talk_def wp answered_def split: prod.split)

lemma talk_Delete_shared: "talk (Delete h x pol) s (\<lambda>r l s'. the_rpc s' = the_rpc s)"
  by (rule talk_Delete) simp

lemma talk_cases:
  "(b \<Longrightarrow> talk m s Q) \<Longrightarrow> (\<not> b \<Longrightarrow> talk m' s Q) \<Longrightarrow> talk (if b then m else m') s Q"
  "(r = None \<Longrightarrow> talk m s Q) \<Longrightarrow> (\<And>x. r = Some x \<Longrightarrow> talk (f x) s Q) \<Longrightarrow>
     talk (case r of None \<Rightarrow> m | Some x \<Rightarrow> f x) s Q"
  "(\<And>e. v = Inl e \<Longrightarrow> talk (g e) s Q) \<Longrightarrow> (\<And>x. v = Inr x \<Longrightarrow> talk (f' x) s Q) \<Longrightarrow>
     talk (case v of Inl e \<Rightarrow> g e | Inr x \<Rightarrow> f' x) s Q"
  "(\<And>a b. q = (a, b) \<Longrightarrow> talk (h a b) s Q) \<Longrightarrow> talk (case q of (a, b) \<Rightarrow> h a b) s Q"
  by (auto split: option.splits sum.splits prod.splits)

section \<open>Contracts\<close>

text \<open>
  \<open>contract pn I P m R\<close>: run from any state whose shared object satisfies \<open>I\<close>, the
  action sends only calls that satisfy \<open>P\<close>, leaves an object that satisfies \<open>I\<close>, and
  either returns a value that satisfies \<open>R\<close> or panics, the latter only if \<open>pn\<close>.
\<close>

definition contract ::
  "bool \<Rightarrow> (StarknetRPC \<Rightarrow> bool) \<Rightarrow> (Call \<Rightarrow> bool) \<Rightarrow> ('w, 'a) act \<Rightarrow> ('a \<Rightarrow> bool) \<Rightarrow> bool" where
  "contract pn I P m R = (\<forall>s. I (the_rpc s) \<longrightarrow> sends P m s \<and> I (the_rpc (snd (m s))) \<and>
     (case fst (m s) of Ret x \<Rightarrow> R x | Panicked _ \<Rightarrow> pn))"

lemma contractD:
  assumes "contract pn I P m R" "I (the_rpc s)"
  shows "sends P m s" "I (the_rpc (snd (m s)))" "m s = (Ret x, s') \<Longrightarrow> R x"
    "m s = (Panicked p, s') \<Longrightarrow> pn"
  using spec [OF assms(1) [unfolded contract_def], of s] assms(2) by simp_all

lemma contract_wp:
  "contract pn I P m R = (\<forall>s. I (the_rpc s) \<longrightarrow> wp m (\<lambda>r s'.
     (\<exists>l. trace s' = trace s @ l \<and> (\<forall>c \<in> set l. P c)) \<and> I (the_rpc s') \<and>
     (case r of Ret x \<Rightarrow> R x | Panicked _ \<Rightarrow> pn)) s)"
  by (simp add: contract_def sends_def wp_def split_beta)

lemma contract_mono:
  assumes "contract pn I P m R" "\<And>c. P c \<Longrightarrow> P' c" "\<And>x. R x \<Longrightarrow> R' x" "pn \<Longrightarrow> pn'"
  shows "contract pn' I P' m R'"
proof -
  have "sends P' m s \<and> I (the_rpc (snd (m s))) \<and> (case fst (m s) of Ret x \<Rightarrow> R' x | Panicked _ \<Rightarrow> pn')"
    if "I (the_rpc s)" for s
    using contractD(1,2) [OF assms(1) that] contractD(3,4) [OF assms(1) that, of _ "snd (m s)"]
      sends_mono [OF _ assms(2)] assms(3,4)
    by (cases "m s") (auto split: outcome.split)
  then show ?thesis by (simp add: contract_def)
qed

lemma contract_seq [contract_rules]:
  assumes m: "contract pn I P m R" and f: "\<And>x. R x \<Longrightarrow> contract pn I P (f x) Q"
  shows "contract pn I P (seq m f) Q"
proof -
  have "sends P (seq m f) s \<and> I (the_rpc (snd (seq m f s))) \<and>
      (case fst (seq m f s) of Ret x \<Rightarrow> Q x | Panicked _ \<Rightarrow> pn)" if "I (the_rpc s)" for s
  proof (cases "m s")
    case (Pair r s')
    note mD = contractD [OF m that]
    show ?thesis
    proof (cases r)
      case (Ret x)
      have "contract pn I P (f x) Q" using f mD(3) Pair Ret by blast
      moreover have "I (the_rpc s')" using mD(2) Pair by simp
      ultimately show ?thesis
        using mD(1) Pair Ret by (auto simp: contract_def seq_def intro!: sends_seq [OF mD(1), unfolded seq_def])
    next
      case (Panicked p)
      then show ?thesis using mD Pair by (auto simp: seq_def sends_def)
    qed
  qed
  then show ?thesis by (simp add: contract_def)
qed

lemma contract_returns [contract_rules]: "R x \<Longrightarrow> contract pn I P (returns x) R"
  by (simp add: contract_wp wp)

lemma contract_pure [contract_rules]:
  "(\<And>x. r = Ret x \<Longrightarrow> R x) \<Longrightarrow> (\<And>p. r = Panicked p \<Longrightarrow> pn) \<Longrightarrow> contract pn I P (pure r) R"
  by (simp add: contract_wp wp split: outcome.split)

lemma contract_read [contract_rules]: "(\<And>c. I c \<Longrightarrow> R c) \<Longrightarrow> contract pn I P read_cluster R"
  by (simp add: contract_wp wp)

lemma contract_reading:
  "(\<And>x. I x \<Longrightarrow> contract pn I P (f x) R) \<Longrightarrow> contract pn I P (seq read_cluster f) R"
  by (rule contract_seq [OF contract_read [where R = I]])

lemma contract_Get [contract_rules]:
  assumes "\<And>c r. I c \<Longrightarrow> P \<lparr>call_cluster = c, call_req = GetReq (h_kind h) n, call_reply = r\<rparr>"
    and "\<And>w r w'. api_get (h_api h) n w = (r, w') \<Longrightarrow> R r"
  shows "contract pn I P (Get h n) R"
  using assms by (simp add: contract_wp wp split: prod.split)

lemma contract_Create [contract_rules]:
  assumes "\<And>c r. I c \<Longrightarrow> P \<lparr>call_cluster = c, call_req = CreateReq (h_obj h x), call_reply = r\<rparr>"
    and "\<And>w r w'. api_create (h_api h) x w = (r, w') \<Longrightarrow> R r"
  shows "contract pn I P (Create h x) R"
  using assms by (simp add: contract_wp wp split: prod.split)

lemma contract_Update [contract_rules]:
  assumes "\<And>c r. I c \<Longrightarrow> P \<lparr>call_cluster = c, call_req = UpdateReq (h_obj h x), call_reply = r\<rparr>"
    and "\<And>w r w'. api_update (h_api h) x w = (r, w') \<Longrightarrow> R r"
  shows "contract pn I P (Update h x) R"
  using assms by (simp add: contract_wp wp split: prod.split)

lemma contract_Delete [contract_rules]:
  assumes "\<And>c r. I c \<Longrightarrow>
      P \<lparr>call_cluster = c, call_req = DeleteReq (h_kind h) (h_key h x) pol, call_reply = r\<rparr>"
    and "\<And>r. R r"
  shows "contract pn I P (Delete h x pol) R"
  using assms by (simp add: contract_wp wp split: prod.split)

lemma contract_ProxyGet [contract_rules]:
  assumes "\<And>c r. I c \<Longrightarrow>
      P \<lparr>call_cluster = c, call_req = ProxyGetReq scheme ns name port path, call_reply = r\<rparr>"
    and "\<And>r. R r"
  shows "contract pn I P (ProxyGet k scheme ns name port path) R"
  using assms by (simp add: contract_wp wp split: prod.split)

lemma contract_Event [contract_rules]:
  assumes "\<And>c r. I c \<Longrightarrow> P \<lparr>call_cluster = c, call_req = EventReq ty reason msg, call_reply = r\<rparr>"
    and "R ()"
  shows "contract pn I P (Event k ty reason msg) R"
  using assms by (simp add: contract_wp wp)

lemma contract_cases [contract_rules]:
  "(b \<Longrightarrow> contract pn I P m R) \<Longrightarrow> (\<not> b \<Longrightarrow> contract pn I P m' R) \<Longrightarrow>
     contract pn I P (if b then m else m') R"
  "(r = None \<Longrightarrow> contract pn I P m R) \<Longrightarrow> (\<And>x. r = Some x \<Longrightarrow> contract pn I P (f x) R) \<Longrightarrow>
     contract pn I P (case r of None \<Rightarrow> m | Some x \<Rightarrow> f x) R"
  "(\<And>e. v = Inl e \<Longrightarrow> contract pn I P (g e) R) \<Longrightarrow>
     (\<And>x. v = Inr x \<Longrightarrow> contract pn I P (f' x) R) \<Longrightarrow>
     contract pn I P (case v of Inl e \<Rightarrow> g e | Inr x \<Rightarrow> f' x) R"
  "(\<And>a b. q = (a, b) \<Longrightarrow> contract pn I P (h a b) R) \<Longrightarrow>
     contract pn I P (case q of (a, b) \<Rightarrow> h a b) R"
  "contract pn I P (n t) R \<Longrightarrow> contract pn I P (let x = t in n x) R"
  by (auto split: option.splits sum.splits prod.splits)

lemma contract_talk:
  "contract pn I P m R \<Longrightarrow> I (the_rpc s) \<Longrightarrow> talk m s (\<lambda>r l s'. I (the_rpc s') \<and> (\<forall>c \<in> set l. P c))"
  by (auto simp: talk_def contract_wp wp_def split: prod.splits)

lemma contract_talk_result:
  assumes "contract pn I P m R" "I (the_rpc s)"
  shows "talk m s (\<lambda>r l s'. \<forall>x. r = Ret x \<longrightarrow> R x)"
  using contractD(1,3) [OF assms] by (cases "m s") (auto simp: talk_def wp_def sends_def)

text \<open>The weakest contract, for what is only needed to know about an action's result.\<close>

abbreviation anyone :: "StarknetRPC \<Rightarrow> bool" where "anyone \<equiv> \<lambda>_. True"
abbreviation anything :: "Call \<Rightarrow> bool" where "anything \<equiv> \<lambda>_. True"

definition no_panic :: "('w, 'a) act \<Rightarrow> 'w run_state \<Rightarrow> bool" where
  "no_panic m s = (\<forall>p. fst (m s) \<noteq> Panicked p)"

lemma contract_no_panic: "contract False I P m R \<Longrightarrow> I (the_rpc s) \<Longrightarrow> no_panic m s"
  by (auto simp: contract_def no_panic_def split: outcome.splits)

section \<open>Documented behaviour of the environment\<close>

text \<open>
  A status update answers with the stored object: the metadata and the specification that
  were read (a change in between is refused by the resource version), the conditions that
  were sent.
\<close>

definition lawful_status_update :: "'w client \<Rightarrow> bool" where
  "lawful_status_update k = (\<forall>r w r' w'. api_status_update k r w = (Inr r', w') \<longrightarrow>
     same_resource r r' \<and> conditions r' = conditions r)"

lemma lawful_status_updateD:
  "lawful_status_update k \<Longrightarrow> api_status_update k r w = (Inr r', w') \<Longrightarrow> same_resource r r'"
  "lawful_status_update k \<Longrightarrow> api_status_update k r w = (Inr r', w') \<Longrightarrow> conditions r' = conditions r"
  by (simp_all add: lawful_status_update_def) blast+

text \<open>
  \<open>meta.SetStatusCondition\<close> stores the condition under its type, with the status, reason
  and message given, and leaves the conditions of other types alone;
  \<open>meta.IsStatusConditionTrue\<close> finds the condition of a type and tests its status.
\<close>

definition condition_of :: "Condition list \<Rightarrow> string \<Rightarrow> Condition option" where
  "condition_of cs t = find (\<lambda>c. c_type c = t) cs"

definition says :: "Condition \<Rightarrow> Condition \<Rightarrow> bool" where
  "says c c' = (c_type c' = c_type c \<and> c_status c' = c_status c \<and> c_reason c' = c_reason c \<and>
     c_message c' = c_message c)"

definition lawful_conditions :: "'w client \<Rightarrow> bool" where
  "lawful_conditions k \<longleftrightarrow>
     (\<forall>w cs c. (\<exists>c'. condition_of (set_status_condition k w cs c) (c_type c) = Some c' \<and> says c c') \<and>
        (\<forall>t. t \<noteq> c_type c \<longrightarrow> condition_of (set_status_condition k w cs c) t = condition_of cs t)) \<and>
     (\<forall>cs t. is_status_condition_true k cs t =
        (case condition_of cs t of None \<Rightarrow> False | Some c \<Rightarrow> c_status c = ConditionTrue))"

lemma lawful_conditions_set:
  assumes "lawful_conditions k"
  shows "\<exists>c'. condition_of (set_status_condition k w cs c) (c_type c) = Some c' \<and> says c c'"
    and "t \<noteq> c_type c \<Longrightarrow> condition_of (set_status_condition k w cs c) t = condition_of cs t"
  using assms by (auto simp: lawful_conditions_def)

lemma lawful_conditions_true:
  assumes "lawful_conditions k"
  shows "is_status_condition_true k (set_status_condition k w cs c) t =
    (if t = c_type c then c_status c = ConditionTrue else is_status_condition_true k cs t)"
proof (cases "t = c_type c")
  case True
  obtain c' where "condition_of (set_status_condition k w cs c) (c_type c) = Some c'" "says c c'"
    using lawful_conditions_set(1) [OF assms] by blast
  with True assms show ?thesis by (simp add: lawful_conditions_def says_def)
next
  case False
  with assms show ?thesis by (simp add: lawful_conditions_def)
qed

end
