(* ===== verification/Sample.thy ===== *)
theory Sample
  imports Effects
begin

text \<open>
  A concrete environment for the witnesses: an API server that keeps its objects in memory
  and two switches for failures. It is an instance of the parameter \<open>client\<close>, not a
  model of the real server; no theorem but a witness mentions it.
\<close>

record mem =
  m_pvcs :: "NamespacedName \<Rightarrow> PersistentVolumeClaim option"
  m_jobs :: "NamespacedName \<Rightarrow> Job option"
  m_pods :: "NamespacedName \<Rightarrow> Pod option"
  m_monitors :: "NamespacedName \<Rightarrow> PodMonitor option"
  m_rpcs :: "NamespacedName \<Rightarrow> StarknetRPC option"
  m_status_fails :: bool
  m_proxy :: "ApiError option"

definition mem_api ::
  "(mem \<Rightarrow> NamespacedName \<Rightarrow> 'a option) \<Rightarrow>
   ((NamespacedName \<Rightarrow> 'a option) \<Rightarrow> mem \<Rightarrow> mem) \<Rightarrow> ('a \<Rightarrow> NamespacedName) \<Rightarrow> (mem, 'a) kind_api" where
  "mem_api get put key =
    \<lparr>api_get = (\<lambda>n w. (case get w n of None \<Rightarrow> Inl NotFound
        | Some x \<Rightarrow> if key x = n then Inr x else Inl NotFound, w)),
     api_create = (\<lambda>x w. case get w (key x) of
        None \<Rightarrow> (Inr x, put ((get w)(key x := Some x)) w) | Some _ \<Rightarrow> (Inl AlreadyExists, w)),
     api_update = (\<lambda>x w. case get w (key x) of
        None \<Rightarrow> (Inl NotFound, w) | Some _ \<Rightarrow> (Inr x, put ((get w)(key x := Some x)) w)),
     api_delete = (\<lambda>n _ w. case get w n of
        None \<Rightarrow> (Some NotFound, w) | Some _ \<Rightarrow> (None, put ((get w)(n := None)) w))\<rparr>"

definition mem_set_condition :: "mem \<Rightarrow> Condition list \<Rightarrow> Condition \<Rightarrow> Condition list" where
  "mem_set_condition w cs c =
    (if condition_of cs (c_type c) = None then cs @ [c]
     else map (\<lambda>d. if c_type d = c_type c then c else d) cs)"

definition mem_condition_true :: "Condition list \<Rightarrow> string \<Rightarrow> bool" where
  "mem_condition_true cs t =
    (case condition_of cs t of None \<Rightarrow> False | Some c \<Rightarrow> c_status c = ConditionTrue)"

definition mem_status_update :: "StarknetRPC \<Rightarrow> mem \<Rightarrow> (ApiError + StarknetRPC) \<times> mem" where
  "mem_status_update r w =
    (if m_status_fails w then (Inl Conflict, w)
     else (Inr r, w\<lparr>m_rpcs := (m_rpcs w)(meta_key (rpc_meta r) := Some r)\<rparr>))"

definition mem_client :: "mem client" where
  "mem_client =
    \<lparr>api_pvcs = mem_api m_pvcs (\<lambda>f. m_pvcs_update (\<lambda>_. f)) (\<lambda>x. meta_key (pvc_meta x)),
     api_jobs = mem_api m_jobs (\<lambda>f. m_jobs_update (\<lambda>_. f)) (\<lambda>x. meta_key (job_meta x)),
     api_pods = mem_api m_pods (\<lambda>f. m_pods_update (\<lambda>_. f)) (\<lambda>x. meta_key (pod_meta x)),
     api_pod_monitors =
       mem_api m_monitors (\<lambda>f. m_monitors_update (\<lambda>_. f)) (\<lambda>x. meta_key (pm_meta x)),
     api_rpc_get = (\<lambda>n w. (case m_rpcs w n of None \<Rightarrow> Inl NotFound
        | Some x \<Rightarrow> if meta_key (rpc_meta x) = n then Inr x else Inl NotFound, w)),
     api_status_update = mem_status_update,
     api_proxy_get = (\<lambda>_ _ _ _ _ w. (m_proxy w, w)),
     api_event = (\<lambda>_ _ _ w. w),
     set_status_condition = mem_set_condition,
     is_status_condition_true = mem_condition_true\<rparr>"

lemma mem_client_sel [simp]:
  "api_pvcs mem_client = mem_api m_pvcs (\<lambda>f. m_pvcs_update (\<lambda>_. f)) (\<lambda>x. meta_key (pvc_meta x))"
  "api_jobs mem_client = mem_api m_jobs (\<lambda>f. m_jobs_update (\<lambda>_. f)) (\<lambda>x. meta_key (job_meta x))"
  "api_pods mem_client = mem_api m_pods (\<lambda>f. m_pods_update (\<lambda>_. f)) (\<lambda>x. meta_key (pod_meta x))"
  "api_pod_monitors mem_client =
     mem_api m_monitors (\<lambda>f. m_monitors_update (\<lambda>_. f)) (\<lambda>x. meta_key (pm_meta x))"
  "api_rpc_get mem_client = (\<lambda>n w. (case m_rpcs w n of None \<Rightarrow> Inl NotFound
     | Some x \<Rightarrow> if meta_key (rpc_meta x) = n then Inr x else Inl NotFound, w))"
  "api_status_update mem_client = mem_status_update"
  "api_proxy_get mem_client = (\<lambda>_ _ _ _ _ w. (m_proxy w, w))"
  "api_event mem_client = (\<lambda>_ _ _ w. w)"
  "set_status_condition mem_client = mem_set_condition"
  "is_status_condition_true mem_client = mem_condition_true"
  by (simp_all add: mem_client_def)

lemma mem_api_sel [simp]:
  "api_get (mem_api get put key) n w = (case get w n of None \<Rightarrow> Inl NotFound
     | Some x \<Rightarrow> if key x = n then Inr x else Inl NotFound, w)"
  "api_create (mem_api get put key) x w = (case get w (key x) of
     None \<Rightarrow> (Inr x, put ((get w)(key x := Some x)) w) | Some _ \<Rightarrow> (Inl AlreadyExists, w))"
  "api_update (mem_api get put key) x w = (case get w (key x) of
     None \<Rightarrow> (Inl NotFound, w) | Some _ \<Rightarrow> (Inr x, put ((get w)(key x := Some x)) w))"
  "api_delete (mem_api get put key) n pol w = (case get w n of
     None \<Rightarrow> (Some NotFound, w) | Some _ \<Rightarrow> (None, put ((get w)(n := None)) w))"
  by (simp_all add: mem_api_def)

lemma condition_of_map:
  "condition_of (map (\<lambda>d. if c_type d = c_type c then c else d) cs) t =
    (if t = c_type c then (if condition_of cs t = None then None else Some c) else condition_of cs t)"
  by (induction cs) (auto simp: condition_of_def)

lemma condition_of_snoc:
  "condition_of (cs @ [c]) t =
    (case condition_of cs t of Some d \<Rightarrow> Some d | None \<Rightarrow> if c_type c = t then Some c else None)"
  by (induction cs) (auto simp: condition_of_def)

lemma lawful_conditions_mem [simp]: "lawful_conditions mem_client"
  by (auto simp: lawful_conditions_def mem_set_condition_def mem_condition_true_def
      condition_of_map condition_of_snoc says_def split: option.splits)

lemma lawful_status_update_mem [simp]: "lawful_status_update mem_client"
  by (auto simp: lawful_status_update_def mem_status_update_def split: if_splits)

section \<open>A resource\<close>

definition sample_rpc :: StarknetRPC where
  "sample_rpc =
    \<lparr>rpc_type = \<lparr>tm_api_version = ''pathfinder.runelabs.xyz/v1alpha1'', tm_kind = ''StarknetRPC''\<rparr>,
     rpc_meta = \<lparr>om_name = ''node'', om_namespace = ''default'', om_uid = ''u1'',
                 om_labels = None, om_annotations = None, om_owners = []\<rparr>,
     rpc_spec =
      \<lparr>sp_network = ''mainnet'',
       sp_restore_archive =
        \<lparr>as_enable = Some True, as_file_name = ''snap.zst'', as_checksum = ''abc'',
         as_rsync_config = None, as_restore_image = None,
         as_storage = \<lparr>st_size = ''32Gi'', st_class = ''fast''\<rparr>\<rparr>,
       sp_resources = no_resources, sp_image = None,
       sp_storage = \<lparr>st_size = ''64Gi'', st_class = ''fast''\<rparr>, sp_tolerations = [],
       sp_layer1_rpc_secret = \<lparr>sks_name = ''l1'', sks_key = ''url'', sks_optional = None\<rparr>,
       sp_pod_monitor = Some \<lparr>pmc_enabled = True, pmc_labels = None\<rparr>\<rparr>,
     rpc_status = \<lparr>ss_conditions = None\<rparr>\<rparr>"

definition empty_mem :: mem where
  "empty_mem = \<lparr>m_pvcs = (\<lambda>_. None), m_jobs = (\<lambda>_. None), m_pods = (\<lambda>_. None),
     m_monitors = (\<lambda>_. None), m_rpcs = (\<lambda>_. None), m_status_fails = False, m_proxy = None\<rparr>"

definition run_from :: "'w \<Rightarrow> StarknetRPC \<Rightarrow> 'w run_state" where
  "run_from w r = \<lparr>world = w, the_rpc = r, trace = []\<rparr>"

lemma run_from_sel [simp]:
  "world (run_from w r) = w" "the_rpc (run_from w r) = r" "trace (run_from w r) = []"
  by (simp_all add: run_from_def)

lemma empty_mem_sel [simp]:
  "m_pvcs empty_mem = (\<lambda>_. None)" "m_jobs empty_mem = (\<lambda>_. None)"
  "m_pods empty_mem = (\<lambda>_. None)" "m_monitors empty_mem = (\<lambda>_. None)"
  "m_rpcs empty_mem = (\<lambda>_. None)" "\<not> m_status_fails empty_mem" "m_proxy empty_mem = None"
  by (simp_all add: empty_mem_def)

lemma sample_rpc_sel [simp]:
  "rpc_name sample_rpc = ''node''" "rpc_namespace sample_rpc = ''default''"
  "conditions sample_rpc = []" "ss_conditions (rpc_status sample_rpc) = None"
  by (simp_all add: sample_rpc_def conditions_def)

end
