(* ===== verification/Names.thy ===== *)
theory Names
  imports Sample
begin

text \<open>
  The names of the objects that belong to a StarknetRPC (the \<open>Get*Name\<close> methods of
  internal/controller) and the contract of the \<open>GetWanted*\<close> constructors that use them:
  what a constructor builds carries the derived name, lies in the namespace of the resource
  and, for all but the restore job, names the resource as its controller.
\<close>

section \<open>Derived names\<close>

definition GetStoragePvcName :: "StarknetRPC \<Rightarrow> NamespacedName" where
  "GetStoragePvcName cluster =
     \<lparr>nn_name = rpc_name cluster @ ''-storage'', nn_namespace = rpc_namespace cluster\<rparr>"

definition GetRestorePvcName :: "StarknetRPC \<Rightarrow> NamespacedName" where
  "GetRestorePvcName cluster =
     \<lparr>nn_name = rpc_name cluster @ ''-archive-restore'', nn_namespace = rpc_namespace cluster\<rparr>"

definition GetRestoreJobName :: "StarknetRPC \<Rightarrow> NamespacedName" where
  "GetRestoreJobName cluster =
     \<lparr>nn_name = rpc_name cluster @ ''-archive-restore-job'', nn_namespace = rpc_namespace cluster\<rparr>"

definition GetPodName :: "StarknetRPC \<Rightarrow> NamespacedName" where
  "GetPodName cluster =
     \<lparr>nn_name = rpc_name cluster @ ''-rpc'', nn_namespace = rpc_namespace cluster\<rparr>"

definition GetPodMonitorName :: "StarknetRPC \<Rightarrow> NamespacedName" where
  "GetPodMonitorName cluster =
     \<lparr>nn_name = rpc_name cluster @ ''-podmonitor'', nn_namespace = rpc_namespace cluster\<rparr>"

lemmas name_defs = GetStoragePvcName_def GetRestorePvcName_def GetRestoreJobName_def
  GetPodName_def GetPodMonitorName_def

lemma names_same_resource:
  assumes "same_resource a b"
  shows "GetStoragePvcName b = GetStoragePvcName a" "GetRestorePvcName b = GetRestorePvcName a"
    "GetRestoreJobName b = GetRestoreJobName a" "GetPodName b = GetPodName a"
    "GetPodMonitorName b = GetPodMonitorName a"
  using assms by (simp_all add: same_resource_def name_defs)

text \<open>Two names with different last characters differ.\<close>

lemma append_last_neq: "u \<noteq> [] \<Longrightarrow> v \<noteq> [] \<Longrightarrow> last u \<noteq> last v \<Longrightarrow> a @ u \<noteq> b @ v"
  by (metis last_appendR)

section \<open>The contract of the constructors\<close>

locale wanted_object =
  fixes wanted :: "StarknetRPC \<Rightarrow> 'a"
    and meta :: "'a \<Rightarrow> ObjectMeta"
    and suffix :: string
  assumes wanted_name: "om_name (meta (wanted r)) = rpc_name r @ suffix"
    and wanted_namespace: "om_namespace (meta (wanted r)) = rpc_namespace r"
begin

lemma wanted_key:
  "meta_key (meta (wanted r)) = \<lparr>nn_name = rpc_name r @ suffix, nn_namespace = rpc_namespace r\<rparr>"
  by (simp add: meta_key_def wanted_name wanted_namespace)

text \<open>Two resources never share an object: the key determines the resource.\<close>

lemma wanted_key_inj:
  "meta_key (meta (wanted a)) = meta_key (meta (wanted b)) \<longleftrightarrow>
   rpc_name a = rpc_name b \<and> rpc_namespace a = rpc_namespace b"
  by (simp add: wanted_key)

end

locale owned_object = wanted_object +
  fixes api_version :: "StarknetRPC \<Rightarrow> string"
    and owner_kind :: "StarknetRPC \<Rightarrow> string"
  assumes wanted_owners: "om_owners (meta (wanted r)) = [owner_ref (api_version r) (owner_kind r) r]"
begin

text \<open>The resource is the controller of the object, and its only owner.\<close>

lemma sole_controller:
  "filter (\<lambda>own. or_controller own = Some True) (om_owners (meta (wanted r))) =
   [owner_ref (api_version r) (owner_kind r) r]"
  by (simp add: wanted_owners owner_ref_def)

lemma owner_identity:
  "own \<in> set (om_owners (meta (wanted r))) \<Longrightarrow>
   or_uid own = om_uid (rpc_meta r) \<and> or_name own = rpc_name r \<and> or_block_owner_deletion own = Some True"
  by (auto simp: wanted_owners owner_ref_def)

end

section \<open>Confinement\<close>

text \<open>The keys a resource may touch, by kind, and the requests that stay within them.\<close>

definition owned_key :: "StarknetRPC \<Rightarrow> Kind \<Rightarrow> NamespacedName \<Rightarrow> bool" where
  "owned_key r knd n = (case knd of
     KindPvc \<Rightarrow> n = GetStoragePvcName r \<or> n = GetRestorePvcName r
   | KindJob \<Rightarrow> n = GetRestoreJobName r
   | KindPod \<Rightarrow> n = GetPodName r
   | KindPodMonitor \<Rightarrow> n = GetPodMonitorName r
   | KindRpc \<Rightarrow> n = meta_key (rpc_meta r))"

lemma owned_key_simps [simp]:
  "owned_key r KindPvc n \<longleftrightarrow> n = GetStoragePvcName r \<or> n = GetRestorePvcName r"
  "owned_key r KindJob n \<longleftrightarrow> n = GetRestoreJobName r"
  "owned_key r KindPod n \<longleftrightarrow> n = GetPodName r"
  "owned_key r KindPodMonitor n \<longleftrightarrow> n = GetPodMonitorName r"
  "owned_key r KindRpc n \<longleftrightarrow> n = meta_key (rpc_meta r)"
  by (simp_all add: owned_key_def)

fun object_kind :: "Object \<Rightarrow> Kind" where
  "object_kind (ObjPvc x) = KindPvc"
| "object_kind (ObjJob x) = KindJob"
| "object_kind (ObjPod x) = KindPod"
| "object_kind (ObjPodMonitor x) = KindPodMonitor"
| "object_kind (ObjRpc x) = KindRpc"

fun object_key :: "Object \<Rightarrow> NamespacedName" where
  "object_key (ObjPvc x) = meta_key (pvc_meta x)"
| "object_key (ObjJob x) = meta_key (job_meta x)"
| "object_key (ObjPod x) = meta_key (pod_meta x)"
| "object_key (ObjPodMonitor x) = meta_key (pm_meta x)"
| "object_key (ObjRpc x) = meta_key (rpc_meta x)"

fun request_confined :: "StarknetRPC \<Rightarrow> Request \<Rightarrow> bool" where
  "request_confined r (GetReq knd n) = owned_key r knd n"
| "request_confined r (CreateReq x) = owned_key r (object_kind x) (object_key x)"
| "request_confined r (UpdateReq x) = owned_key r (object_kind x) (object_key x)"
| "request_confined r (DeleteReq knd n _) = owned_key r knd n"
| "request_confined r (StatusUpdateReq r') = same_resource r r'"
| "request_confined r (ProxyGetReq _ ns name _ _) =
     owned_key r KindPod \<lparr>nn_name = name, nn_namespace = ns\<rparr>"
| "request_confined r (EventReq _ _ _) = True"

definition confined :: "StarknetRPC \<Rightarrow> Call \<Rightarrow> bool" where
  "confined r c = request_confined r (call_req c)"

lemma owned_key_same_resource: "same_resource a b \<Longrightarrow> owned_key b knd n = owned_key a knd n"
  by (cases knd) (auto simp: names_same_resource, simp_all add: same_resource_def meta_key_def)

lemma request_confined_same_resource:
  assumes "same_resource a b" "request_confined b q"
  shows "request_confined a q"
  using assms(2) names_same_resource [OF assms(1)] owned_key_same_resource [OF assms(1)]
    same_resource_trans [OF assms(1)]
  by (cases q) auto

lemma confined_same_resource:
  assumes "same_resource a b" "confined b c"
  shows "confined a c"
  using assms(2) unfolding confined_def by (rule request_confined_same_resource [OF assms(1)])

text \<open>The server answers about the object it was asked about.\<close>

definition lawful_api :: "('a \<Rightarrow> ObjectMeta) \<Rightarrow> ('w, 'a) kind_api \<Rightarrow> bool" where
  "lawful_api meta api \<longleftrightarrow>
     (\<forall>n w x w'. api_get api n w = (Inr x, w') \<longrightarrow> meta_key (meta x) = n) \<and>
     (\<forall>y w x w'. api_create api y w = (Inr x, w') \<longrightarrow> meta_key (meta x) = meta_key (meta y)) \<and>
     (\<forall>y w x w'. api_update api y w = (Inr x, w') \<longrightarrow> meta_key (meta x) = meta_key (meta y))"

definition lawful_keys :: "'w client \<Rightarrow> bool" where
  "lawful_keys k \<longleftrightarrow> lawful_api pvc_meta (api_pvcs k) \<and> lawful_api job_meta (api_jobs k) \<and>
     lawful_api pod_meta (api_pods k) \<and> lawful_api pm_meta (api_pod_monitors k) \<and>
     (\<forall>n w x w'. api_rpc_get k n w = (Inr x, w') \<longrightarrow> meta_key (rpc_meta x) = n)"

lemma lawful_apiD:
  "lawful_api meta api \<Longrightarrow> api_get api n w = (Inr x, w') \<Longrightarrow> meta_key (meta x) = n"
  "lawful_api meta api \<Longrightarrow> api_create api y w = (Inr x, w') \<Longrightarrow> meta_key (meta x) = meta_key (meta y)"
  "lawful_api meta api \<Longrightarrow> api_update api y w = (Inr x, w') \<Longrightarrow> meta_key (meta x) = meta_key (meta y)"
  unfolding lawful_api_def by blast+

lemma lawful_api_mem: "lawful_api meta (mem_api get put (\<lambda>x. meta_key (meta x)))"
  by (auto simp: lawful_api_def split: option.splits if_splits)

lemma lawful_keys_mem [simp]: "lawful_keys mem_client"
  by (auto simp: lawful_keys_def lawful_api_mem split: option.splits if_splits)

end
