(* ===== verification/Conditions.thy ===== *)
theory Conditions
  imports Sample
begin

text \<open>
  internal/utils/condition: the phases of the two conditions \<open>Restore\<close> and
  \<open>Available\<close> (restore.go, ready.go), the transitions that store them
  (condition.go) and their initialization (conditions.go). A status is a Go string, so it
  need not be one of the declared constants.
\<close>

section \<open>condition.go\<close>

type_synonym 'w StateTransition = "'w \<Rightarrow> StarknetRPC \<Rightarrow> StarknetRPC"

text \<open>The body of the transitions: \<open>meta.SetStatusCondition(&rpc.Status.Conditions, c)\<close>.\<close>

definition set_condition :: "'w client \<Rightarrow> Condition \<Rightarrow> 'w StateTransition" where
  "set_condition k c = (\<lambda>w rpc. set_conditions (set_status_condition k w (conditions rpc) c) rpc)"

fun apply_transitions :: "'w StateTransition list \<Rightarrow> ('w, unit) act" where
  "apply_transitions [] = returns ()"
| "apply_transitions (transition # ts) =
     seq (modify_cluster transition) (\<lambda>_. apply_transitions ts)"

definition SetPhases :: "'w client \<Rightarrow> 'w StateTransition list \<Rightarrow> ('w, GoError option) act" where
  "SetPhases k transitions =
     seq (modify_cluster (\<lambda>_ node.
            if ss_conditions (rpc_status node) = None then set_conditions [] node else node)) (\<lambda>_.
     seq (apply_transitions transitions) (\<lambda>_.
     seq (StatusUpdate k) (\<lambda>err.
       case err of Some e \<Rightarrow> returns (Some (Api e)) | None \<Rightarrow> returns None)))"

section \<open>restore.go\<close>

definition StarknetRPCRestoreStatusPending :: string where
  "StarknetRPCRestoreStatusPending = ''Pending''"
definition StarknetRPCRestoreStatusRestoring :: string where
  "StarknetRPCRestoreStatusRestoring = ''Restoring''"
definition StarknetRPCRestoreStatusSuccess :: string where
  "StarknetRPCRestoreStatusSuccess = ''Success''"
definition StarknetRPCRestoreStatusFailed :: string where
  "StarknetRPCRestoreStatusFailed = ''Failed''"
definition StarknetRPCRestoreStatusSkipped :: string where
  "StarknetRPCRestoreStatusSkipped = ''Skipped''"

definition RestoreStatus_Message :: "string \<Rightarrow> string" where
  "RestoreStatus_Message s =
    (if s = StarknetRPCRestoreStatusPending then ''Restore operation is being setup''
     else if s = StarknetRPCRestoreStatusRestoring then ''Restore operation is in progress''
     else if s = StarknetRPCRestoreStatusSuccess then ''Restore operation has completed successfully''
     else if s = StarknetRPCRestoreStatusFailed then ''Restore operation has failed''
     else if s = StarknetRPCRestoreStatusSkipped
       then ''Restore operation was skipped by the configuration''
     else ''Unknown status'')"

definition RestoreStatus_Status :: "string \<Rightarrow> ConditionStatus" where
  "RestoreStatus_Status s =
    (if s = StarknetRPCRestoreStatusPending then ConditionFalse
     else if s = StarknetRPCRestoreStatusRestoring then ConditionFalse
     else if s = StarknetRPCRestoreStatusFailed then ConditionFalse
     else if s = StarknetRPCRestoreStatusSuccess then ConditionTrue
     else if s = StarknetRPCRestoreStatusSkipped then ConditionTrue
     else ConditionUnknown)"

section \<open>The condition types, conditions.go\<close>

definition StarknetRPCRestoreCondition :: string where
  "StarknetRPCRestoreCondition = ''Restore''"
definition StarknetRPCAvailableCondition :: string where
  "StarknetRPCAvailableCondition = ''Available''"

definition RestoreStatus_AsCondition :: "string \<Rightarrow> Condition" where
  "RestoreStatus_AsCondition s =
     \<lparr>c_type = StarknetRPCRestoreCondition, c_status = RestoreStatus_Status s, c_reason = s,
      c_message = RestoreStatus_Message s, c_last_transition = None\<rparr>"

definition RestoreStatus_Apply :: "'w client \<Rightarrow> string \<Rightarrow> 'w StateTransition" where
  "RestoreStatus_Apply k s = set_condition k (RestoreStatus_AsCondition s)"

section \<open>ready.go\<close>

definition StarknetRPCAvailableStatusPending :: string where
  "StarknetRPCAvailableStatusPending = ''Pending''"
definition StarknetRPCAvailableStatusCreating :: string where
  "StarknetRPCAvailableStatusCreating = ''Creating''"
definition StarknetRPCAvailableStatusCatchingUp :: string where
  "StarknetRPCAvailableStatusCatchingUp = ''CatchingUp''"
definition StarknetRPCAvailableStatusReady :: string where
  "StarknetRPCAvailableStatusReady = ''Ready''"
definition StarknetRPCAvailableStatusFailed :: string where
  "StarknetRPCAvailableStatusFailed = ''Failed''"
definition StarknetRPCAvailableStatusUnknown :: string where
  "StarknetRPCAvailableStatusUnknown = ''Unknown''"

definition AvailableStatus_String :: "string \<Rightarrow> string" where
  "AvailableStatus_String s =
    (if s = StarknetRPCAvailableStatusPending then ''Pending''
     else if s = StarknetRPCAvailableStatusCreating then ''Creating''
     else if s = StarknetRPCAvailableStatusCatchingUp then ''CatchingUp''
     else if s = StarknetRPCAvailableStatusReady then ''Ready''
     else if s = StarknetRPCAvailableStatusFailed then ''Failed''
     else if s = StarknetRPCAvailableStatusUnknown then ''Unknown''
     else ''Unknown('' @ s @ '')'')"

definition AvailableStatus_Message :: "string \<Rightarrow> string" where
  "AvailableStatus_Message s =
    (if s = StarknetRPCAvailableStatusPending
       then ''The RPC is waiting for the initial state to be ready''
     else if s = StarknetRPCAvailableStatusCreating then ''RPC Pod is being scheduled''
     else if s = StarknetRPCAvailableStatusCatchingUp
       then ''The node is catching up with the latest block''
     else if s = StarknetRPCAvailableStatusReady then ''The node is ready and is fully synced''
     else if s = StarknetRPCAvailableStatusFailed
       then ''The node failed to start, or another error occurred''
     else if s = StarknetRPCAvailableStatusUnknown
       then ''Impossible to determine the status of the node''
     else ''Unknown('' @ s @ '')'')"

definition AvailableStatus_Status :: "string \<Rightarrow> ConditionStatus" where
  "AvailableStatus_Status s =
    (if s = StarknetRPCAvailableStatusPending then ConditionUnknown
     else if s = StarknetRPCAvailableStatusCreating then ConditionUnknown
     else if s = StarknetRPCAvailableStatusCatchingUp then ConditionUnknown
     else if s = StarknetRPCAvailableStatusReady then ConditionTrue
     else if s = StarknetRPCAvailableStatusFailed then ConditionFalse
     else if s = StarknetRPCAvailableStatusUnknown then ConditionUnknown
     else ConditionUnknown)"

definition AvailableStatus_AsCondition :: "string \<Rightarrow> Condition" where
  "AvailableStatus_AsCondition s =
     \<lparr>c_type = StarknetRPCAvailableCondition, c_status = AvailableStatus_Status s, c_reason = s,
      c_message = AvailableStatus_Message s, c_last_transition = None\<rparr>"

definition AvailableStatus_Apply :: "'w client \<Rightarrow> string \<Rightarrow> 'w StateTransition" where
  "AvailableStatus_Apply k s = set_condition k (AvailableStatus_AsCondition s)"

section \<open>Initialization, conditions.go\<close>

definition Initialize :: "'w client \<Rightarrow> ('w, GoError option) act" where
  "Initialize k =
     seq read_cluster (\<lambda>rpc.
       if length (conditions rpc) = 0 then
         SetPhases k [RestoreStatus_Apply k StarknetRPCRestoreStatusPending,
                      AvailableStatus_Apply k StarknetRPCAvailableStatusPending]
       else returns None)"

section \<open>What a transition does to the conditions\<close>

lemma set_condition_sel [simp]:
  "conditions (set_condition k c w r) = set_status_condition k w (conditions r) c"
  "rpc_meta (set_condition k c w r) = rpc_meta r"
  "rpc_spec (set_condition k c w r) = rpc_spec r"
  "same_resource r (set_condition k c w r)"
  by (simp_all add: set_condition_def)

text \<open>The node as \<open>SetPhases\<close> sends it.\<close>

definition with_phases :: "'w StateTransition list \<Rightarrow> 'w \<Rightarrow> StarknetRPC \<Rightarrow> StarknetRPC" where
  "with_phases ts w r = fold (\<lambda>t. t w) ts
     (if ss_conditions (rpc_status r) = None then set_conditions [] r else r)"

lemma conditions_made [simp]:
  "conditions (if ss_conditions (rpc_status r) = None then set_conditions [] r else r) = conditions r"
  by (simp add: conditions_def)

lemma with_phases_single [simp]:
  "conditions (with_phases [set_condition k c] w r) = set_status_condition k w (conditions r) c"
  by (simp add: with_phases_def)

lemma wp_apply_transitions [wp]:
  "wp (apply_transitions ts) Q s = Q (Ret ()) (s\<lparr>the_rpc := fold (\<lambda>t. t (world s)) ts (the_rpc s)\<rparr>)"
  by (induction ts arbitrary: s) (simp_all add: wp)

lemma wp_SetPhases [wp]:
  "wp (SetPhases k ts) Q s =
    (let node = with_phases ts (world s) (the_rpc s) in
     case api_status_update k node (world s) of
       (Inl e, w) \<Rightarrow> Q (Ret (Some (Api e)))
          (log_call (StatusUpdateReq node) (Failed e) (s\<lparr>the_rpc := node, world := w\<rparr>))
     | (Inr r, w) \<Rightarrow> Q (Ret None)
          ((log_call (StatusUpdateReq node) (Got (ObjRpc r)) (s\<lparr>the_rpc := node, world := w\<rparr>))\<lparr>the_rpc := r\<rparr>))"
  by (simp add: SetPhases_def wp Let_def with_phases_def split: prod.splits sum.splits)

lemma SetPhases_talk:
  "talk (SetPhases k ts) s (\<lambda>r l s'. (r = Ret None \<or> (\<exists>e. r = Ret (Some (Api e)))) \<and>
     (\<forall>c \<in> set l. (\<exists>x. call_req c = StatusUpdateReq x) \<and> call_cluster c = with_phases ts (world s) (the_rpc s)) \<and>
     (lawful_status_update k \<longrightarrow>
        conditions (the_rpc s') = conditions (with_phases ts (world s) (the_rpc s))))"
  by (auto simp: talk_def wp Let_def dest: lawful_status_updateD(2) split: prod.split sum.split)

definition status_only :: "'w StateTransition \<Rightarrow> bool" where
  "status_only t = (\<forall>w r. same_resource r (t w r))"

lemma status_only_set_condition [simp]: "status_only (set_condition k c)"
  by (simp add: status_only_def)

lemma status_only_phase [simp]:
  "status_only (RestoreStatus_Apply k p)" "status_only (AvailableStatus_Apply k p)"
  by (simp_all add: RestoreStatus_Apply_def AvailableStatus_Apply_def)

text \<open>The transitions of the initialization, of the storage stage and of the pod stage.\<close>

definition init_marks :: "'w client \<Rightarrow> 'w StateTransition set" where
  "init_marks k = {RestoreStatus_Apply k StarknetRPCRestoreStatusPending,
     AvailableStatus_Apply k StarknetRPCAvailableStatusPending}"

definition pvc_marks :: "'w client \<Rightarrow> 'w StateTransition set" where
  "pvc_marks k = {RestoreStatus_Apply k StarknetRPCRestoreStatusPending}"

definition pod_marks :: "'w client \<Rightarrow> 'w StateTransition set" where
  "pod_marks k = {AvailableStatus_Apply k StarknetRPCAvailableStatusCreating,
     AvailableStatus_Apply k StarknetRPCAvailableStatusCatchingUp}"

lemma marks_simps [simp]:
  "RestoreStatus_Apply k StarknetRPCRestoreStatusPending \<in> pvc_marks k"
  "AvailableStatus_Apply k StarknetRPCAvailableStatusCreating \<in> pod_marks k"
  "AvailableStatus_Apply k StarknetRPCAvailableStatusCatchingUp \<in> pod_marks k"
  "RestoreStatus_Apply k StarknetRPCRestoreStatusPending \<in> init_marks k"
  "AvailableStatus_Apply k StarknetRPCAvailableStatusPending \<in> init_marks k"
  by (simp_all add: init_marks_def pvc_marks_def pod_marks_def)

lemma marks_status_only [simp]:
  "\<forall>t \<in> pvc_marks k. status_only t" "\<forall>t \<in> pod_marks k. status_only t" "\<forall>t \<in> init_marks k. status_only t"
  by (simp_all add: init_marks_def pvc_marks_def pod_marks_def)

lemma same_resource_fold:
  "\<forall>t \<in> set ts. status_only t \<Longrightarrow> same_resource r (fold (\<lambda>t. t w) ts r)"
  by (induction ts arbitrary: r) (auto simp: status_only_def intro: same_resource_trans)

lemma same_resource_with_phases:
  "\<forall>t \<in> set ts. status_only t \<Longrightarrow> same_resource r (with_phases ts w r)"
  unfolding with_phases_def
  by (rule same_resource_trans [OF _ same_resource_fold]) auto

text \<open>
  A property of the resource that survives the given transitions, the creation of the list
  of conditions, and the answer of a status update.
\<close>

definition keeps ::
  "'w client \<Rightarrow> 'w StateTransition set \<Rightarrow> (StarknetRPC \<Rightarrow> bool) \<Rightarrow> bool" where
  "keeps k T I \<longleftrightarrow> (\<forall>c. I c \<longrightarrow> ss_conditions (rpc_status c) = None \<longrightarrow> I (set_conditions [] c)) \<and>
     (\<forall>t \<in> T. \<forall>w c. I c \<longrightarrow> I (t w c)) \<and>
     (\<forall>c w c' w'. I c \<longrightarrow> api_status_update k c w = (Inr c', w') \<longrightarrow> I c')"

lemma keeps_anyone [simp]: "keeps k T anyone"
  by (simp add: keeps_def)

lemma keeps_same_resource:
  "lawful_status_update k \<Longrightarrow> \<forall>t \<in> T. status_only t \<Longrightarrow> keeps k T (same_resource r)"
  by (auto simp: keeps_def status_only_def dest: lawful_status_updateD(1) intro: same_resource_trans)

lemma keeps_subset: "keeps k T I \<Longrightarrow> T' \<subseteq> T \<Longrightarrow> keeps k T' I"
  by (auto simp: keeps_def)

lemma keeps_conj: "keeps k T I \<Longrightarrow> keeps k T J \<Longrightarrow> keeps k T (\<lambda>c. I c \<and> J c)"
  unfolding keeps_def by blast

lemma keeps_with_phases:
  assumes "keeps k T I" "set ts \<subseteq> T" "I c"
  shows "I (with_phases ts w c)"
proof -
  have "I (fold (\<lambda>t. t w) ts c)" if "I c" for c
    using assms(1,2) that by (induction ts arbitrary: c) (auto simp: keeps_def)
  with assms(1,3) show ?thesis by (simp add: with_phases_def keeps_def)
qed

lemma keeps_update: "keeps k T I \<Longrightarrow> I c \<Longrightarrow> api_status_update k c w = (Inr c', w') \<Longrightarrow> I c'"
  unfolding keeps_def by blast

lemma contract_SetPhases [contract_rules]:
  assumes "keeps k T I" and ts: "set ts \<subseteq> T"
    and P: "\<And>c r. I c \<Longrightarrow> P \<lparr>call_cluster = c, call_req = StatusUpdateReq c, call_reply = r\<rparr>"
    and R: "\<And>err. err \<noteq> Some ErrNextLoop \<Longrightarrow> R err"
  shows "contract pn I P (SetPhases k ts) R"
  unfolding contract_wp
proof (intro allI impI)
  fix s :: "'a run_state" assume "I (the_rpc s)"
  then have I: "I (with_phases ts (world s) (the_rpc s))"
    by (rule keeps_with_phases [OF assms(1,2)])
  then show "wp (SetPhases k ts) (\<lambda>r s'. (\<exists>l. trace s' = trace s @ l \<and> (\<forall>c \<in> set l. P c)) \<and>
      I (the_rpc s') \<and> (case r of Ret x \<Rightarrow> R x | Panicked _ \<Rightarrow> pn)) s"
    using keeps_update [OF assms(1) I]
    by (simp add: wp Let_def R P split: prod.split sum.split)
qed

section \<open>The contract of a phase\<close>

text \<open>
  Both condition types declare the same methods; what a reader of the conditions may rely
  on after \<open>Apply\<close> follows from the three facts that \<open>AsCondition\<close> promises.
\<close>

definition condition_reads :: "Condition list \<Rightarrow> string \<Rightarrow> ConditionStatus \<Rightarrow> string \<Rightarrow> bool" where
  "condition_reads cs t st reason =
    (case condition_of cs t of None \<Rightarrow> False
     | Some c \<Rightarrow> c_status c = st \<and> c_reason c = reason)"

locale phase =
  fixes ctype :: string
    and status :: "string \<Rightarrow> ConditionStatus"
    and as_condition :: "string \<Rightarrow> Condition"
  assumes as_type: "c_type (as_condition p) = ctype"
    and as_status: "c_status (as_condition p) = status p"
    and as_reason: "c_reason (as_condition p) = p"
begin

lemma applied_reads:
  assumes "lawful_conditions k"
  shows "condition_reads (set_status_condition k w cs (as_condition p)) ctype (status p) p"
proof -
  obtain c where "condition_of (set_status_condition k w cs (as_condition p)) ctype = Some c"
      "says (as_condition p) c"
    using lawful_conditions_set(1) [OF assms, of w cs "as_condition p"] as_type by auto
  then show ?thesis
    by (simp add: condition_reads_def says_def as_status as_reason)
qed

lemma applied_other:
  assumes "lawful_conditions k" "t \<noteq> ctype"
  shows "condition_of (set_status_condition k w cs (as_condition p)) t = condition_of cs t"
  using assms by (simp add: lawful_conditions_set(2) as_type)

lemma applied_true:
  assumes "lawful_conditions k"
  shows "is_status_condition_true k (set_status_condition k w cs (as_condition p)) ctype =
    (status p = ConditionTrue)"
  using assms by (simp add: lawful_conditions_true as_type as_status)

end

interpretation restore: phase StarknetRPCRestoreCondition RestoreStatus_Status RestoreStatus_AsCondition
  by unfold_locales (simp_all add: RestoreStatus_AsCondition_def)

interpretation available: phase StarknetRPCAvailableCondition AvailableStatus_Status AvailableStatus_AsCondition
  by unfold_locales (simp_all add: AvailableStatus_AsCondition_def)

lemmas restore_phase_defs = StarknetRPCRestoreStatusPending_def StarknetRPCRestoreStatusRestoring_def
  StarknetRPCRestoreStatusSuccess_def StarknetRPCRestoreStatusFailed_def
  StarknetRPCRestoreStatusSkipped_def

lemmas available_phase_defs = StarknetRPCAvailableStatusPending_def
  StarknetRPCAvailableStatusCreating_def StarknetRPCAvailableStatusCatchingUp_def
  StarknetRPCAvailableStatusReady_def StarknetRPCAvailableStatusFailed_def
  StarknetRPCAvailableStatusUnknown_def

lemmas condition_type_defs = StarknetRPCRestoreCondition_def StarknetRPCAvailableCondition_def

section \<open>Properties\<close>

text \<open>C31. Initialization of a resource without conditions makes one call, a status update
  that sets Restore to False/Pending and Available to Unknown/Pending and changes nothing
  else of the resource; it reports success exactly when the server accepted it.\<close>

theorem Initialize_fresh:
  assumes "lawful_conditions k" and "conditions (the_rpc s) = []"
  shows "\<exists>r reply. calls (Initialize k) s =
           [\<lparr>call_cluster = r, call_req = StatusUpdateReq r, call_reply = reply\<rparr>] \<and>
         same_resource (the_rpc s) r \<and>
         condition_reads (conditions r) ''Restore'' ConditionFalse ''Pending'' \<and>
         condition_reads (conditions r) ''Available'' ConditionUnknown ''Pending'' \<and>
         (fst (Initialize k s) = Ret None \<longleftrightarrow> (\<exists>r'. reply = Got (ObjRpc r')))"
proof -
  let ?ts = "[RestoreStatus_Apply k StarknetRPCRestoreStatusPending,
              AvailableStatus_Apply k StarknetRPCAvailableStatusPending]"
  let ?r = "with_phases ?ts (world s) (the_rpc s)"
  have run: "Initialize k s = SetPhases k ?ts s"
    using assms(2) by (simp add: Initialize_def seq_def read_cluster_def)
  have res: "condition_reads (conditions ?r) ''Restore'' ConditionFalse ''Pending''"
    using restore.applied_reads [OF assms(1), where p = StarknetRPCRestoreStatusPending]
      available.applied_other [OF assms(1), where t = "''Restore''"]
    by (simp add: with_phases_def condition_reads_def RestoreStatus_Apply_def
        AvailableStatus_Apply_def condition_type_defs RestoreStatus_Status_def restore_phase_defs)
  have av: "condition_reads (conditions ?r) ''Available'' ConditionUnknown ''Pending''"
    using available.applied_reads [OF assms(1), where p = StarknetRPCAvailableStatusPending]
    by (simp add: with_phases_def AvailableStatus_Apply_def condition_type_defs
        AvailableStatus_Status_def available_phase_defs)
  have same: "same_resource (the_rpc s) ?r"
    by (rule same_resource_with_phases) simp
  have "wp (Initialize k) (\<lambda>o' s'. \<exists>reply. trace s' = trace s @
          [\<lparr>call_cluster = ?r, call_req = StatusUpdateReq ?r, call_reply = reply\<rparr>] \<and>
          (o' = Ret None \<longleftrightarrow> (\<exists>r'. reply = Got (ObjRpc r')))) s"
    using wp_SetPhases [of k ?ts _ s] run
    by (simp add: wp_def Let_def split: prod.splits sum.splits)
  then obtain reply where "calls (Initialize k) s =
        [\<lparr>call_cluster = ?r, call_req = StatusUpdateReq ?r, call_reply = reply\<rparr>]"
      "fst (Initialize k s) = Ret None \<longleftrightarrow> (\<exists>r'. reply = Got (ObjRpc r'))"
    by (auto simp: wp_def calls_def split: prod.splits)
  with res av same show ?thesis by blast
qed

theorem Initialize_fresh_witness:
  "lawful_conditions mem_client \<and> conditions (the_rpc (run_from empty_mem sample_rpc)) = [] \<and>
   (\<exists>r reply. calls (Initialize mem_client) (run_from empty_mem sample_rpc) =
      [\<lparr>call_cluster = r, call_req = StatusUpdateReq r, call_reply = reply\<rparr>] \<and>
      condition_reads (conditions r) ''Restore'' ConditionFalse ''Pending'')"
  using Initialize_fresh [of mem_client "run_from empty_mem sample_rpc"] by auto

text \<open>Applying a phase sets its own condition and leaves the other one alone: Restore reads
  true exactly for the phases Success and Skipped, Available exactly for Ready, for every
  status string, declared or not.\<close>

theorem phases_true:
  assumes "lawful_conditions k"
  shows "(is_status_condition_true k (conditions (RestoreStatus_Apply k p w r)) ''Restore'' \<longleftrightarrow>
      p = ''Success'' \<or> p = ''Skipped'') \<and>
    (is_status_condition_true k (conditions (AvailableStatus_Apply k p w r)) ''Available'' \<longleftrightarrow> p = ''Ready'') \<and>
    condition_of (conditions (RestoreStatus_Apply k p w r)) ''Available'' = condition_of (conditions r) ''Available'' \<and>
    condition_of (conditions (AvailableStatus_Apply k p w r)) ''Restore'' = condition_of (conditions r) ''Restore'' \<and>
    same_resource r (RestoreStatus_Apply k p w r) \<and> same_resource r (AvailableStatus_Apply k p w r)"
  using restore.applied_true [OF assms, of w "conditions r" p] available.applied_true [OF assms, of w "conditions r" p]
    restore.applied_other [OF assms, of "''Available''" w "conditions r" p]
    available.applied_other [OF assms, of "''Restore''" w "conditions r" p]
  by (simp add: RestoreStatus_Apply_def AvailableStatus_Apply_def condition_type_defs
      RestoreStatus_Status_def AvailableStatus_Status_def restore_phase_defs available_phase_defs)

theorem phases_true_witness:
  "is_status_condition_true mem_client
     (conditions (RestoreStatus_Apply mem_client ''Success'' empty_mem sample_rpc)) ''Restore''"
  using phases_true [OF lawful_conditions_mem, of "''Success''" empty_mem sample_rpc] by simp

text \<open>What any number of transitions leaves in the conditions: of each type the last one set.\<close>

lemma set_conditions_reads:
  fixes cs :: "Condition list"
  assumes "lawful_conditions k"
  defines "own t \<equiv> filter (\<lambda>c. c_type c = t) cs"
  shows "if own t = []
    then condition_of (conditions (with_phases (map (set_condition k) cs) w r)) t = condition_of (conditions r) t
    else condition_reads (conditions (with_phases (map (set_condition k) cs) w r)) t
      (c_status (last (own t))) (c_reason (last (own t)))"
  unfolding own_def
proof (induction cs rule: rev_induct)
  case Nil
  then show ?case by (simp add: with_phases_def)
next
  case (snoc c cs)
  let ?old = "conditions (with_phases (map (set_condition k) cs) w r)"
  have new: "conditions (with_phases (map (set_condition k) (cs @ [c])) w r) = set_status_condition k w ?old c"
    by (simp add: with_phases_def)
  show ?case
  proof (cases "c_type c = t")
    case True
    then obtain c' where "condition_of (set_status_condition k w ?old c) t = Some c'" "says c c'"
      using lawful_conditions_set(1) [OF assms(1), of w ?old c] by auto
    with True show ?thesis by (simp add: new [simplified] condition_reads_def says_def)
  next
    case False
    then have "condition_of (set_status_condition k w ?old c) t = condition_of ?old t"
      using lawful_conditions_set(2) [OF assms(1)] by simp
    with False snoc show ?thesis by (simp add: new [simplified] condition_reads_def split: if_splits)
  qed
qed

text \<open>C32. A status update that the server refuses is the only call and is reported, but all the
  transitions stay in the copy that the rest of the reconciliation works with, which is the one
  that was sent: of each type, the last condition set is there, and the other types are as
  before. Nothing but the conditions has changed.\<close>

theorem SetPhases_failed:
  assumes "lawful_conditions k"
    and "\<And>r. api_status_update k r (world s) = (Inl e, w')"
    and "ts = map (set_condition k) cs"
  shows "\<exists>node. the_rpc (snd (SetPhases k ts s)) = node \<and> same_resource (the_rpc s) node \<and>
    fst (SetPhases k ts s) = Ret (Some (Api e)) \<and>
    calls (SetPhases k ts) s = [\<lparr>call_cluster = node, call_req = StatusUpdateReq node, call_reply = Failed e\<rparr>] \<and>
    (\<forall>t. let own = filter (\<lambda>c. c_type c = t) cs in
       if own = [] then condition_of (conditions node) t = condition_of (conditions (the_rpc s)) t
       else condition_reads (conditions node) t (c_status (last own)) (c_reason (last own)))"
proof -
  let ?node = "with_phases ts (world s) (the_rpc s)"
  have "wp (SetPhases k ts) (\<lambda>r s'. r = Ret (Some (Api e)) \<and> the_rpc s' = ?node \<and>
      trace s' = trace s @ [\<lparr>call_cluster = ?node, call_req = StatusUpdateReq ?node, call_reply = Failed e\<rparr>]) s"
    using assms(2) by (simp add: wp Let_def)
  then have run: "fst (SetPhases k ts s) = Ret (Some (Api e))" "the_rpc (snd (SetPhases k ts s)) = ?node"
    "calls (SetPhases k ts) s = [\<lparr>call_cluster = ?node, call_req = StatusUpdateReq ?node, call_reply = Failed e\<rparr>]"
    by (auto simp: wp_def calls_def split: prod.splits)
  have "same_resource (the_rpc s) ?node"
    by (rule same_resource_with_phases) (simp add: assms(3))
  with run show ?thesis
    using set_conditions_reads [OF assms(1), of _ cs "world s" "the_rpc s"] by (simp add: assms(3) Let_def)
qed

theorem SetPhases_failed_witness:
  "condition_reads (conditions (the_rpc (snd (SetPhases mem_client
      [RestoreStatus_Apply mem_client ''Success'', AvailableStatus_Apply mem_client ''Creating'']
      (run_from (empty_mem\<lparr>m_status_fails := True\<rparr>) sample_rpc))))) ''Available'' ConditionUnknown ''Creating''"
proof -
  let ?cs = "[RestoreStatus_AsCondition ''Success'', AvailableStatus_AsCondition ''Creating'']"
  have ts: "[RestoreStatus_Apply mem_client ''Success'', AvailableStatus_Apply mem_client ''Creating''] =
      map (set_condition mem_client) ?cs"
    by (simp add: RestoreStatus_Apply_def AvailableStatus_Apply_def)
  have "filter (\<lambda>c. c_type c = ''Available'') ?cs = [AvailableStatus_AsCondition ''Creating'']"
    "c_status (AvailableStatus_AsCondition ''Creating'') = ConditionUnknown"
    "c_reason (AvailableStatus_AsCondition ''Creating'') = ''Creating''"
    by (simp_all add: RestoreStatus_AsCondition_def AvailableStatus_AsCondition_def condition_type_defs
        AvailableStatus_Status_def available_phase_defs)
  then show ?thesis
    using SetPhases_failed [OF lawful_conditions_mem,
        of "run_from (empty_mem\<lparr>m_status_fails := True\<rparr>) sample_rpc" Conflict _ _ ?cs, OF _ ts]
    by (auto simp: mem_status_update_def Let_def dest!: spec [where x = "''Available''"])
qed

end
