(* ===== verification/Stage.thy ===== *)
theory Stage
  imports Names Conditions
begin

text \<open>
  The interface between \<open>Reconcile\<close> and its four stages (storage, archive restore, pod,
  PodMonitor): what \<open>Reconcile\<close> does with the result of a stage, and the contract every
  stage keeps. The lemmas that compose stages are proved here, once for all of them.
\<close>

section \<open>After a stage\<close>

text \<open>
  The test that follows each stage in internal/controller/starknetrpc_controller.go:
  \<open>ErrNextLoop\<close> ends the reconciliation with the result of the stage, whose pointer is
  dereferenced; what happens on another error depends on the stage.
\<close>

definition after_step ::
  "step_result \<Rightarrow> (GoError \<Rightarrow> ('w, Result \<times> GoError option) act) \<Rightarrow>
   ('w, Result \<times> GoError option) act \<Rightarrow> ('w, Result \<times> GoError option) act" where
  "after_step step on_error continue = (case step of (result, err) \<Rightarrow>
     case err of
       None \<Rightarrow> continue
     | Some e \<Rightarrow>
         if e = ErrNextLoop then seq (pure (deref result)) (\<lambda>r. returns (r, None))
         else on_error e)"

section \<open>What the pods and monitors on the server look like\<close>

text \<open>
  Validation by the API server: a pod has a container. That its first container declares a
  port, and that the first endpoint of a PodMonitor names its port, hold for what the
  operator creates and is not forced by any schema.
\<close>

definition safe_pod :: "Pod \<Rightarrow> bool" where
  "safe_pod p = (case ps_containers (pod_spec p) of [] \<Rightarrow> False | c # _ \<Rightarrow> ct_ports c \<noteq> [])"

definition safe_monitor :: "PodMonitor \<Rightarrow> bool" where
  "safe_monitor m = (case pms_endpoints (pm_spec m) of [] \<Rightarrow> True | e # _ \<Rightarrow> ep_port e \<noteq> None)"

definition answers_safely :: "('a \<Rightarrow> bool) \<Rightarrow> ('w, 'a) kind_api \<Rightarrow> bool" where
  "answers_safely safe api \<longleftrightarrow>
     (\<forall>n w x w'. api_get api n w = (Inr x, w') \<longrightarrow> safe x) \<and>
     (\<forall>y w x w'. api_create api y w = (Inr x, w') \<longrightarrow> safe x) \<and>
     (\<forall>y w x w'. api_update api y w = (Inr x, w') \<longrightarrow> safe x)"

definition safe_server :: "'w client \<Rightarrow> bool" where
  "safe_server k \<longleftrightarrow> answers_safely safe_pod (api_pods k) \<and>
     answers_safely safe_monitor (api_pod_monitors k)"

lemma answers_safelyD:
  "answers_safely safe api \<Longrightarrow> api_get api n w = (Inr x, w') \<Longrightarrow> safe x"
  "answers_safely safe api \<Longrightarrow> api_create api y w = (Inr x, w') \<Longrightarrow> safe x"
  "answers_safely safe api \<Longrightarrow> api_update api y w = (Inr x, w') \<Longrightarrow> safe x"
  unfolding answers_safely_def by blast+

section \<open>The contract of a stage\<close>

text \<open>A result that makes controller-runtime call the reconciler again.\<close>

definition asks_again :: "Result \<Rightarrow> bool" where
  "asks_again r \<longleftrightarrow> res_requeue r \<or> 0 < res_requeue_after r"

lemma asks_again_simps [simp]:
  "asks_again (after Second)" "asks_again (after (30 * Second))"
  "asks_again \<lparr>res_requeue = True, res_requeue_after = d\<rparr>"
  by (simp_all add: asks_again_def after_def Second_def)

definition step_ok :: "step_result \<Rightarrow> bool" where
  "step_ok step \<longleftrightarrow> (snd step = Some ErrNextLoop \<longrightarrow> (\<exists>r. fst step = Some r \<and> asks_again r))"

lemma step_ok_simps [simp]:
  "step_ok (res, None)" "asks_again r \<Longrightarrow> step_ok (Some r, err)" "step_ok (res, Some (Api e))"
  by (simp_all add: step_ok_def)

text \<open>The kinds of objects a request is about; an event is about none.\<close>

fun request_kinds :: "Request \<Rightarrow> Kind set" where
  "request_kinds (GetReq knd _) = {knd}"
| "request_kinds (CreateReq x) = {object_kind x}"
| "request_kinds (UpdateReq x) = {object_kind x}"
| "request_kinds (DeleteReq knd _ _) = {knd}"
| "request_kinds (StatusUpdateReq _) = {KindRpc}"
| "request_kinds (ProxyGetReq _ _ _ _ _) = {KindPod}"
| "request_kinds (EventReq _ _ _) = {}"

text \<open>
  \<open>P\<close> allows, for copies of the resource that satisfy \<open>I\<close>, every status update that
  sends the shared copy and every request about the given kinds that stays with the objects
  of the resource, as long as the server answers about the keys it was asked about.
\<close>

definition allows :: "'w client \<Rightarrow> Kind set \<Rightarrow> (StarknetRPC \<Rightarrow> bool) \<Rightarrow> (Call \<Rightarrow> bool) \<Rightarrow> bool" where
  "allows k Ks I P \<longleftrightarrow>
     (\<forall>c r. I c \<longrightarrow> P \<lparr>call_cluster = c, call_req = StatusUpdateReq c, call_reply = r\<rparr>) \<and>
     (\<forall>c c' q r. I c \<longrightarrow> I c' \<longrightarrow> request_kinds q \<subseteq> Ks \<longrightarrow> (lawful_keys k \<longrightarrow> request_confined c' q) \<longrightarrow>
        P \<lparr>call_cluster = c, call_req = q, call_reply = r\<rparr>)"

lemma allows_status:
  "allows k Ks I P \<Longrightarrow> I c \<Longrightarrow> P \<lparr>call_cluster = c, call_req = StatusUpdateReq c, call_reply = r\<rparr>"
  by (simp add: allows_def)

lemma allows_request:
  "allows k Ks I P \<Longrightarrow> I c \<Longrightarrow> I c' \<Longrightarrow> request_kinds q \<subseteq> Ks \<Longrightarrow>
   (lawful_keys k \<Longrightarrow> request_confined c' q) \<Longrightarrow>
   P \<lparr>call_cluster = c, call_req = q, call_reply = r\<rparr>"
  unfolding allows_def by blast

lemma allows_anything [simp]: "allows k Ks I anything"
  by (simp add: allows_def)

lemma allows_subset: "allows k Ks I P \<Longrightarrow> Ks' \<subseteq> Ks \<Longrightarrow> allows k Ks' I P"
  unfolding allows_def by blast

lemma allows_confined: "lawful_keys k \<Longrightarrow> allows k Ks (same_resource r) (confined r)"
  by (auto simp: allows_def confined_def intro: request_confined_same_resource)

text \<open>Behind a test of the shared copy, the rest may rely on a stronger property of it.\<close>

lemma contract_guard:
  assumes m: "contract pn J P m R" and n: "contract pn I P n R"
    and J: "\<And>c. I c \<Longrightarrow> test c \<Longrightarrow> J c" "\<And>c. J c \<Longrightarrow> I c"
  shows "contract pn I P (seq read_cluster (\<lambda>c. if test c then m else n)) R"
proof -
  have "sends P (seq read_cluster (\<lambda>c. if test c then m else n)) s \<and>
      I (the_rpc (snd (seq read_cluster (\<lambda>c. if test c then m else n) s))) \<and>
      (case fst (seq read_cluster (\<lambda>c. if test c then m else n) s) of Ret x \<Rightarrow> R x | Panicked _ \<Rightarrow> pn)"
    if "I (the_rpc s)" for s
    using spec [OF m [unfolded contract_def], of s] spec [OF n [unfolded contract_def], of s] J
    by (cases "test (the_rpc s)") (simp_all add: that seq_def read_cluster_def sends_def)
  then show ?thesis by (simp add: contract_def)
qed

text \<open>
  A stage keeps whatever its transitions keep, sends only what it is allowed to, gives a
  result that asks for another call whenever it asks for the next loop, and panics only if the
  server holds a pod or a monitor that is not safe. \<open>Ks\<close> are the kinds of objects the
  stage is about, \<open>T\<close> the transitions it applies.
\<close>

locale stage =
  fixes k :: "'w client" and run :: "('w, step_result) act"
    and Ks :: "Kind set" and T :: "'w StateTransition set"
  assumes run_contract:
      "keeps k T I \<Longrightarrow> allows k Ks I P \<Longrightarrow> contract (\<not> safe_server k) I P run step_ok"
    and transitions: "\<forall>t \<in> T. status_only t"
begin

lemma run_confined:
  assumes "lawful_keys k" "lawful_status_update k"
  shows "contract (\<not> safe_server k) (same_resource r) (confined r) run step_ok"
  by (rule run_contract [OF keeps_same_resource [OF assms(2) transitions] allows_confined [OF assms(1)]])

lemma run_result: "contract (\<not> safe_server k) anyone anything run step_ok"
  by (rule run_contract) simp_all

text \<open>Only status updates are about other kinds than those of the stage.\<close>

lemma run_kinds:
  "contract (\<not> safe_server k) anyone
     (\<lambda>c. call_req c = StatusUpdateReq (call_cluster c) \<or> request_kinds (call_req c) \<subseteq> Ks) run step_ok"
  by (rule run_contract) (simp_all add: allows_def)

text \<open>A stage and the test that follows it, in the middle of a reconciliation.\<close>

lemma step:
  assumes "keeps k T I" "allows k Ks I P"
    and "contract (\<not> safe_server k) I P continue R"
    and "\<And>e. e \<noteq> ErrNextLoop \<Longrightarrow> contract (\<not> safe_server k) I P (on_error e) R"
    and "\<And>r. R (r, None)"
  shows "contract (\<not> safe_server k) I P (seq run (\<lambda>res. after_step res on_error continue)) R"
proof (rule contract_seq [OF run_contract [OF assms(1,2)]])
  fix step assume "step_ok step"
  then have "snd step = Some ErrNextLoop \<Longrightarrow> \<exists>r. fst step = Some r"
    by (auto simp: step_ok_def)
  then show "contract (\<not> safe_server k) I P (after_step step on_error continue) R"
    using assms(3-5)
    by (cases step) (auto simp: after_step_def split: option.split
        intro!: contract_seq [OF contract_pure [where R = "\<lambda>_. True"]] contract_returns)
qed

end

end
