(* ===== verification/Pvc.thy ===== *)
theory Pvc
  imports Stage
begin

text \<open>
  internal/controller/starknetrpc_pvc.go: the claim that holds the node's database. It is
  created once; its creation puts the Restore condition back to Pending. Its readiness is
  checked before the archive is restored into it.
\<close>

definition isReady :: "PersistentVolumeClaim \<Rightarrow> bool" where
  "isReady pvc = (pvc_phase pvc = ClaimBound)"

definition GetWantedPvc :: "StarknetRPC \<Rightarrow> PersistentVolumeClaim" where
  "GetWantedPvc cluster =
    (let nameInfo = GetStoragePvcName cluster in
     \<lparr>pvc_meta =
       \<lparr>om_name = nn_name nameInfo, om_namespace = nn_namespace nameInfo, om_uid = '''',
        om_labels = Some [], om_annotations = Some [],
        om_owners = [owner_ref (tm_api_version (rpc_type cluster)) (tm_kind (rpc_type cluster)) cluster]\<rparr>,
      pvc_access_modes = [ReadWriteOnce],
      pvc_storage_class = Some (st_class (sp_storage (rpc_spec cluster))),
      pvc_requests = [(ResourceStorage, st_size (sp_storage (rpc_spec cluster)))],
      pvc_phase = ''''\<rparr>)"

definition ReconcilePvc :: "'w client \<Rightarrow> ('w, step_result) act" where
  "ReconcilePvc k =
     seq read_cluster (\<lambda>cluster.
     let pvc = GetWantedPvc cluster in
     seq (Create (pvcs k) pvc) (\<lambda>created.
       case created of
         Inr _ \<Rightarrow>
           seq (SetPhases k [RestoreStatus_Apply k StarknetRPCRestoreStatusPending]) (\<lambda>err.
             case err of
               Some e \<Rightarrow> returns (None, Some e)
             | None \<Rightarrow> returns (Some empty_result, None))
       | Inl err \<Rightarrow>
           if err \<noteq> AlreadyExists then returns (None, Some (Api err))
           else returns (Some empty_result, None)))"

definition EnsurePvcReady :: "'w client \<Rightarrow> ('w, step_result) act" where
  "EnsurePvcReady k =
     seq read_cluster (\<lambda>cluster.
     seq (Get (pvcs k) (GetStoragePvcName cluster)) (\<lambda>got.
       case got of
         Inl err \<Rightarrow> returns (None, Some (Api err))
       | Inr pvc \<Rightarrow>
           if \<not> isReady pvc then returns (Some (after Second), Some ErrNextLoop)
           else returns (Some empty_result, None)))"

section \<open>The claim that is created\<close>

interpretation storage: owned_object GetWantedPvc pvc_meta "''-storage''"
  "\<lambda>r. tm_api_version (rpc_type r)" "\<lambda>r. tm_kind (rpc_type r)"
  by unfold_locales (simp_all add: GetWantedPvc_def GetStoragePvcName_def)

lemma GetWantedPvc_key [simp]: "meta_key (pvc_meta (GetWantedPvc r)) = GetStoragePvcName r"
  by (simp add: storage.wanted_key GetStoragePvcName_def)

section \<open>The stage\<close>

lemma contract_EnsurePvcReady:
  assumes "allows k Ks I P" "KindPvc \<in> Ks"
  shows "contract pn I P (EnsurePvcReady k) step_ok"
  unfolding EnsurePvcReady_def
  apply (rule contract_reading)
  subgoal premises I
    by (intro contract_seq [where R = "\<lambda>_. True"] contract_rules allows_request [OF assms(1) _ I];
        simp add: assms)
  done

lemma contract_ReconcilePvc:
  assumes "keeps k (pvc_marks k) I" "allows k {KindPvc} I P"
  shows "contract pn I P (ReconcilePvc k) step_ok"
  unfolding ReconcilePvc_def Let_def
  apply (rule contract_reading)
  subgoal premises I
    by (intro contract_seq [OF contract_Create [where R = "\<lambda>_. True"]] contract_cases contract_returns
          contract_seq [OF contract_SetPhases [OF assms(1), where R = "\<lambda>err. err \<noteq> Some ErrNextLoop"]]
          allows_status [OF assms(2)] allows_request [OF assms(2) _ I];
        simp add: step_ok_def)
  done

interpretation pvc_stage: stage k "ReconcilePvc k" "{KindPvc}" "pvc_marks k" for k
  by unfold_locales (auto intro: contract_ReconcilePvc)

section \<open>Properties\<close>

text \<open>C30. The storage stage always tries to create the claim. If it exists already, nothing else
  happens and the shared copy is untouched; another refusal is returned. Only a claim that
  was created puts the Restore condition back to False/Pending, in one status update whose
  error is returned: the snapshot is then restored into the new volume.\<close>

theorem ReconcilePvc_calls:
  assumes "lawful_conditions k"
  shows "(\<exists>e. e \<noteq> AlreadyExists \<and> fst (ReconcilePvc k s) = Ret (None, Some (Api e)) \<and>
        calls (ReconcilePvc k) s = [answered s (CreateReq (ObjPvc (GetWantedPvc (the_rpc s)))) (Failed e)]) \<or>
     (fst (ReconcilePvc k s) = Ret (Some empty_result, None) \<and> the_rpc (snd (ReconcilePvc k s)) = the_rpc s \<and>
        calls (ReconcilePvc k) s =
          [answered s (CreateReq (ObjPvc (GetWantedPvc (the_rpc s)))) (Failed AlreadyExists)]) \<or>
     (\<exists>y node reply. calls (ReconcilePvc k) s =
          [answered s (CreateReq (ObjPvc (GetWantedPvc (the_rpc s)))) (Got (ObjPvc y)),
           \<lparr>call_cluster = node, call_req = StatusUpdateReq node, call_reply = reply\<rparr>] \<and>
        same_resource (the_rpc s) node \<and>
        condition_reads (conditions node) ''Restore'' ConditionFalse ''Pending'' \<and>
        fst (ReconcilePvc k s) = Ret (case reply of Failed e \<Rightarrow> (None, Some (Api e)) | _ \<Rightarrow> (Some empty_result, None)))"
proof -
  let ?t = "RestoreStatus_Apply k StarknetRPCRestoreStatusPending"
  have reads: "condition_reads (conditions (with_phases [?t] w c)) ''Restore'' ConditionFalse ''Pending''" for w c
    using restore.applied_reads [OF assms, of w "conditions c" StarknetRPCRestoreStatusPending]
    by (simp add: RestoreStatus_Apply_def condition_type_defs RestoreStatus_Status_def restore_phase_defs)
  have same: "same_resource c (with_phases [?t] w c)" for w c
    by (rule same_resource_with_phases) simp
  have "talk (ReconcilePvc k) s (\<lambda>r l s'.
     (\<exists>e. e \<noteq> AlreadyExists \<and> r = Ret (None, Some (Api e)) \<and>
        l = [answered s (CreateReq (ObjPvc (GetWantedPvc (the_rpc s)))) (Failed e)]) \<or>
     (r = Ret (Some empty_result, None) \<and> the_rpc s' = the_rpc s \<and>
        l = [answered s (CreateReq (ObjPvc (GetWantedPvc (the_rpc s)))) (Failed AlreadyExists)]) \<or>
     (\<exists>y node reply. l = [answered s (CreateReq (ObjPvc (GetWantedPvc (the_rpc s)))) (Got (ObjPvc y)),
           \<lparr>call_cluster = node, call_req = StatusUpdateReq node, call_reply = reply\<rparr>] \<and>
        same_resource (the_rpc s) node \<and>
        condition_reads (conditions node) ''Restore'' ConditionFalse ''Pending'' \<and>
        r = Ret (case reply of Failed e \<Rightarrow> (None, Some (Api e)) | _ \<Rightarrow> (Some empty_result, None))))"
    by (auto simp: talk_def ReconcilePvc_def wp Let_def answered_def reads same split: prod.split sum.split)
  from talk_calls [OF this] show ?thesis .
qed

text \<open>The check of the claim reads it once and passes only if it is bound; a claim that is
  not bound asks for the next loop after a second.\<close>

theorem EnsurePvcReady_result:
  "\<exists>reply. calls (EnsurePvcReady k) s = [answered s (GetReq KindPvc (GetStoragePvcName (the_rpc s))) reply] \<and>
    ((\<exists>e. reply = Failed e \<and> fst (EnsurePvcReady k s) = Ret (None, Some (Api e))) \<or>
     (\<exists>pvc. reply = Got (ObjPvc pvc) \<and> fst (EnsurePvcReady k s) = Ret
        (if pvc_phase pvc = ''Bound'' then (Some empty_result, None)
         else (Some (after Second), Some ErrNextLoop))))"
proof -
  have "talk (EnsurePvcReady k) s (\<lambda>r l s'. \<exists>reply.
     l = [answered s (GetReq KindPvc (GetStoragePvcName (the_rpc s))) reply] \<and>
    ((\<exists>e. reply = Failed e \<and> r = Ret (None, Some (Api e))) \<or>
     (\<exists>pvc. reply = Got (ObjPvc pvc) \<and> r = Ret
        (if pvc_phase pvc = ''Bound'' then (Some empty_result, None)
         else (Some (after Second), Some ErrNextLoop)))))"
    by (auto simp: talk_def EnsurePvcReady_def wp answered_def isReady_def ClaimBound_def
        split: prod.split sum.split)
  from talk_calls [OF this] show ?thesis .
qed

text \<open>The claim asks for the size and the class of the resource, and always names a class:
  leaving the class out of the resource asks for the class called by the empty string.\<close>

theorem GetWantedPvc_spec:
  "pvc_requests (GetWantedPvc r) = [(''storage'', st_size (sp_storage (rpc_spec r)))] \<and>
   pvc_access_modes (GetWantedPvc r) = [''ReadWriteOnce''] \<and>
   pvc_storage_class (GetWantedPvc r) = Some (st_class (sp_storage (rpc_spec r))) \<and>
   pvc_storage_class (GetWantedPvc r) \<noteq> None"
  by (simp add: GetWantedPvc_def Let_def ResourceStorage_def ReadWriteOnce_def)

theorem ReconcilePvc_calls_witness:
  "lawful_conditions mem_client \<and>
   (\<exists>y (node :: StarknetRPC) reply. calls (ReconcilePvc mem_client) (run_from empty_mem sample_rpc) =
      [answered (run_from empty_mem sample_rpc) (CreateReq (ObjPvc (GetWantedPvc sample_rpc))) (Got (ObjPvc y)),
       \<lparr>call_cluster = node, call_req = StatusUpdateReq node, call_reply = reply\<rparr>] \<and>
      condition_reads (conditions node) ''Restore'' ConditionFalse ''Pending'')"
proof -
  have "length (calls (ReconcilePvc mem_client) (run_from empty_mem sample_rpc)) = 2"
    by code_simp
  then show ?thesis
    using ReconcilePvc_calls [OF lawful_conditions_mem, of "run_from empty_mem sample_rpc"] by auto
qed

end
