(* ===== verification/Archive_Restore.thy ===== *)
theory Archive_Restore
  imports Pvc
begin

text \<open>
  internal/controller/starknetrpc_archive_restore.go: filling the database from a snapshot
  before the node starts. A scratch claim and a job are created once both claims are bound;
  the outcome of the job becomes the Restore condition, and once that is true the job and
  the scratch claim are removed.
\<close>

section \<open>The transitions of the Restore condition\<close>

definition markArchiveAsFinished :: "'w client \<Rightarrow> 'w StateTransition" where
  "markArchiveAsFinished k = set_condition k
     \<lparr>c_type = ''Restore'', c_status = ConditionTrue, c_reason = ''ArchiveJobFinished'',
      c_message = ''The archive restore job has successfully run'', c_last_transition = None\<rparr>"

definition markRestoreAsFailed :: "'w client \<Rightarrow> 'w StateTransition" where
  "markRestoreAsFailed k = set_condition k
     \<lparr>c_type = ''Restore'', c_status = ConditionFalse, c_reason = ''ArchiveJobFailed'',
      c_message = ''The archive restore job has failed'', c_last_transition = None\<rparr>"

definition markRestoreAsSkipped :: "'w client \<Rightarrow> 'w StateTransition" where
  "markRestoreAsSkipped k = set_condition k
     \<lparr>c_type = ''Restore'', c_status = ConditionTrue, c_reason = ''ArchiveRestoreSkipped'',
      c_message = ''The configuration was configured to skip the archive restore process'',
      c_last_transition = None\<rparr>"

definition markRestoreAsProgressing :: "'w client \<Rightarrow> 'w StateTransition" where
  "markRestoreAsProgressing k = set_condition k
     \<lparr>c_type = ''Restore'', c_status = ConditionFalse, c_reason = ''ArchiveJobProgressing'',
      c_message = ''The archive restore job is currently running'', c_last_transition = None\<rparr>"

definition restore_marks :: "'w client \<Rightarrow> 'w StateTransition set" where
  "restore_marks k = {markArchiveAsFinished k, markRestoreAsFailed k, markRestoreAsSkipped k,
     markRestoreAsProgressing k}"

lemmas mark_defs = markArchiveAsFinished_def markRestoreAsFailed_def markRestoreAsSkipped_def
  markRestoreAsProgressing_def

section \<open>The job and its scratch claim\<close>

definition getImage :: "ArchiveSnapshot \<Rightarrow> string" where
  "getImage snapshot = (case as_restore_image snapshot of
     None \<Rightarrow> ''ghcr.io/runelabsxyz/pathfinder-snapshotter:latest'' | Some img \<Rightarrow> img)"

definition getEnvVars :: "StarknetRPC \<Rightarrow> EnvVar list" where
  "getEnvVars cluster =
    (let envVars =
      [EnvValue ''PATHFINDER_NETWORK'' (sp_network (rpc_spec cluster)),
       EnvValue ''PATHFINDER_FILE_NAME'' (as_file_name (sp_restore_archive (rpc_spec cluster))),
       EnvValue ''PATHFINDER_CHECKSUM'' (as_checksum (sp_restore_archive (rpc_spec cluster)))] in
     case as_rsync_config (sp_restore_archive (rpc_spec cluster)) of
       Some config \<Rightarrow> envVars @ [EnvValue ''PATHFINDER_DOWNLOAD_URL'' config]
     | None \<Rightarrow> envVars)"

definition GetWantedRestoreJob :: "StarknetRPC \<Rightarrow> Job" where
  "GetWantedRestoreJob cluster =
    (let nameInfo = GetRestoreJobName cluster in
     \<lparr>job_meta =
       \<lparr>om_name = nn_name nameInfo, om_namespace = nn_namespace nameInfo, om_uid = '''',
        om_labels = Some [], om_annotations = Some [], om_owners = []\<rparr>,
      job_template =
       \<lparr>ps_restart_policy = RestartPolicyNever,
        ps_containers =
         [\<lparr>ct_name = ''archive-downloader'',
           ct_image = getImage (sp_restore_archive (rpc_spec cluster)),
           ct_pull_policy = '''',
           ct_env = getEnvVars cluster,
           ct_resources = no_resources,
           ct_ports = [],
           ct_mounts =
            [\<lparr>vm_name = ''snapshot-scratch'', vm_path = ''/scratch''\<rparr>,
             \<lparr>vm_name = ''data'', vm_path = ''/data''\<rparr>]\<rparr>],
        ps_volumes =
         [\<lparr>vol_name = ''data'', vol_claim = nn_name (GetStoragePvcName cluster)\<rparr>,
          \<lparr>vol_name = ''snapshot-scratch'', vol_claim = nn_name (GetRestorePvcName cluster)\<rparr>],
        ps_tolerations = [],
        ps_security = None\<rparr>,
      job_succeeded = 0, job_failed = 0\<rparr>)"

definition GetWantedRestorePvc :: "StarknetRPC \<Rightarrow> PersistentVolumeClaim" where
  "GetWantedRestorePvc cluster =
    (let nameInfo = GetRestorePvcName cluster in
     \<lparr>pvc_meta =
       \<lparr>om_name = nn_name nameInfo, om_namespace = nn_namespace nameInfo, om_uid = '''',
        om_labels = Some [], om_annotations = Some [],
        om_owners = [owner_ref (tm_api_version (rpc_type cluster)) (tm_kind (rpc_type cluster)) cluster]\<rparr>,
      pvc_access_modes = [ReadWriteOnce],
      pvc_storage_class = Some (st_class (sp_storage (rpc_spec cluster))),
      pvc_requests = [(ResourceStorage, st_size (sp_storage (rpc_spec cluster)))],
      pvc_phase = ''''\<rparr>)"

section \<open>ReconcileArchiveRestore\<close>

text \<open>\<open>client.IgnoreNotFound(err) != nil\<close>.\<close>

definition still_failed :: "ApiError option \<Rightarrow> bool" where
  "still_failed err = (err \<noteq> None \<and> err \<noteq> Some NotFound)"

text \<open>Lines 28 to 51: the restore is done, what it needed is removed.\<close>

definition restore_cleanup :: "'w client \<Rightarrow> StarknetRPC \<Rightarrow> ('w, step_result) act" where
  "restore_cleanup k cluster =
    (let restoreJob = GetWantedRestoreJob cluster in
     seq (Delete (jobs k) restoreJob (Some DeletePropagationBackground)) (\<lambda>err.
       if still_failed err then returns (None, map_option Api err)
       else
         let restorePvc = GetWantedRestorePvc cluster in
         seq (Delete (pvcs k) restorePvc None) (\<lambda>err.
           if still_failed err then returns (None, map_option Api err)
           else returns (Some empty_result, None))))"

text \<open>The pattern of every change of the condition: set it, then return this.\<close>

definition mark_then :: "'w client \<Rightarrow> 'w StateTransition \<Rightarrow> step_result \<Rightarrow> ('w, step_result) act" where
  "mark_then k t res =
     seq (SetPhases k [t]) (\<lambda>err. case err of Some e \<Rightarrow> returns (None, Some e) | None \<Rightarrow> returns res)"

text \<open>Lines 112 to 141: the job exists, its status decides.\<close>

definition restore_job_status :: "'w client \<Rightarrow> Job \<Rightarrow> ('w, step_result) act" where
  "restore_job_status k restoreJob =
     seq (Get (jobs k) (meta_key (job_meta restoreJob))) (\<lambda>got.
       case got of
         Inl err \<Rightarrow> returns (None, Some (Api err))
       | Inr restoreJob \<Rightarrow>
           if 0 < sint (job_succeeded restoreJob) then
             mark_then k (markArchiveAsFinished k) (Some (after Second), Some ErrNextLoop)
           else if 0 < sint (job_failed restoreJob) then
             mark_then k (markRestoreAsFailed k) (None, Some ErrTerminateLoop)
           else returns (Some (after (30 * Second)), Some ErrNextLoop))"

text \<open>Lines 96 to 110: both claims are bound, the job is created.\<close>

definition restore_create_job :: "'w client \<Rightarrow> StarknetRPC \<Rightarrow> ('w, step_result) act" where
  "restore_create_job k cluster =
    (let restoreJob = GetWantedRestoreJob cluster in
     seq (Create (jobs k) restoreJob) (\<lambda>created.
       case created of
         Inr _ \<Rightarrow> mark_then k (markRestoreAsProgressing k) (Some (after Second), Some ErrNextLoop)
       | Inl err \<Rightarrow>
           if err \<noteq> AlreadyExists then returns (None, Some (Api err))
           else restore_job_status k restoreJob))"

text \<open>Lines 69 to 94: the scratch claim is read back, and the claim of the database.\<close>

definition restore_check_claims ::
  "'w client \<Rightarrow> StarknetRPC \<Rightarrow> PersistentVolumeClaim \<Rightarrow> ('w, step_result) act" where
  "restore_check_claims k cluster restorePvc =
     seq (Get (pvcs k) (meta_key (pvc_meta restorePvc))) (\<lambda>got.
       case got of
         Inl err \<Rightarrow>
           if err = NotFound then returns (Some (after Second), Some ErrNextLoop)
           else returns (None, Some (Api err))
       | Inr restorePvc \<Rightarrow>
           if \<not> isReady restorePvc then returns (Some (after Second), Some ErrNextLoop)
           else
             seq (EnsurePvcReady k) (\<lambda>(result, err).
               case err of
                 Some e \<Rightarrow> if e = ErrNextLoop then returns (result, err) else returns (None, err)
               | None \<Rightarrow> restore_create_job k cluster))"

definition ReconcileArchiveRestore :: "'w client \<Rightarrow> ('w, step_result) act" where
  "ReconcileArchiveRestore k =
     seq read_cluster (\<lambda>cluster.
     if is_status_condition_true k (conditions cluster) ''Restore'' then restore_cleanup k cluster
     else if as_enable (sp_restore_archive (rpc_spec cluster)) = Some False then
       mark_then k (markRestoreAsSkipped k) (Some empty_result, None)
     else
       let restorePvc = GetWantedRestorePvc cluster in
       seq (Create (pvcs k) restorePvc) (\<lambda>created.
         case created of
           Inl err \<Rightarrow>
             if err \<noteq> AlreadyExists then returns (None, Some (Api err))
             else restore_check_claims k cluster restorePvc
         | Inr restorePvc \<Rightarrow> restore_check_claims k cluster restorePvc))"

section \<open>What is created\<close>

interpretation restore_claim: owned_object GetWantedRestorePvc pvc_meta "''-archive-restore''"
  "\<lambda>r. tm_api_version (rpc_type r)" "\<lambda>r. tm_kind (rpc_type r)"
  by unfold_locales (simp_all add: GetWantedRestorePvc_def GetRestorePvcName_def)

interpretation restore_job: wanted_object GetWantedRestoreJob job_meta "''-archive-restore-job''"
  by unfold_locales (simp_all add: GetWantedRestoreJob_def GetRestoreJobName_def)

lemma GetWantedRestorePvc_key [simp]:
  "meta_key (pvc_meta (GetWantedRestorePvc r)) = GetRestorePvcName r"
  by (simp add: restore_claim.wanted_key GetRestorePvcName_def)

lemma GetWantedRestoreJob_key [simp]:
  "meta_key (job_meta (GetWantedRestoreJob r)) = GetRestoreJobName r"
  by (simp add: restore_job.wanted_key GetRestoreJobName_def)

section \<open>The stage\<close>

lemma restore_marks_status_only: "\<forall>t \<in> restore_marks k. status_only t"
  by (simp add: restore_marks_def mark_defs)

lemma contract_mark_then:
  assumes "keeps k (restore_marks k) I" "allows k Ks I P" "t \<in> restore_marks k"
    and "step_ok res"
  shows "contract pn I P (mark_then k t res) step_ok"
  unfolding mark_then_def
  by (intro contract_seq [OF contract_SetPhases [OF assms(1), where R = "\<lambda>err. err \<noteq> Some ErrNextLoop"]]
      contract_cases contract_returns allows_status [OF assms(2)];
      (rule assms(4) | simp add: assms(3) step_ok_def))

lemma contract_restore_cleanup:
  assumes "allows k {KindPvc, KindJob} I P" "I x"
  shows "contract pn I P (restore_cleanup k x) step_ok"
  unfolding restore_cleanup_def
  by (intro contract_seq [OF contract_Delete [where R = "\<lambda>_. True"]] contract_cases contract_returns
      allows_request [OF assms(1) _ assms(2)]; auto simp: step_ok_def)

lemma contract_restore_create_job:
  assumes "keeps k (restore_marks k) I" "allows k {KindPvc, KindJob} I P" "I x"
  shows "contract pn I P (restore_create_job k x) step_ok"
  unfolding restore_create_job_def restore_job_status_def
  by (intro contract_seq [OF contract_Create [where R = "\<lambda>_. True"]]
      contract_seq [OF contract_Get [where R = "\<lambda>_. True"]] contract_cases contract_returns
      contract_mark_then [OF assms(1,2)] allows_request [OF assms(2) _ assms(3)];
      simp add: step_ok_def restore_marks_def)

lemma contract_restore_check_claims:
  assumes "keeps k (restore_marks k) I" "allows k {KindPvc, KindJob} I P" "I x"
    and "lawful_keys k \<Longrightarrow> meta_key (pvc_meta y) = GetRestorePvcName x"
  shows "contract pn I P (restore_check_claims k x y) step_ok"
  unfolding restore_check_claims_def
  by (intro contract_seq [OF contract_Get [where R = "\<lambda>_. True"]]
      contract_seq [OF contract_EnsurePvcReady [OF assms(2)]] contract_cases contract_returns
      contract_restore_create_job [OF assms(1,2,3)] allows_request [OF assms(2) _ assms(3)];
      simp add: step_ok_def assms(4))

lemma contract_ReconcileArchiveRestore:
  assumes "keeps k (restore_marks k) I" "allows k {KindPvc, KindJob} I P"
  shows "contract pn I P (ReconcileArchiveRestore k) step_ok"
  unfolding ReconcileArchiveRestore_def
  apply (rule contract_reading)
  subgoal premises I for x
    by (intro contract_seq [OF contract_Create [where R = "\<lambda>r. \<forall>y. r = Inr y \<longrightarrow>
            lawful_keys k \<longrightarrow> meta_key (pvc_meta y) = GetRestorePvcName x"]]
          contract_cases contract_returns contract_restore_cleanup [OF assms(2) I]
          contract_mark_then [OF assms] contract_restore_check_claims [OF assms I]
          allows_request [OF assms(2) _ I];
        auto simp: step_ok_def restore_marks_def lawful_keys_def dest: lawful_apiD(2))
  done

interpretation restore_stage: stage k "ReconcileArchiveRestore k" "{KindPvc, KindJob}" "restore_marks k" for k
  by unfold_locales (auto intro: contract_ReconcileArchiveRestore restore_marks_status_only [rule_format])

section \<open>What is sent, and when\<close>

lemma wp_mark_then [wp]:
  "wp (mark_then k t res) Q s =
    (let node = with_phases [t] (world s) (the_rpc s) in
     (case api_status_update k node (world s) of
       (Inl e, w) \<Rightarrow> Q (Ret (None, Some (Api e)))
          (log_call (StatusUpdateReq node) (Failed e) (s\<lparr>the_rpc := node, world := w\<rparr>))
     | (Inr r, w) \<Rightarrow> Q (Ret res)
          ((log_call (StatusUpdateReq node) (Got (ObjRpc r)) (s\<lparr>the_rpc := node, world := w\<rparr>))\<lparr>the_rpc := r\<rparr>)))"
  by (simp add: mark_then_def wp Let_def split: prod.split sum.split)

text \<open>Requests that neither create nor remove an object.\<close>

fun harmless :: "Request \<Rightarrow> bool" where
  "harmless (GetReq _ _) = True"
| "harmless (StatusUpdateReq _) = True"
| "harmless _ = False"

lemma harmless_in:
  assumes "\<forall>c \<in> set l. harmless (call_req c)" "c \<in> set l"
  shows "call_req c \<noteq> CreateReq y" "call_req c \<noteq> UpdateReq y" "call_req c \<noteq> DeleteReq knd n pol"
  using assms by fastforce+

text \<open>What the job asks for: the claims were seen bound, in this order, before it is created.\<close>

lemma restore_create_job_calls:
  "talk (restore_create_job k x) s (\<lambda>r l s'. \<exists>reply rest. l = answered s (CreateReq (ObjJob (GetWantedRestoreJob x))) reply # rest \<and>
       (\<forall>c \<in> set rest. harmless (call_req c)))"
  by (auto simp: talk_def restore_create_job_def restore_job_status_def wp Let_def answered_def
      split: prod.split sum.split)

lemma restore_check_claims_calls:
  "talk (restore_check_claims k x y) s (\<lambda>r l s'. (\<forall>c \<in> set l. harmless (call_req c)) \<or>
      (\<exists>p1 p2 reply rest. l = answered s (GetReq KindPvc (meta_key (pvc_meta y))) (Got (ObjPvc p1)) #
         answered s (GetReq KindPvc (GetStoragePvcName (the_rpc s))) (Got (ObjPvc p2)) #
         answered s (CreateReq (ObjJob (GetWantedRestoreJob x))) reply # rest \<and>
         isReady p1 \<and> isReady p2 \<and> (\<forall>c \<in> set rest. harmless (call_req c))))"
  by (auto simp: talk_def restore_check_claims_def EnsurePvcReady_def wp Let_def answered_def
      split: prod.split sum.split option.split intro!: talk_wp [OF restore_create_job_calls])

text \<open>The job is created after both claims were seen bound, and at most once.\<close>

lemma ReconcileArchiveRestore_creates:
  "talk (ReconcileArchiveRestore k) s (\<lambda>r l s'. (\<forall>c \<in> set l. \<forall>j. call_req c \<noteq> CreateReq (ObjJob j)) \<or>
      (\<not> is_status_condition_true k (conditions (the_rpc s)) ''Restore'' \<and>
       as_enable (sp_restore_archive (rpc_spec (the_rpc s))) \<noteq> Some False \<and>
       (\<exists>made n p1 p2 reply rest.
         l = answered s (CreateReq (ObjPvc (GetWantedRestorePvc (the_rpc s)))) made #
           answered s (GetReq KindPvc n) (Got (ObjPvc p1)) #
           answered s (GetReq KindPvc (GetStoragePvcName (the_rpc s))) (Got (ObjPvc p2)) #
           answered s (CreateReq (ObjJob (GetWantedRestoreJob (the_rpc s)))) reply # rest \<and>
         (lawful_keys k \<longrightarrow> n = GetRestorePvcName (the_rpc s)) \<and>
         isReady p1 \<and> isReady p2 \<and> (\<forall>c \<in> set rest. harmless (call_req c)))))"
proof -
  have key: "lawful_keys k \<Longrightarrow> api_create (api_pvcs k) x w = (Inr y, w') \<Longrightarrow>
      meta_key (pvc_meta y) = meta_key (pvc_meta x)" for x w y w'
    by (auto simp: lawful_keys_def dest: lawful_apiD(2))
  show ?thesis
    unfolding ReconcileArchiveRestore_def restore_cleanup_def
    by (auto simp: talk_def wp Let_def answered_def key dest: harmless_in(1) split: prod.split sum.split option.split
        intro!: talk_wp [OF restore_check_claims_calls])
qed

text \<open>Deletions belong to the cleanup.\<close>

lemma ReconcileArchiveRestore_deletes:
  "talk (ReconcileArchiveRestore k) s (\<lambda>r l s'. \<forall>c \<in> set l. \<forall>knd n pol. call_req c = DeleteReq knd n pol \<longrightarrow>
        is_status_condition_true k (conditions (the_rpc s)) ''Restore'' \<and>
        (knd = KindJob \<and> n = GetRestoreJobName (the_rpc s) \<and> pol = Some ''Background'' \<or>
         knd = KindPvc \<and> n = GetRestorePvcName (the_rpc s) \<and> pol = None))"
  unfolding ReconcileArchiveRestore_def restore_cleanup_def
  by (auto simp: talk_def wp Let_def DeletePropagationBackground_def answered_def dest: harmless_in split: prod.split sum.split option.split
      intro!: talk_wp [OF restore_check_claims_calls])

text \<open>The condition becomes true only on evidence, and stays true.\<close>

lemma mark_true:
  assumes "lawful_conditions k"
  shows "is_status_condition_true k (conditions (with_phases [markArchiveAsFinished k] w c)) ''Restore''"
    "is_status_condition_true k (conditions (with_phases [markRestoreAsSkipped k] w c)) ''Restore''"
    "\<not> is_status_condition_true k (conditions (with_phases [markRestoreAsFailed k] w c)) ''Restore''"
    "\<not> is_status_condition_true k (conditions (with_phases [markRestoreAsProgressing k] w c)) ''Restore''"
  by (simp_all add: mark_defs lawful_conditions_true [OF assms])

definition job_success :: "StarknetRPC \<Rightarrow> Call \<Rightarrow> bool" where
  "job_success r c \<longleftrightarrow> call_req c = GetReq KindJob (GetRestoreJobName r) \<and>
     (\<exists>j. call_reply c = Got (ObjJob j) \<and> 0 < sint (job_succeeded j))"

lemma restore_create_job_true:
  assumes "lawful_conditions k" "lawful_status_update k"
  shows "talk (restore_create_job k x) s (\<lambda>r l s'. is_status_condition_true k (conditions (the_rpc s')) ''Restore'' \<longrightarrow>
      is_status_condition_true k (conditions (the_rpc s)) ''Restore'' \<or> (\<exists>c \<in> set l. job_success x c))"
  using mark_true [OF assms(1)] 
  by (auto simp: talk_def restore_create_job_def restore_job_status_def wp Let_def job_success_def
      lawful_status_updateD(2) [OF assms(2)] split: prod.split sum.split)

lemma restore_check_claims_true:
  assumes "lawful_conditions k" "lawful_status_update k"
  shows "talk (restore_check_claims k x y) s (\<lambda>r l s'. is_status_condition_true k (conditions (the_rpc s')) ''Restore'' \<longrightarrow>
      is_status_condition_true k (conditions (the_rpc s)) ''Restore'' \<or> (\<exists>c \<in> set l. job_success x c))"
  by (auto simp: talk_def restore_check_claims_def EnsurePvcReady_def wp Let_def
      split: prod.split sum.split option.split intro!: talk_wp [OF restore_create_job_true [OF assms]])

lemma ReconcileArchiveRestore_true:
  assumes "lawful_conditions k" "lawful_status_update k"
  shows "talk (ReconcileArchiveRestore k) s (\<lambda>r l s'.
     (is_status_condition_true k (conditions (the_rpc s)) ''Restore'' \<longrightarrow> the_rpc s' = the_rpc s) \<and>
     (is_status_condition_true k (conditions (the_rpc s')) ''Restore'' \<longrightarrow>
      is_status_condition_true k (conditions (the_rpc s)) ''Restore'' \<or>
      as_enable (sp_restore_archive (rpc_spec (the_rpc s))) = Some False \<or>
      (\<exists>c \<in> set l. job_success (the_rpc s) c)))"
  unfolding ReconcileArchiveRestore_def restore_cleanup_def
  by (auto simp: talk_def wp Let_def split: prod.split sum.split option.split
      intro!: talk_wp [OF restore_check_claims_true [OF assms]])

text \<open>
  \<open>justified k r ok l\<close>: no call of the list is made with a true Restore condition before a
  success of the job has been read, unless \<open>ok\<close> holds from the start.
\<close>

fun justified :: "'w client \<Rightarrow> StarknetRPC \<Rightarrow> bool \<Rightarrow> Call list \<Rightarrow> bool" where
  "justified k r ok [] = True"
| "justified k r ok (c # l) =
    ((is_status_condition_true k (conditions (call_cluster c)) ''Restore'' \<longrightarrow> ok) \<and>
     justified k r (ok \<or> job_success r c) l)"

lemma justified_ok [simp]: "justified k r True l"
  by (induction l) simp_all

lemma justified_append:
  "justified k r ok (l @ l') \<longleftrightarrow> justified k r ok l \<and> justified k r (ok \<or> (\<exists>c \<in> set l. job_success r c)) l'"
  by (induction l arbitrary: ok) (auto simp: disj_assoc)

lemma justified_mono: "justified k r ok l \<Longrightarrow> (ok \<Longrightarrow> ok') \<Longrightarrow> justified k r ok' l"
  by (cases ok; cases ok') auto

lemma justified_all:
  "(\<And>c. c \<in> set l \<Longrightarrow> \<not> is_status_condition_true k (conditions (call_cluster c)) ''Restore'') \<Longrightarrow> justified k r ok l"
  by (induction l arbitrary: ok) auto

lemma restore_create_job_justified:
  assumes "lawful_conditions k" "\<not> is_status_condition_true k (conditions (the_rpc s)) ''Restore''"
  shows "talk (restore_create_job k x) s (\<lambda>r l s'. justified k x ok l)"
  using mark_true [OF assms(1)] assms(2)
  by (auto simp: talk_def restore_create_job_def restore_job_status_def wp Let_def job_success_def
      split: prod.split sum.split)

lemma restore_check_claims_justified:
  assumes "lawful_conditions k" "\<not> is_status_condition_true k (conditions (the_rpc s)) ''Restore''"
  shows "talk (restore_check_claims k x y) s (\<lambda>r l s'. justified k x ok l)"
  using assms(2)
  by (auto simp: talk_def restore_check_claims_def EnsurePvcReady_def wp Let_def
      split: prod.split sum.split option.split intro!: talk_wp [OF restore_create_job_justified [OF assms(1)]])

lemma ReconcileArchiveRestore_justified:
  assumes "lawful_conditions k"
  shows "talk (ReconcileArchiveRestore k) s (\<lambda>r l s'. justified k (the_rpc s)
    (is_status_condition_true k (conditions (the_rpc s)) ''Restore'' \<or>
     as_enable (sp_restore_archive (rpc_spec (the_rpc s))) = Some False) l)"
  unfolding ReconcileArchiveRestore_def restore_cleanup_def
  by (auto simp: talk_def wp Let_def split: prod.split sum.split option.split
      intro!: talk_wp [OF restore_check_claims_justified [OF assms]])

lemma restore_cleanup_run:
  "talk (restore_cleanup k x) s (\<lambda>res l s'. (\<exists>e. e \<noteq> NotFound \<and> res = Ret (None, Some (Api e)) \<and> l = [answered s (DeleteReq KindJob (GetRestoreJobName x) (Some ''Background'')) (Failed e)]) \<or>
      (\<exists>gone e. gone \<in> {Done, Failed NotFound} \<and> e \<noteq> NotFound \<and> res = Ret (None, Some (Api e)) \<and>
         l = [answered s (DeleteReq KindJob (GetRestoreJobName x) (Some ''Background'')) gone,
              answered s (DeleteReq KindPvc (GetRestorePvcName x) None) (Failed e)]) \<or>
      (\<exists>gone gone'. gone \<in> {Done, Failed NotFound} \<and> gone' \<in> {Done, Failed NotFound} \<and>
         res = Ret (Some empty_result, None) \<and>
         l = [answered s (DeleteReq KindJob (GetRestoreJobName x) (Some ''Background'')) gone,
              answered s (DeleteReq KindPvc (GetRestorePvcName x) None) gone']))"
  by (auto simp: talk_def restore_cleanup_def wp Let_def answered_def still_failed_def DeletePropagationBackground_def
      reply_opt_def split: prod.split option.split)

lemma restore_job_outcome:
  assumes "api_create (api_jobs k) (GetWantedRestoreJob x) (world s) = (Inl AlreadyExists, w1)"
    and "api_get (api_jobs k) (GetRestoreJobName x) w1 = (Inr j, w2)"
    and "\<forall>r. \<exists>r' w'. api_status_update k r w2 = (Inr r', w')"
  shows "fst (restore_create_job k x s) = Ret
    (if 0 < sint (job_succeeded j) then (Some (after Second), Some ErrNextLoop)
     else if 0 < sint (job_failed j) then (None, Some ErrTerminateLoop)
     else (Some (after (30 * Second)), Some ErrNextLoop))"
proof -
  have accepted: "api_status_update k r w2 \<noteq> (Inl e, w')" for r e w'
    using assms(3) [rule_format, of r] by auto
  have "wp (restore_create_job k x) (\<lambda>r s'. r = Ret
    (if 0 < sint (job_succeeded j) then (Some (after Second), Some ErrNextLoop)
     else if 0 < sint (job_failed j) then (None, Some ErrTerminateLoop)
     else (Some (after (30 * Second)), Some ErrNextLoop))) s"
    using assms(1,2) by (auto simp: accepted restore_create_job_def restore_job_status_def wp Let_def
        split: prod.split sum.split)
  then show ?thesis by (simp add: wp_def split_beta)
qed

text \<open>Both claims are bound: what remains is the job.\<close>

lemma ReconcileArchiveRestore_bound:
  assumes "\<not> is_status_condition_true k (conditions (the_rpc s)) ''Restore''"
    and "as_enable (sp_restore_archive (rpc_spec (the_rpc s))) \<noteq> Some False"
    and "api_create (api_pvcs k) (GetWantedRestorePvc (the_rpc s)) (world s) = (Inl AlreadyExists, w1)"
    and "api_get (api_pvcs k) (GetRestorePvcName (the_rpc s)) w1 = (Inr p1, w2)" "isReady p1"
    and "api_get (api_pvcs k) (GetStoragePvcName (the_rpc s)) w2 = (Inr p2, w3)" "isReady p2"
  shows "\<exists>s3. ReconcileArchiveRestore k s = restore_create_job k (the_rpc s) s3 \<and>
    world s3 = w3 \<and> the_rpc s3 = the_rpc s"
proof -
  let ?s1 = "log_call (CreateReq (ObjPvc (GetWantedRestorePvc (the_rpc s)))) (Failed AlreadyExists)
    (s\<lparr>world := w1\<rparr>)"
  let ?s2 = "log_call (GetReq KindPvc (GetRestorePvcName (the_rpc s))) (Got (ObjPvc p1)) (?s1\<lparr>world := w2\<rparr>)"
  let ?s3 = "log_call (GetReq KindPvc (GetStoragePvcName (the_rpc s))) (Got (ObjPvc p2)) (?s2\<lparr>world := w3\<rparr>)"
  have "ReconcileArchiveRestore k s = restore_create_job k (the_rpc s) ?s3"
    using assms
    by (simp add: ReconcileArchiveRestore_def restore_check_claims_def EnsurePvcReady_def seq_def
        read_cluster_def Create_def Get_def returns_def Let_def)
  then show ?thesis by (intro exI [of _ ?s3]) simp
qed

section \<open>Properties\<close>

text \<open>C17. The restore job is created only while the Restore condition is not true and the
  restore is enabled, and only right after the scratch claim and the claim of the database
  were both read and found bound; nothing else is created afterwards. What is created is the
  wanted job.\<close>

theorem restore_job_guard:
  assumes "lawful_keys k"
    and "c \<in> set (calls (ReconcileArchiveRestore k) s)" and "call_req c = CreateReq (ObjJob j)"
  shows "j = GetWantedRestoreJob (the_rpc s) \<and>
    \<not> is_status_condition_true k (conditions (the_rpc s)) ''Restore'' \<and>
    as_enable (sp_restore_archive (rpc_spec (the_rpc s))) \<noteq> Some False \<and>
    (\<exists>made p1 p2 rest. calls (ReconcileArchiveRestore k) s =
       answered s (CreateReq (ObjPvc (GetWantedRestorePvc (the_rpc s)))) made #
       answered s (GetReq KindPvc (GetRestorePvcName (the_rpc s))) (Got (ObjPvc p1)) #
       answered s (GetReq KindPvc (GetStoragePvcName (the_rpc s))) (Got (ObjPvc p2)) # c # rest \<and>
       pvc_phase p1 = ''Bound'' \<and> pvc_phase p2 = ''Bound'' \<and>
       (\<forall>d \<in> set rest. \<forall>y. call_req d \<noteq> CreateReq y))"
  using talk_calls [OF ReconcileArchiveRestore_creates, of k s] assms
  by (auto simp: answered_def isReady_def ClaimBound_def dest: harmless_in(1))

text \<open>C18. The Restore condition becomes true in this stage only on evidence: it was true
  before, the configuration switches the restore off, or the job of this resource was read
  with at least one success. A condition that is true is left as it is, with the rest of the
  shared copy.\<close>

theorem restore_evidence:
  assumes "lawful_conditions k" and "lawful_status_update k"
    and "ReconcileArchiveRestore k s = (res, s')"
  shows "(is_status_condition_true k (conditions (the_rpc s)) ''Restore'' \<longrightarrow> the_rpc s' = the_rpc s) \<and>
    (is_status_condition_true k (conditions (the_rpc s')) ''Restore'' \<longrightarrow>
      is_status_condition_true k (conditions (the_rpc s)) ''Restore'' \<or>
      as_enable (sp_restore_archive (rpc_spec (the_rpc s))) = Some False \<or>
      (\<exists>c \<in> set (calls (ReconcileArchiveRestore k) s). \<exists>j.
         call_req c = GetReq KindJob (GetRestoreJobName (the_rpc s)) \<and>
         call_reply c = Got (ObjJob j) \<and> 0 < sint (job_succeeded j)))"
  using talk_calls [OF ReconcileArchiveRestore_true [OF assms(1,2)], of s] assms(3)
  by (auto simp: job_success_def)

text \<open>C20. The stage deletes nothing unless the Restore condition is true, and then only the
  restore job, in the background, and the scratch claim. The claim of the database is never
  deleted.\<close>

theorem restore_deletes:
  assumes "c \<in> set (calls (ReconcileArchiveRestore k) s)" and "call_req c = DeleteReq knd n pol"
  shows "is_status_condition_true k (conditions (the_rpc s)) ''Restore'' \<and>
    (knd = KindJob \<and> n = GetRestoreJobName (the_rpc s) \<and> pol = Some ''Background'' \<or>
     knd = KindPvc \<and> n = GetRestorePvcName (the_rpc s) \<and> pol = None) \<and>
    \<not> (knd = KindPvc \<and> n = GetStoragePvcName (the_rpc s))"
  using talk_calls [OF ReconcileArchiveRestore_deletes, of k s] assms
  by (auto simp: name_defs)

text \<open>C21. Once the Restore condition is true, the stage asks for the deletion of the job and
  then of the scratch claim, each counting as done when the object was already gone; the
  first error of another kind stops it and is returned.\<close>

theorem restore_cleanup_order:
  assumes "is_status_condition_true k (conditions (the_rpc s)) ''Restore''"
  shows "(\<exists>e. e \<noteq> NotFound \<and> fst (ReconcileArchiveRestore k s) = Ret (None, Some (Api e)) \<and>
        calls (ReconcileArchiveRestore k) s =
          [answered s (DeleteReq KindJob (GetRestoreJobName (the_rpc s)) (Some ''Background'')) (Failed e)]) \<or>
     (\<exists>gone e. gone \<in> {Done, Failed NotFound} \<and> e \<noteq> NotFound \<and>
        fst (ReconcileArchiveRestore k s) = Ret (None, Some (Api e)) \<and>
        calls (ReconcileArchiveRestore k) s =
          [answered s (DeleteReq KindJob (GetRestoreJobName (the_rpc s)) (Some ''Background'')) gone,
           answered s (DeleteReq KindPvc (GetRestorePvcName (the_rpc s)) None) (Failed e)]) \<or>
     (\<exists>gone gone'. gone \<in> {Done, Failed NotFound} \<and> gone' \<in> {Done, Failed NotFound} \<and>
        fst (ReconcileArchiveRestore k s) = Ret (Some empty_result, None) \<and>
        calls (ReconcileArchiveRestore k) s =
          [answered s (DeleteReq KindJob (GetRestoreJobName (the_rpc s)) (Some ''Background'')) gone,
           answered s (DeleteReq KindPvc (GetRestorePvcName (the_rpc s)) None) gone'])"
proof -
  have "ReconcileArchiveRestore k s = restore_cleanup k (the_rpc s) s"
    using assms by (simp add: ReconcileArchiveRestore_def seq_run)
  then have "calls (ReconcileArchiveRestore k) s = calls (restore_cleanup k (the_rpc s)) s"
    "fst (ReconcileArchiveRestore k s) = fst (restore_cleanup k (the_rpc s) s)"
    by (simp_all add: calls_def)
  then show ?thesis
    using talk_calls [OF restore_cleanup_run [of k "the_rpc s" s]] by simp
qed

text \<open>C19. When both claims are bound, the job exists and status updates are accepted, what
  the stage returns is decided by the job: a success asks for the next loop after a second, a
  failure without a success ends in ErrTerminateLoop, and a job that is still running asks for
  the next loop after thirty seconds. The counters are read as signed 32-bit integers.\<close>

theorem restore_outcome:
  assumes "\<not> is_status_condition_true k (conditions (the_rpc s)) ''Restore''"
    and "as_enable (sp_restore_archive (rpc_spec (the_rpc s))) \<noteq> Some False"
    and "api_create (api_pvcs k) (GetWantedRestorePvc (the_rpc s)) (world s) = (Inl AlreadyExists, w1)"
    and "api_get (api_pvcs k) (GetRestorePvcName (the_rpc s)) w1 = (Inr p1, w2)" and "isReady p1"
    and "api_get (api_pvcs k) (GetStoragePvcName (the_rpc s)) w2 = (Inr p2, w3)" and "isReady p2"
    and "api_create (api_jobs k) (GetWantedRestoreJob (the_rpc s)) w3 = (Inl AlreadyExists, w4)"
    and "api_get (api_jobs k) (GetRestoreJobName (the_rpc s)) w4 = (Inr j, w5)"
    and "\<forall>r. \<exists>r' w'. api_status_update k r w5 = (Inr r', w')"
  shows "fst (ReconcileArchiveRestore k s) = Ret
    (if 0 < sint (job_succeeded j) then (Some (after Second), Some ErrNextLoop)
     else if 0 < sint (job_failed j) then (None, Some ErrTerminateLoop)
     else (Some (after (30 * Second)), Some ErrNextLoop))"
proof -
  obtain s3 where "ReconcileArchiveRestore k s = restore_create_job k (the_rpc s) s3" "world s3 = w3"
    using ReconcileArchiveRestore_bound [OF assms(1-7)] by blast
  then show ?thesis
    using restore_job_outcome [of k "the_rpc s" s3 w4 j w5] assms(8-10) by simp
qed

text \<open>The scratch claim is requested with the size and the class of the node's storage,
  whatever the storage template of the snapshot says: that template is never read.\<close>

theorem restore_claim_ignores_template:
  "GetWantedRestorePvc (r\<lparr>rpc_spec := (rpc_spec r)\<lparr>sp_restore_archive :=
      (sp_restore_archive (rpc_spec r))\<lparr>as_storage := template\<rparr>\<rparr>\<rparr>) = GetWantedRestorePvc r \<and>
   pvc_requests (GetWantedRestorePvc r) = pvc_requests (GetWantedPvc r) \<and>
   pvc_storage_class (GetWantedRestorePvc r) = pvc_storage_class (GetWantedPvc r) \<and>
   pvc_meta (GetWantedRestorePvc r) \<noteq> pvc_meta (GetWantedPvc r)"
  by (simp add: GetWantedRestorePvc_def GetWantedPvc_def name_defs Let_def owner_ref_def)

text \<open>The environment of the job has the network, the file name and the checksum, each
  once; the rsync configuration is passed under the name of a download URL when there is
  one, and no variable is called RSYNC_CONFIG.\<close>

theorem restore_environment:
  "distinct (map ev_name (getEnvVars r)) \<and>
   map_of (map (\<lambda>e. (ev_name e, ev_value e)) (getEnvVars r)) =
     [''PATHFINDER_NETWORK'' \<mapsto> sp_network (rpc_spec r),
      ''PATHFINDER_FILE_NAME'' \<mapsto> as_file_name (sp_restore_archive (rpc_spec r)),
      ''PATHFINDER_CHECKSUM'' \<mapsto> as_checksum (sp_restore_archive (rpc_spec r))]
     (''PATHFINDER_DOWNLOAD_URL'' := as_rsync_config (sp_restore_archive (rpc_spec r))) \<and>
   ''RSYNC_CONFIG'' \<notin> ev_name ` set (getEnvVars r)"
  by (cases "as_rsync_config (sp_restore_archive (rpc_spec r))")
    (auto simp: getEnvVars_def Let_def fun_eq_iff)

section \<open>Witnesses\<close>

definition bound_claim :: "PersistentVolumeClaim \<Rightarrow> PersistentVolumeClaim" where
  "bound_claim p = p\<lparr>pvc_phase := ClaimBound\<rparr>"

text \<open>Both claims of the sample are bound; then the job has finished as well.\<close>

definition bound_mem :: mem where
  "bound_mem = empty_mem\<lparr>m_pvcs := (m_pvcs empty_mem)
     (GetStoragePvcName sample_rpc := Some (bound_claim (GetWantedPvc sample_rpc)),
      GetRestorePvcName sample_rpc := Some (bound_claim (GetWantedRestorePvc sample_rpc)))\<rparr>"

definition finished_mem :: mem where
  "finished_mem = bound_mem\<lparr>m_jobs := (m_jobs bound_mem)
     (GetRestoreJobName sample_rpc := Some ((GetWantedRestoreJob sample_rpc)\<lparr>job_succeeded := 1\<rparr>))\<rparr>"

definition restored_rpc :: StarknetRPC where
  "restored_rpc = set_conditions
     [\<lparr>c_type = ''Restore'', c_status = ConditionTrue, c_reason = ''ArchiveJobFinished'',
       c_message = '''', c_last_transition = None\<rparr>] sample_rpc"

lemma restored_rpc_true: "mem_condition_true (conditions restored_rpc) ''Restore''"
  by (simp add: restored_rpc_def mem_condition_true_def condition_of_def)

theorem restore_job_guard_witness:
  "\<exists>c made p1 p2 rest. call_req c = CreateReq (ObjJob (GetWantedRestoreJob sample_rpc)) \<and>
     calls (ReconcileArchiveRestore mem_client) (run_from bound_mem sample_rpc) =
       answered (run_from bound_mem sample_rpc) (CreateReq (ObjPvc (GetWantedRestorePvc sample_rpc))) made #
       answered (run_from bound_mem sample_rpc) (GetReq KindPvc (GetRestorePvcName sample_rpc)) (Got (ObjPvc p1)) #
       answered (run_from bound_mem sample_rpc) (GetReq KindPvc (GetStoragePvcName sample_rpc)) (Got (ObjPvc p2)) #
       c # rest \<and> pvc_phase p1 = ''Bound'' \<and> pvc_phase p2 = ''Bound''"
proof -
  let ?l = "calls (ReconcileArchiveRestore mem_client) (run_from bound_mem sample_rpc)"
  have "3 < length ?l \<and> call_req (?l ! 3) = CreateReq (ObjJob (GetWantedRestoreJob sample_rpc))"
    by code_simp
  then have "?l ! 3 \<in> set ?l" "call_req (?l ! 3) = CreateReq (ObjJob (GetWantedRestoreJob sample_rpc))"
    by simp_all
  from restore_job_guard [OF lawful_keys_mem this] this(2) show ?thesis
    unfolding run_from_sel by blast
qed

theorem restore_evidence_witness:
  "is_status_condition_true mem_client (conditions (the_rpc (snd
     (ReconcileArchiveRestore mem_client (run_from finished_mem sample_rpc))))) ''Restore'' \<and>
   (\<exists>c \<in> set (calls (ReconcileArchiveRestore mem_client) (run_from finished_mem sample_rpc)). \<exists>j.
      call_req c = GetReq KindJob (GetRestoreJobName sample_rpc) \<and> call_reply c = Got (ObjJob j) \<and>
      0 < sint (job_succeeded j))"
proof -
  have "is_status_condition_true mem_client (conditions (the_rpc (snd
      (ReconcileArchiveRestore mem_client (run_from finished_mem sample_rpc))))) ''Restore''"
    by code_simp
  moreover have "as_enable (sp_restore_archive (rpc_spec sample_rpc)) = Some True"
    by (simp add: sample_rpc_def)
  ultimately show ?thesis
    using restore_evidence [OF lawful_conditions_mem lawful_status_update_mem surjective_pairing,
        of "run_from finished_mem sample_rpc"]
    by (simp add: mem_condition_true_def condition_of_def)
qed

theorem restore_deletes_witness:
  "\<exists>c pol. c \<in> set (calls (ReconcileArchiveRestore mem_client) (run_from empty_mem restored_rpc)) \<and>
     call_req c = DeleteReq KindJob (GetRestoreJobName restored_rpc) pol \<and> pol = Some ''Background''"
proof -
  let ?l = "calls (ReconcileArchiveRestore mem_client) (run_from empty_mem restored_rpc)"
  have "0 < length ?l \<and>
      call_req (?l ! 0) = DeleteReq KindJob (GetRestoreJobName restored_rpc) (Some ''Background'')"
    by code_simp
  then have "?l ! 0 \<in> set ?l"
    "call_req (?l ! 0) = DeleteReq KindJob (GetRestoreJobName restored_rpc) (Some ''Background'')"
    by simp_all
  with restore_deletes [OF this] show ?thesis by blast
qed

theorem restore_cleanup_order_witness:
  "is_status_condition_true mem_client (conditions restored_rpc) ''Restore'' \<and>
   calls (ReconcileArchiveRestore mem_client) (run_from empty_mem restored_rpc) \<noteq> []"
  using restore_cleanup_order [of mem_client "run_from empty_mem restored_rpc"] restored_rpc_true by auto

theorem restore_outcome_witness:
  "fst (ReconcileArchiveRestore mem_client (run_from finished_mem sample_rpc)) =
     Ret (Some (after Second), Some ErrNextLoop)"
proof -
  have "as_enable (sp_restore_archive (rpc_spec sample_rpc)) \<noteq> Some False"
    by (simp add: sample_rpc_def)
  then show ?thesis
    using restore_outcome [of mem_client "run_from finished_mem sample_rpc" finished_mem
        "bound_claim (GetWantedRestorePvc sample_rpc)" finished_mem
        "bound_claim (GetWantedPvc sample_rpc)" finished_mem finished_mem
        "(GetWantedRestoreJob sample_rpc)\<lparr>job_succeeded := 1\<rparr>" finished_mem]
    by (simp add: finished_mem_def bound_mem_def bound_claim_def isReady_def mem_status_update_def
        mem_condition_true_def condition_of_def GetRestorePvcName_def GetStoragePvcName_def)
qed

end
