(* ===== verification/Reconciler.thy ===== *)
theory Reconciler
  imports Stage
begin

text \<open>
  internal/utils/reconciler/ensure.go: create an object or bring the stored one up to date.
  A reconciler is a test and an update; either may panic. The contract a reconciler has to
  keep for \<open>CreateOrReconcile\<close> to converge is the locale \<open>object_reconciler\<close>; the pod's
  image reconciler and the PodMonitor's reconciler are its instances.
\<close>

record 'a ObjectReconcilier =
  orc_name :: string
  orc_is_up_to_date :: "'a \<Rightarrow> bool outcome"
  orc_update :: "'a \<Rightarrow> (GoError option \<times> 'a) outcome"

text \<open>
  The loop over the reconcilers: the error of the first update that fails, the object after
  the updates, and whether any of them ran.
\<close>

fun run_reconcilers ::
  "'a ObjectReconcilier list \<Rightarrow> 'a \<Rightarrow> bool \<Rightarrow> (GoError option \<times> 'a \<times> bool) outcome" where
  "run_reconcilers [] object updated = Ret (None, object, updated)"
| "run_reconcilers (reconciler # rs) object updated =
     outcome_bind (orc_is_up_to_date reconciler object) (\<lambda>ok.
       if \<not> ok then
         outcome_bind (orc_update reconciler object) (\<lambda>(err, object').
           case err of Some e \<Rightarrow> Ret (Some e, object', updated)
           | None \<Rightarrow> run_reconcilers rs object' True)
       else run_reconcilers rs object updated)"

text \<open>
  The result is the flag, the error and the object behind the pointer after the call: the
  server's answer where a call succeeded. \<open>client.IgnoreAlreadyExists\<close> drops that one
  error and no other.
\<close>

definition CreateOrReconcile ::
  "('w, 'a) handle \<Rightarrow> 'a \<Rightarrow> 'a ObjectReconcilier list \<Rightarrow> ('w, bool \<times> GoError option \<times> 'a) act" where
  "CreateOrReconcile h object reconcilers =
     seq (Create h object) (\<lambda>created.
       case created of
         Inr object' \<Rightarrow> returns (True, None, object')
       | Inl err \<Rightarrow>
           if err \<noteq> AlreadyExists then returns (True, Some (Api err), object)
           else
             seq (Get h (h_key h object)) (\<lambda>got.
               case got of
                 Inl err \<Rightarrow> returns (False, Some (Api err), object)
               | Inr stored \<Rightarrow>
                   seq (pure (run_reconcilers reconcilers stored False)) (\<lambda>(err, object', updated).
                     case err of
                       Some e \<Rightarrow> returns (False, Some e, object')
                     | None \<Rightarrow>
                         if updated then
                           seq (Update h object') (\<lambda>upd.
                             case upd of
                               Inl err \<Rightarrow> returns (False, Some (Api err), object')
                             | Inr object'' \<Rightarrow> returns (False, None, object''))
                         else returns (False, None, object'))))"

lemma wp_CreateOrReconcile:
  "wp (CreateOrReconcile h x rs) Q s =
    (case api_create (h_api h) x (world s) of (r, w) \<Rightarrow>
      (let s1 = log_call (CreateReq (h_obj h x)) (reply_of (h_obj h) r) (s\<lparr>world := w\<rparr>) in
      (case r of
        Inr y \<Rightarrow> Q (Ret (True, None, y)) s1
      | Inl e \<Rightarrow> (if e \<noteq> AlreadyExists then Q (Ret (True, Some (Api e), x)) s1 else
          (case api_get (h_api h) (h_key h x) w of (r, w) \<Rightarrow>
          (let s2 = log_call (GetReq (h_kind h) (h_key h x)) (reply_of (h_obj h) r) (s1\<lparr>world := w\<rparr>) in
          (case r of
            Inl e \<Rightarrow> Q (Ret (False, Some (Api e), x)) s2
          | Inr stored \<Rightarrow>
              (case run_reconcilers rs stored False of
                Panicked p \<Rightarrow> Q (Panicked p) s2
              | Ret result \<Rightarrow> (case result of (err, y, updated) \<Rightarrow> (case err of
                  Some e \<Rightarrow> Q (Ret (False, Some e, y)) s2
                | None \<Rightarrow>
                    (if updated then
                      (case api_update (h_api h) y w of (r, w) \<Rightarrow>
                      (let s3 = log_call (UpdateReq (h_obj h y)) (reply_of (h_obj h) r) (s2\<lparr>world := w\<rparr>) in
                      (case r of
                        Inl e \<Rightarrow> Q (Ret (False, Some (Api e), y)) s3
                      | Inr z \<Rightarrow> Q (Ret (False, None, z)) s3)))
                    else Q (Ret (False, None, y)) s2)))))))))))"
  by (simp add: CreateOrReconcile_def wp Let_def cong: prod.case_cong sum.case_cong
      outcome.case_cong option.case_cong if_cong)

lemma CreateOrReconcile_shared [simp]: "the_rpc (snd (CreateOrReconcile h x rs s)) = the_rpc s"
proof -
  have "wp (CreateOrReconcile h x rs) (\<lambda>r s'. the_rpc s' = the_rpc s) s"
    by (simp add: wp_CreateOrReconcile Let_def split: prod.split sum.split outcome.split option.split)
  then show ?thesis by (simp add: wp_def split: prod.splits)
qed

text \<open>An object that the server has sent.\<close>

definition from_server :: "('w, 'a) kind_api \<Rightarrow> 'a \<Rightarrow> bool" where
  "from_server api y \<longleftrightarrow> (\<exists>n w w'. api_get api n w = (Inr y, w')) \<or>
     (\<exists>z w w'. api_create api z w = (Inr y, w')) \<or> (\<exists>z w w'. api_update api z w = (Inr y, w'))"

lemma from_serverI:
  "api_get api n w = (Inr y, w') \<Longrightarrow> from_server api y"
  "api_create api z w = (Inr y, w') \<Longrightarrow> from_server api y"
  "api_update api z w = (Inr y, w') \<Longrightarrow> from_server api y"
  unfolding from_server_def by blast+

lemma from_server_safe: "answers_safely safe api \<Longrightarrow> from_server api y \<Longrightarrow> safe y"
  unfolding from_server_def answers_safely_def by blast

lemma safe_server_from:
  "from_server (api_pods k) pod \<Longrightarrow> safe_server k \<Longrightarrow> safe_pod pod"
  "from_server (api_pod_monitors k) mon \<Longrightarrow> safe_server k \<Longrightarrow> safe_monitor mon"
  using from_server_safe [of safe_pod "api_pods k"] from_server_safe [of safe_monitor "api_pod_monitors k"]
  by (auto simp: safe_server_def)

lemma run_reconcilers_flag:
  "run_reconcilers rs x u = Ret (None, y, u') \<Longrightarrow> (u \<longrightarrow> u') \<and> (\<not> u' \<longrightarrow> y = x)"
proof (induction rs arbitrary: x u)
  case Nil
  then show ?case by simp
next
  case (Cons rc rs)
  then show ?case
    by (fastforce simp: outcome_bind_def split: outcome.splits if_splits option.splits)
qed

lemma records_CreateOrReconcile: "records (CreateOrReconcile h x rs) s"
  by (simp add: records_def sends_wp wp_CreateOrReconcile Let_def
      split: prod.split sum.split outcome.split option.split)

lemma CreateOrReconcile_talk:
  "talk (CreateOrReconcile h x rs) s (\<lambda>r l s'. the_rpc s' = the_rpc s \<and>
     (\<forall>c \<in> set l. call_req c = CreateReq (h_obj h x) \<or> call_req c = GetReq (h_kind h) (h_key h x) \<or>
        (\<exists>stored y. call_req c = UpdateReq (h_obj h y) \<and> run_reconcilers rs stored False = Ret (None, y, True) \<and>
           (\<exists>d \<in> set l. call_req d = GetReq (h_kind h) (h_key h x) \<and> call_reply d = Got (h_obj h stored)))) \<and>
     (\<forall>b y. r = Ret (b, None, y) \<longrightarrow> (\<exists>c \<in> set l. call_reply c = Got (h_obj h y))))"
  unfolding wp_CreateOrReconcile talk_def Let_def
  by (auto dest: run_reconcilers_flag split: prod.split sum.split outcome.split option.split) blast+

section \<open>The contract of a reconciler\<close>

text \<open>
  On the objects it is safe for, the test and the update return, the update makes the test
  hold and keeps the object safe; the update reports no error and does not move the object to
  another key.
\<close>

locale object_reconciler =
  fixes rec :: "'a ObjectReconcilier"
    and safe :: "'a \<Rightarrow> bool"
    and good :: "'a \<Rightarrow> bool"
    and fix_up :: "'a \<Rightarrow> 'a"
    and meta :: "'a \<Rightarrow> ObjectMeta"
  assumes test: "safe x \<Longrightarrow> orc_is_up_to_date rec x = Ret (good x)"
    and update: "safe x \<Longrightarrow> orc_update rec x = Ret (None, fix_up x)"
    and fix_up_good: "safe x \<Longrightarrow> good (fix_up x)"
    and fix_up_safe: "safe x \<Longrightarrow> safe (fix_up x)"
    and update_key: "orc_update rec x = Ret (err, y) \<Longrightarrow>
      err = None \<and> meta_key (meta y) = meta_key (meta x)"
begin

lemma run:
  "safe x \<Longrightarrow> run_reconcilers [rec] x False = Ret (None, if good x then x else fix_up x, \<not> good x)"
  by (simp add: test update)

lemma run_good:
  "safe x \<Longrightarrow> run_reconcilers [rec] x False = Ret (None, y, u) \<Longrightarrow> good y \<and> safe y"
  using run [of x] by (auto simp: fix_up_good fix_up_safe split: if_splits)

text \<open>A second pass over the result has nothing to do.\<close>

lemma run_twice:
  "safe x \<Longrightarrow> run_reconcilers [rec] x False = Ret (None, y, u) \<Longrightarrow>
   run_reconcilers [rec] y False = Ret (None, y, False)"
  using run_good [of x y u] run [of y] by simp

lemma run_key:
  "run_reconcilers [rec] x u = Ret (err, y, u') \<Longrightarrow>
   err = None \<and> meta_key (meta y) = meta_key (meta x)"
  using update_key [of x]
  by (fastforce simp: outcome_bind_def split: outcome.splits if_splits option.splits)

lemma run_panics: "run_reconcilers [rec] x u = Panicked p \<Longrightarrow> \<not> safe x"
  using test [of x] update [of x] by (auto split: if_splits)

text \<open>
  The contract of the whole call: neither the requests nor the object that comes back leave
  the key of the wanted object, and a panic needs an object that is not safe.
\<close>

lemma contract_reconcile:
  assumes key: "\<And>x. h_key h x = meta_key (meta x)"
    and create: "\<And>c r. I c \<Longrightarrow>
      P \<lparr>call_cluster = c, call_req = CreateReq (h_obj h x), call_reply = r\<rparr>"
    and get: "\<And>c r. I c \<Longrightarrow>
      P \<lparr>call_cluster = c, call_req = GetReq (h_kind h) (h_key h x), call_reply = r\<rparr>"
    and upd: "\<And>c r y. I c \<Longrightarrow> (lawful_api meta (h_api h) \<Longrightarrow> h_key h y = h_key h x) \<Longrightarrow>
      P \<lparr>call_cluster = c, call_req = UpdateReq (h_obj h y), call_reply = r\<rparr>"
    and panic: "\<And>y. from_server (h_api h) y \<Longrightarrow> \<not> safe y \<Longrightarrow> pn"
    and seen: "\<And>b y. from_server (h_api h) y \<Longrightarrow>
      (lawful_api meta (h_api h) \<Longrightarrow> h_key h y = h_key h x) \<Longrightarrow> R (b, None, y)"
    and err: "\<And>b e y. R (b, Some (Api e), y)"
  shows "contract pn I P (CreateOrReconcile h x [rec]) R"
proof -
  have key_eq: "h_key h y = h_key h x"
    if "api_get (h_api h) (h_key h x) w = (Inr stored, w')"
      "run_reconcilers [rec] stored False = Ret (e, y, u)" "lawful_api meta (h_api h)" for y w w' stored e u
    using lawful_apiD(1) [OF that(3,1)] run_key [OF that(2)] by (simp add: key)
  have upd': "P \<lparr>call_cluster = c, call_req = UpdateReq (h_obj h y), call_reply = r\<rparr>"
    if "run_reconcilers [rec] stored False = Ret (e, y, u)"
      "api_get (h_api h) (h_key h x) w = (Inr stored, w')" "I c" for c r y w w' stored e u
    using that(3) key_eq [OF that(2,1)] by (rule upd)
  have no_err: "run_reconcilers [rec] stored False \<noteq> Ret (Some e, y, u)" for stored e y u
    using run_key by fastforce
  have seen_created: "R (b, None, y)" if "api_create (h_api h) x w = (Inr y, w')" for b y w w'
    using lawful_apiD(2) [OF _ that] by (intro seen from_serverI(2) [OF that]) (simp add: key)
  have seen_updated: "R (b, None, z)"
    if "api_update (h_api h) y v = (Inr z, v')" "run_reconcilers [rec] stored False = Ret (e, y, u)"
      "api_get (h_api h) (h_key h x) w = (Inr stored, w')" for b y z w w' v v' stored e u
    using key_eq [OF that(3,2)] lawful_apiD(3) [OF _ that(1)]
    by (intro seen from_serverI(3) [OF that(1)]) (simp add: key)
  have seen_read: "R (b, None, y)"
    if "run_reconcilers [rec] stored False = Ret (None, y, False)"
      "api_get (h_api h) (h_key h x) w = (Inr stored, w')" for b y w w' stored
    using run_reconcilers_flag [OF that(1)] from_serverI(1) [OF that(2)]
    by (intro seen key_eq [OF that(2,1)]) simp
  have panic': "pn" if "run_reconcilers [rec] stored False = Panicked p"
      "api_get (h_api h) (h_key h x) w = (Inr stored, w')" for w w' stored p
    by (rule panic [OF from_serverI(1) [OF that(2)] run_panics [OF that(1)]])
  show ?thesis
    unfolding contract_wp wp_CreateOrReconcile Let_def
    by (auto simp del: run_reconcilers.simps
        simp: create get err no_err seen_created upd' seen_updated seen_read panic'
        split: prod.split sum.split outcome.split option.split)
qed
text \<open>
  The update that is sent, if any, carries an object that passes the test, and it is sent
  only when the object that was read does not.
\<close>

lemma reconcile_existing:
  assumes "api_create (h_api h) x (world s) = (Inl AlreadyExists, w1)"
    and "api_get (h_api h) (h_key h x) w1 = (Inr y, w2)" and "safe y"
  shows "map call_req (calls (CreateOrReconcile h x [rec]) s) =
    CreateReq (h_obj h x) # GetReq (h_kind h) (h_key h x) #
      (if good y then [] else [UpdateReq (h_obj h (fix_up y))])"
proof -
  have "wp (CreateOrReconcile h x [rec]) (\<lambda>r s'. map call_req (drop (length (trace s)) (trace s')) =
      CreateReq (h_obj h x) # GetReq (h_kind h) (h_key h x) #
      (if good y then [] else [UpdateReq (h_obj h (fix_up y))])) s"
    using assms by (simp add: wp_CreateOrReconcile Let_def run del: run_reconcilers.simps
          split: prod.split sum.split)
  then show ?thesis by (simp add: wp_def calls_def split: prod.splits)
qed

end

text \<open>The three shapes of the conversation with the server.\<close>

lemma CreateOrReconcile_calls:
  "(\<exists>r. calls (CreateOrReconcile h x rs) s = [answered s (CreateReq (h_obj h x)) r]) \<or>
    (\<exists>r. calls (CreateOrReconcile h x rs) s =
       [answered s (CreateReq (h_obj h x)) (Failed AlreadyExists),
        answered s (GetReq (h_kind h) (h_key h x)) r]) \<or>
    (\<exists>stored y r. run_reconcilers rs stored False = Ret (None, y, True) \<and>
       calls (CreateOrReconcile h x rs) s =
       [answered s (CreateReq (h_obj h x)) (Failed AlreadyExists),
        answered s (GetReq (h_kind h) (h_key h x)) (Got (h_obj h stored)),
        answered s (UpdateReq (h_obj h y)) r])"
proof -
  let ?l = "\<lambda>s'. drop (length (trace s)) (trace s')"
  have "wp (CreateOrReconcile h x rs) (\<lambda>r s'.
      (\<exists>r. ?l s' = [answered s (CreateReq (h_obj h x)) r]) \<or>
      (\<exists>r. ?l s' = [answered s (CreateReq (h_obj h x)) (Failed AlreadyExists),
          answered s (GetReq (h_kind h) (h_key h x)) r]) \<or>
      (\<exists>stored y r. run_reconcilers rs stored False = Ret (None, y, True) \<and>
        ?l s' = [answered s (CreateReq (h_obj h x)) (Failed AlreadyExists),
          answered s (GetReq (h_kind h) (h_key h x)) (Got (h_obj h stored)),
          answered s (UpdateReq (h_obj h y)) r])) s"
    unfolding answered_def wp_CreateOrReconcile Let_def
    by (fastforce split: prod.split sum.split outcome.split option.split)
  then show ?thesis
    by (simp add: wp_def calls_def split_beta)
qed

section \<open>Properties\<close>

text \<open>C27. CreateOrReconcile always starts with the creation; it reads only after the creation
  was refused because the object exists, and writes back only what its reconcilers made of
  the object it has just read, when at least one of them found it out of date. No other
  request is ever sent, whatever the server answers.\<close>

theorem CreateOrReconcile_protocol:
  "(\<exists>r. calls (CreateOrReconcile h x rs) s = [answered s (CreateReq (h_obj h x)) r]) \<or>
    (\<exists>r. calls (CreateOrReconcile h x rs) s =
       [answered s (CreateReq (h_obj h x)) (Failed AlreadyExists),
        answered s (GetReq (h_kind h) (h_key h x)) r]) \<or>
    (\<exists>stored y r. run_reconcilers rs stored False = Ret (None, y, True) \<and>
       calls (CreateOrReconcile h x rs) s =
       [answered s (CreateReq (h_obj h x)) (Failed AlreadyExists),
        answered s (GetReq (h_kind h) (h_key h x)) (Got (h_obj h stored)),
        answered s (UpdateReq (h_obj h y)) r])"
  by (rule CreateOrReconcile_calls)

end
