(* ===== verification/Proxy.thy ===== *)
theory Proxy
  imports Stage
begin

text \<open>
  internal/utils/proxy/proxy.go: asking the pod, through the API server's proxy, whether it
  is ready or synced. Both functions index the first container and its first port, which
  panics when there is none.
\<close>

definition getNamedPort :: "Pod \<Rightarrow> string \<Rightarrow> int outcome" where
  "getNamedPort pod name =
     outcome_bind (index0 (ps_containers (pod_spec pod))) (\<lambda>c.
       Ret (case find (\<lambda>port. cp_name port = name) (ct_ports c) of
              Some port \<Rightarrow> sint (cp_port port) | None \<Rightarrow> 0))"

text \<open>The scheme that both functions choose by \<open>Containers[0].Ports[0].Protocol\<close>.\<close>

definition probe_scheme :: "Pod \<Rightarrow> string outcome" where
  "probe_scheme pod =
     outcome_bind (index0 (ps_containers (pod_spec pod))) (\<lambda>c.
     outcome_bind (index0 (ct_ports c)) (\<lambda>port.
       Ret (if cp_protocol port = ProtocolTCP then ''https'' else ''http'')))"

definition IsReady :: "'w client \<Rightarrow> Pod \<Rightarrow> ('w, bool \<times> GoError option) act" where
  "IsReady k pod =
    (if pod_phase pod \<noteq> PodRunning then returns (False, None)
     else
       seq (pure (getNamedPort pod ''management'')) (\<lambda>n.
       let port = Itoa n in
       seq (pure (probe_scheme pod)) (\<lambda>schema.
       seq (ProxyGet k schema (om_namespace (pod_meta pod)) (om_name (pod_meta pod)) port ''/ready'') (\<lambda>err.
         case err of
           Some e \<Rightarrow>
             if e = BadRequest \<or> e = ServiceUnavailable then returns (False, None)
             else returns (False, Some (Api e))
         | None \<Rightarrow> returns (True, None)))))"

definition IsSynced :: "'w client \<Rightarrow> Pod \<Rightarrow> ('w, bool \<times> GoError option) act" where
  "IsSynced k pod =
     seq (pure (getNamedPort pod ''management'')) (\<lambda>n.
     let port = Itoa n in
     seq (pure (probe_scheme pod)) (\<lambda>schema.
     seq (ProxyGet k schema (om_namespace (pod_meta pod)) (om_name (pod_meta pod)) port ''/ready/synced'') (\<lambda>err.
       case err of
         Some e \<Rightarrow> returns (False, Some (Api e))
       | None \<Rightarrow> returns (True, None))))"

lemma safe_pod_ports:
  assumes "safe_pod pod"
  shows "\<exists>n. getNamedPort pod name = Ret n" and "\<exists>sch. probe_scheme pod = Ret sch"
  using assms
  by (auto simp: safe_pod_def getNamedPort_def probe_scheme_def index0_def split: list.splits)

lemma contract_IsReady [contract_rules]:
  assumes "\<And>c sch port r. I c \<Longrightarrow> getNamedPort pod ''management'' = Ret port \<Longrightarrow>
      P \<lparr>call_cluster = c, call_req = ProxyGetReq sch (om_namespace (pod_meta pod))
         (om_name (pod_meta pod)) (Itoa port) ''/ready'', call_reply = r\<rparr>"
    and "\<not> safe_pod pod \<Longrightarrow> pn" and "\<And>r. R r"
  shows "contract pn I P (IsReady k pod) R"
proof -
  have ports: "safe_pod pod \<Longrightarrow> getNamedPort pod name \<noteq> Panicked p"
    "safe_pod pod \<Longrightarrow> probe_scheme pod \<noteq> Panicked p" for name p
    using safe_pod_ports(1) [of pod name] safe_pod_ports(2) [of pod] by auto
  show ?thesis
    using ports
    by (cases "getNamedPort pod ''management''"; cases "probe_scheme pod")
      (auto simp: contract_wp IsReady_def wp Let_def assms(3) intro: assms(1,2) split: prod.split option.split)
qed

lemma IsReady_talk:
  "talk (IsReady k pod) s (\<lambda>r l s'. the_rpc s' = the_rpc s \<and>
     (\<forall>c \<in> set l. pod_phase pod = ''Running'' \<and> (\<exists>scheme port. call_req c =
        ProxyGetReq scheme (om_namespace (pod_meta pod)) (om_name (pod_meta pod)) port ''/ready'')) \<and>
     (\<forall>err. r = Ret (True, err) \<longrightarrow> err = None \<and> (\<exists>c \<in> set l. call_reply c = Done)))"
  by (auto simp: talk_def IsReady_def PodRunning_def wp Let_def
      split: prod.split option.split outcome.split)

section \<open>Properties\<close>

text \<open>A pod is reported ready exactly when it is running and the proxy answered the
  request without an error; a pod that is not running is not asked, and the two errors of a
  pod that is still starting count as not ready without being reported. In every case at
  most one request is sent.\<close>

theorem IsReady_sound:
  assumes "safe_pod pod"
  shows "\<exists>ok err. fst (IsReady k pod s) = Ret (ok, err) \<and>
    (ok \<longleftrightarrow> pod_phase pod = ''Running'' \<and> (\<exists>q. calls (IsReady k pod) s = [answered s q Done])) \<and>
    (ok \<longrightarrow> err = None) \<and>
    (calls (IsReady k pod) s = [] \<longleftrightarrow> pod_phase pod \<noteq> ''Running'') \<and>
    length (calls (IsReady k pod) s) \<le> 1 \<and>
    (err \<noteq> None \<longleftrightarrow> (\<exists>q e. calls (IsReady k pod) s = [answered s q (Failed e)] \<and>
       e \<noteq> BadRequest \<and> e \<noteq> ServiceUnavailable))"
proof -
  obtain n sch where ports: "getNamedPort pod ''management'' = Ret n" "probe_scheme pod = Ret sch"
    using safe_pod_ports [OF assms] by blast
  have "wp (IsReady k pod) (\<lambda>r s'. \<exists>ok err. r = Ret (ok, err) \<and>
    (ok \<longleftrightarrow> pod_phase pod = ''Running'' \<and> (\<exists>q. drop (length (trace s)) (trace s') = [answered s q Done])) \<and>
    (ok \<longrightarrow> err = None) \<and>
    (drop (length (trace s)) (trace s') = [] \<longleftrightarrow> pod_phase pod \<noteq> ''Running'') \<and>
    length (drop (length (trace s)) (trace s')) \<le> 1 \<and>
    (err \<noteq> None \<longleftrightarrow> (\<exists>q e. drop (length (trace s)) (trace s') = [answered s q (Failed e)] \<and>
       e \<noteq> BadRequest \<and> e \<noteq> ServiceUnavailable))) s"
    using ports
    by (auto simp: IsReady_def wp Let_def answered_def PodRunning_def split: prod.split option.split)
  then show ?thesis by (simp add: wp_def calls_def split_beta)
qed

text \<open>The question whether a pod is synced is asked in any phase, exactly once; an error of
  the proxy, also the two that mean a pod is starting, is returned, and no error means synced.\<close>

theorem IsSynced_sound:
  assumes "safe_pod pod"
  shows "\<exists>scheme n reply. getNamedPort pod ''management'' = Ret n \<and> probe_scheme pod = Ret scheme \<and>
    calls (IsSynced k pod) s = [answered s (ProxyGetReq scheme (om_namespace (pod_meta pod))
      (om_name (pod_meta pod)) (Itoa n) ''/ready/synced'') reply] \<and>
    fst (IsSynced k pod s) = Ret (case reply of Failed e \<Rightarrow> (False, Some (Api e)) | _ \<Rightarrow> (True, None))"
proof -
  obtain n scheme where ports: "getNamedPort pod ''management'' = Ret n" "probe_scheme pod = Ret scheme"
    using safe_pod_ports [OF assms] by blast
  have "talk (IsSynced k pod) s (\<lambda>r l s'. \<exists>reply. l = [answered s (ProxyGetReq scheme
      (om_namespace (pod_meta pod)) (om_name (pod_meta pod)) (Itoa n) ''/ready/synced'') reply] \<and>
      r = Ret (case reply of Failed e \<Rightarrow> (False, Some (Api e)) | _ \<Rightarrow> (True, None)))"
    using ports by (auto simp: talk_def IsSynced_def wp Let_def answered_def reply_opt_def
        split: prod.split option.split)
  from talk_calls [OF this] ports show ?thesis by blast
qed

section \<open>Witnesses\<close>

definition probe_pod :: Pod where
  "probe_pod =
    \<lparr>pod_meta = \<lparr>om_name = ''node-rpc'', om_namespace = ''default'', om_uid = '''', om_labels = None,
       om_annotations = None, om_owners = []\<rparr>,
     pod_spec = \<lparr>ps_restart_policy = '''',
       ps_containers = [\<lparr>ct_name = ''c'', ct_image = '''', ct_pull_policy = '''', ct_env = [],
         ct_resources = no_resources,
         ct_ports = [\<lparr>cp_name = ''management'', cp_port = 80, cp_protocol = ProtocolTCP\<rparr>],
         ct_mounts = []\<rparr>],
       ps_volumes = [], ps_tolerations = [], ps_security = None\<rparr>,
     pod_phase = PodRunning, pod_reason = '''', pod_container_statuses = []\<rparr>"

theorem IsReady_sound_witness:
  "safe_pod probe_pod \<and> pod_phase probe_pod = ''Running'' \<and>
   calls (IsReady mem_client probe_pod) (run_from empty_mem sample_rpc) \<noteq> []"
proof -
  have pod: "safe_pod probe_pod" "pod_phase probe_pod = ''Running''"
    by (simp_all add: probe_pod_def safe_pod_def PodRunning_def)
  from IsReady_sound [OF pod(1), of mem_client "run_from empty_mem sample_rpc"]
  have "calls (IsReady mem_client probe_pod) (run_from empty_mem sample_rpc) = [] \<longleftrightarrow>
      pod_phase probe_pod \<noteq> ''Running''"
    by (elim exE conjE)
  with pod show ?thesis by simp
qed

theorem IsSynced_sound_witness:
  "\<exists>reply. calls (IsSynced mem_client probe_pod) (run_from empty_mem sample_rpc) =
     [answered (run_from empty_mem sample_rpc)
       (ProxyGetReq ''https'' ''default'' ''node-rpc'' ''80'' ''/ready/synced'') reply]"
proof -
  have "safe_pod probe_pod"
    by (simp add: probe_pod_def safe_pod_def)
  moreover have "getNamedPort probe_pod ''management'' = Ret 80" "probe_scheme probe_pod = Ret ''https''"
    by (simp_all add: probe_pod_def getNamedPort_def probe_scheme_def)
  moreover have "Itoa 80 = ''80''"
    by code_simp
  ultimately show ?thesis
    using IsSynced_sound [of probe_pod mem_client "run_from empty_mem sample_rpc"]
    by (auto simp: probe_pod_def)
qed

end
