(* ===== verification/Rpc_Pod.thy ===== *)
theory Rpc_Pod
  imports Reconciler Proxy
begin

text \<open>
  internal/controller/starknetrpc_pod.go: the pod that runs the node. It is created, or its
  image is brought up to date; a pod that was evicted or keeps crashing is deleted so that
  the next reconciliation creates it again; a pod that answers its readiness probe moves the
  Available condition on.
\<close>

definition getPodImage :: "StarknetRPC \<Rightarrow> string" where
  "getPodImage rpc = (case sp_image (rpc_spec rpc) of
     Some img \<Rightarrow> img | None \<Rightarrow> ''eqlabs/pathfinder:v0.20.0'')"

definition GetWantedPod :: "StarknetRPC \<Rightarrow> Pod" where
  "GetWantedPod cluster =
    (let userId = 1000 :: int64;
         labels = [(''rpc.runelabs.xyz/type'', ''starknet''),
                   (''rpc.runelabs.xyz/name'', rpc_name cluster),
                   (''runelabs.xyz/network'', sp_network (rpc_spec cluster))];
         nameInfo = GetPodName cluster in
     \<lparr>pod_meta =
       \<lparr>om_name = nn_name nameInfo, om_namespace = nn_namespace nameInfo, om_uid = '''',
        om_labels = Some labels, om_annotations = Some [],
        om_owners = [owner_ref (tm_api_version (rpc_type cluster)) (tm_kind (rpc_type cluster)) cluster]\<rparr>,
      pod_spec =
       \<lparr>ps_restart_policy = '''',
        ps_containers =
         [\<lparr>ct_name = ''rpc-pathfinder'',
           ct_image = getPodImage cluster,
           ct_pull_policy = PullIfNotPresent,
           ct_env =
            [EnvValue ''RUST_LOG'' ''info'',
             EnvValue ''PATHFINDER_DATA_DIR'' ''/usr/share/pathfinder/data'',
             EnvValue ''PATHFINDER_MONITOR_ADDRESS'' ''0.0.0.0:9000'',
             \<lparr>ev_name = ''PATHFINDER_ETHEREUM_API_URL'', ev_value = '''',
              ev_secret = Some (sp_layer1_rpc_secret (rpc_spec cluster))\<rparr>,
             EnvValue ''PATHFINDER_WEBSOCKET_ENABLED'' ''true'',
             EnvValue ''PATHFINDER_HEAD_POLL_INTERVAL_SECONDS'' ''2''],
           ct_resources = sp_resources (rpc_spec cluster),
           ct_ports =
            [\<lparr>cp_name = ''rpc'', cp_port = 9545, cp_protocol = ''''\<rparr>,
             \<lparr>cp_name = ''monitoring'', cp_port = 9000, cp_protocol = ''''\<rparr>],
           ct_mounts = [\<lparr>vm_name = ''pathfinder-data'', vm_path = ''/usr/share/pathfinder/data''\<rparr>]\<rparr>],
        ps_volumes =
         [\<lparr>vol_name = ''pathfinder-data'', vol_claim = nn_name (GetStoragePvcName cluster)\<rparr>],
        ps_tolerations = sp_tolerations (rpc_spec cluster),
        ps_security = Some \<lparr>psc_run_as_user = Some userId, psc_run_as_group = Some userId,
                            psc_fs_group = Some userId\<rparr>\<rparr>,
      pod_phase = '''', pod_reason = '''', pod_container_statuses = []\<rparr>)"

text \<open>\<open>pod.Spec.Containers[0].Image = image\<close>.\<close>

definition set_image :: "string \<Rightarrow> Pod \<Rightarrow> Pod" where
  "set_image img pod = (case ps_containers (pod_spec pod) of
     [] \<Rightarrow> pod
   | c # cs \<Rightarrow> pod\<lparr>pod_spec := (pod_spec pod)\<lparr>ps_containers := c\<lparr>ct_image := img\<rparr> # cs\<rparr>\<rparr>)"

definition ImageReconciler :: "StarknetRPC \<Rightarrow> Pod ObjectReconcilier" where
  "ImageReconciler rpc =
    \<lparr>orc_name = ''ImageReconciler'',
     orc_is_up_to_date = (\<lambda>pod.
       outcome_bind (index0 (ps_containers (pod_spec pod))) (\<lambda>c.
         Ret (ct_image c = getPodImage rpc))),
     orc_update = (\<lambda>pod.
       outcome_bind (index0 (ps_containers (pod_spec pod))) (\<lambda>_.
         Ret (None, set_image (getPodImage rpc) pod)))\<rparr>"

fun any_crash_loop :: "ContainerStatus list \<Rightarrow> bool" where
  "any_crash_loop [] = False"
| "any_crash_loop (cs # rest) =
    (let restartCount = cs_restart_count cs in
     case cs_waiting cs of
       Some reason \<Rightarrow>
         if reason = ''CrashLoopBackOff'' \<and> 5 < sint restartCount then True
         else any_crash_loop rest
     | None \<Rightarrow> any_crash_loop rest)"

definition shouldPodGetRecreated :: "Pod \<Rightarrow> bool" where
  "shouldPodGetRecreated pod =
    (if pod_reason pod = ''Evicted'' then True
     else any_crash_loop (pod_container_statuses pod))"

definition ReconcilePod :: "'w client \<Rightarrow> ('w, step_result) act" where
  "ReconcilePod k =
     seq read_cluster (\<lambda>cluster.
     let pod = GetWantedPod cluster in
     seq (CreateOrReconcile (pods k) pod [ImageReconciler cluster]) (\<lambda>(created, err, pod).
       case err of
         Some e \<Rightarrow> returns (None, Some e)
       | None \<Rightarrow>
           seq (if created then
                  SetPhases k [AvailableStatus_Apply k StarknetRPCAvailableStatusCreating]
                else returns None) (\<lambda>err.
             case err of
               Some e \<Rightarrow> returns (None, Some e)
             | None \<Rightarrow>
                 if shouldPodGetRecreated pod then
                   seq (Delete (pods k) pod None) (\<lambda>err.
                     case err of
                       Some e \<Rightarrow> returns (None, Some (Api e))
                     | None \<Rightarrow>
                         returns (Some \<lparr>res_requeue = True, res_requeue_after = 0\<rparr>, Some ErrNextLoop))
                 else
                   seq (IsReady k pod) (\<lambda>(ok, err).
                     if err = None \<and> ok then
                       seq (SetPhases k [AvailableStatus_Apply k StarknetRPCAvailableStatusCatchingUp]) (\<lambda>err.
                         case err of
                           Some e \<Rightarrow> returns (None, Some e)
                         | None \<Rightarrow> returns (Some empty_result, None))
                     else returns (Some empty_result, None)))))"

section \<open>The pod that is created\<close>

interpretation rpc_pod: owned_object GetWantedPod pod_meta "''-rpc''"
  "\<lambda>r. tm_api_version (rpc_type r)" "\<lambda>r. tm_kind (rpc_type r)"
  by unfold_locales (simp_all add: GetWantedPod_def GetPodName_def)

lemma GetWantedPod_key [simp]: "meta_key (pod_meta (GetWantedPod r)) = GetPodName r"
  by (simp add: rpc_pod.wanted_key GetPodName_def)

section \<open>The image reconciler\<close>

definition good_image :: "StarknetRPC \<Rightarrow> Pod \<Rightarrow> bool" where
  "good_image rpc pod = (case ps_containers (pod_spec pod) of
     [] \<Rightarrow> False | c # _ \<Rightarrow> ct_image c = getPodImage rpc)"

lemma set_image_meta [simp]: "pod_meta (set_image img pod) = pod_meta pod"
  by (simp add: set_image_def split: list.split)

definition has_container :: "Pod \<Rightarrow> bool" where
  "has_container pod = (ps_containers (pod_spec pod) \<noteq> [])"

interpretation image_rec: object_reconciler "ImageReconciler rpc" has_container "good_image rpc"
  "set_image (getPodImage rpc)" pod_meta for rpc
  by unfold_locales
    (auto simp: ImageReconciler_def has_container_def good_image_def set_image_def
      outcome_bind_def index0_def split: list.splits outcome.splits)

section \<open>The stage\<close>

text \<open>What follows the creation or the update of the pod.\<close>

definition pod_followup :: "'w client \<Rightarrow> bool \<Rightarrow> Pod \<Rightarrow> ('w, step_result) act" where
  "pod_followup k created pod =
     seq (if created then
            SetPhases k [AvailableStatus_Apply k StarknetRPCAvailableStatusCreating]
          else returns None) (\<lambda>err.
       case err of
         Some e \<Rightarrow> returns (None, Some e)
       | None \<Rightarrow>
           if shouldPodGetRecreated pod then
             seq (Delete (pods k) pod None) (\<lambda>err.
               case err of
                 Some e \<Rightarrow> returns (None, Some (Api e))
               | None \<Rightarrow>
                   returns (Some \<lparr>res_requeue = True, res_requeue_after = 0\<rparr>, Some ErrNextLoop))
           else
             seq (IsReady k pod) (\<lambda>(ok, err).
               if err = None \<and> ok then
                 seq (SetPhases k [AvailableStatus_Apply k StarknetRPCAvailableStatusCatchingUp]) (\<lambda>err.
                   case err of
                     Some e \<Rightarrow> returns (None, Some e)
                   | None \<Rightarrow> returns (Some empty_result, None))
               else returns (Some empty_result, None)))"

lemma ReconcilePod_unfold:
  "ReconcilePod k = seq read_cluster (\<lambda>cluster.
    seq (CreateOrReconcile (pods k) (GetWantedPod cluster) [ImageReconciler cluster])
      (\<lambda>(created, err, pod). case err of
         Some e \<Rightarrow> returns (None, Some e) | None \<Rightarrow> pod_followup k created pod))"
  unfolding ReconcilePod_def pod_followup_def Let_def ..

lemma contract_pod_followup:
  assumes "keeps k (pod_marks k) I" "allows k {KindPod} I P"
    and key: "lawful_keys k \<Longrightarrow> meta_key (pod_meta pod) = GetPodName x" and I: "I x"
    and safe: "\<not> safe_pod pod \<Longrightarrow> pn"
  shows "contract pn I P (pod_followup k created pod) step_ok"
proof -
  have name: "lawful_keys k \<Longrightarrow> GetPodName x =
      \<lparr>nn_name = om_name (pod_meta pod), nn_namespace = om_namespace (pod_meta pod)\<rparr>"
    using key by (simp add: meta_key_def)
  show ?thesis
    unfolding pod_followup_def
    by (intro contract_seq [OF contract_SetPhases [OF assms(1), where R = "\<lambda>err. err \<noteq> Some ErrNextLoop"]]
          contract_seq [OF contract_cases(1) [where R = "\<lambda>err. err \<noteq> Some ErrNextLoop"]]
          contract_seq [OF contract_Delete [where R = "\<lambda>_. True"]]
          contract_seq [OF contract_IsReady [where R = "\<lambda>_. True"]]
          contract_SetPhases [OF assms(1)]
          contract_cases contract_returns
          allows_status [OF assms(2)] allows_request [OF assms(2) _ I];
        simp add: step_ok_def safe key name [symmetric])
qed

lemma safe_pod_has_container: "safe_pod pod \<Longrightarrow> has_container pod"
  by (auto simp: safe_pod_def has_container_def)

lemma contract_ReconcilePod:
  assumes "keeps k (pod_marks k) I" "allows k {KindPod} I P"
  shows "contract (\<not> safe_server k) I P (ReconcilePod k) step_ok"
proof -
  note safe = safe_server_from(1) [of k]
  have lawful: "lawful_keys k \<Longrightarrow> lawful_api pod_meta (api_pods k)"
    by (simp add: lawful_keys_def)
  have "contract (\<not> safe_server k) I P
      (seq (CreateOrReconcile (pods k) (GetWantedPod x) [ImageReconciler x])
        (\<lambda>(created, err, pod). case err of
           Some e \<Rightarrow> returns (None, Some e) | None \<Rightarrow> pod_followup k created pod)) step_ok"
    if I: "I x" for x
  proof (rule contract_seq [OF image_rec.contract_reconcile [where R = "\<lambda>(b, err, pod). err \<noteq> Some ErrNextLoop \<and>
      (err = None \<longrightarrow> from_server (api_pods k) pod \<and> (lawful_keys k \<longrightarrow> meta_key (pod_meta pod) = GetPodName x))"]])
    fix res :: "bool \<times> GoError option \<times> Pod"
    assume "case res of (b, err, pod) \<Rightarrow> err \<noteq> Some ErrNextLoop \<and> (err = None \<longrightarrow>
        from_server (api_pods k) pod \<and> (lawful_keys k \<longrightarrow> meta_key (pod_meta pod) = GetPodName x))"
    then show "contract (\<not> safe_server k) I P (case res of (created, err, pod) \<Rightarrow> case err of
        Some e \<Rightarrow> returns (None, Some e) | None \<Rightarrow> pod_followup k created pod) step_ok"
      by (cases res) (auto dest: safe simp: step_ok_def I split: option.split
          intro!: contract_returns contract_pod_followup [OF assms, of _ x])
  qed (auto intro: allows_request [OF assms(2) _ I] dest: safe safe_pod_has_container simp: lawful)
  then show ?thesis
    unfolding ReconcilePod_unfold by (rule contract_reading)
qed

interpretation pod_stage: stage k "ReconcilePod k" "{KindPod}" "pod_marks k" for k
  by unfold_locales (auto intro: contract_ReconcilePod)

section \<open>What is sent, and when\<close>

lemma any_crash_loop_iff:
  "any_crash_loop l \<longleftrightarrow>
   (\<exists>st \<in> set l. cs_waiting st = Some ''CrashLoopBackOff'' \<and> 5 < sint (cs_restart_count st))"
  by (induction l) (auto simp: Let_def split: option.split)

text \<open>The calls that create the pod or bring its image up to date, among the calls \<open>l\<close>.\<close>

definition upsert_call :: "StarknetRPC \<Rightarrow> Call list \<Rightarrow> Call \<Rightarrow> bool" where
  "upsert_call x l c \<longleftrightarrow> call_req c = CreateReq (ObjPod (GetWantedPod x)) \<or>
     call_req c = GetReq KindPod (GetPodName x) \<or>
     (\<exists>stored. call_req c = UpdateReq (ObjPod (set_image (getPodImage x) stored)) \<and>
        has_container stored \<and> \<not> good_image x stored \<and>
        (\<exists>d \<in> set l. call_req d = GetReq KindPod (GetPodName x) \<and> call_reply d = Got (ObjPod stored)))"

lemma upsert_call_append: "upsert_call x l c \<Longrightarrow> upsert_call x (l @ l') c"
  unfolding upsert_call_def by auto

text \<open>The calls about the pod that is there, when the stage returns \<open>r\<close>.\<close>

definition followup_call :: "Pod \<Rightarrow> step_result outcome \<Rightarrow> Call list \<Rightarrow> Call \<Rightarrow> bool" where
  "followup_call pod r l c \<longleftrightarrow> (\<exists>x. call_req c = StatusUpdateReq x) \<or>
     pod_phase pod = ''Running'' \<and> (\<exists>scheme port. call_req c =
       ProxyGetReq scheme (om_namespace (pod_meta pod)) (om_name (pod_meta pod)) port ''/ready'') \<or>
     call_req c = DeleteReq KindPod (meta_key (pod_meta pod)) None \<and> shouldPodGetRecreated pod \<and>
       c = last l \<and>
       (call_reply c = Done \<longrightarrow> r = Ret (Some \<lparr>res_requeue = True, res_requeue_after = 0\<rparr>, Some ErrNextLoop))"

lemma followup_call_append: "followup_call pod r l c \<Longrightarrow> c \<in> set l \<Longrightarrow> followup_call pod r (l' @ l) c"
  by (cases "l = []") (auto simp: followup_call_def)

lemma run_image_reconciler:
  "run_reconcilers [ImageReconciler x] stored False = Ret (None, y, True) \<longleftrightarrow>
   has_container stored \<and> \<not> good_image x stored \<and> y = set_image (getPodImage x) stored"
proof (cases "has_container stored")
  case True
  with image_rec.run [OF True, of x] show ?thesis by auto
next
  case False
  then show ?thesis
    by (simp add: ImageReconciler_def has_container_def)
qed

lemma pod_upsert_talk:
  "talk (CreateOrReconcile (pods k) (GetWantedPod x) [ImageReconciler x]) s (\<lambda>r l s'.
     the_rpc s' = the_rpc s \<and> (\<forall>c \<in> set l. upsert_call x l c) \<and>
     (\<forall>b pod. r = Ret (b, None, pod) \<longrightarrow> (\<exists>c \<in> set l. call_reply c = Got (ObjPod pod))))"
  by (rule talk_mono [OF CreateOrReconcile_talk])
    (auto simp: upsert_call_def run_image_reconciler simp del: run_reconcilers.simps)

lemma pod_followup_talk:
  "talk (pod_followup k created pod) s (\<lambda>r l s'. \<forall>c \<in> set l. followup_call pod r l c)"
  unfolding pod_followup_def talk_def
  by (auto simp: followup_call_def wp simp del: wp_SetPhases split: prod.split option.split outcome.split
      intro!: talk_wp [OF SetPhases_talk] talk_wp [OF IsReady_talk])

lemma ReconcilePod_talk:
  "talk (ReconcilePod k) s (\<lambda>r l s'. \<forall>c \<in> set l. upsert_call (the_rpc s) l c \<or>
     (\<exists>pod. (\<exists>d \<in> set l. call_reply d = Got (ObjPod pod)) \<and> followup_call pod r l c))"
  unfolding ReconcilePod_unfold
proof (rule talk_reading, rule talk_seq [OF pod_upsert_talk], goal_cases)
  case (1 res l s')
  then show ?case
    by (cases res) (auto split: option.split intro!: talk_returns talk_mono [OF pod_followup_talk]
        intro: upsert_call_append followup_call_append)
qed auto

text \<open>The phase CatchingUp is set only after a positive answer of the readiness probe.\<close>

lemma reads_available:
  assumes "lawful_conditions k"
  shows "condition_reads (conditions (with_phases [AvailableStatus_Apply k p] w c)) ''Available'' st reason
    \<longleftrightarrow> st = AvailableStatus_Status p \<and> reason = p"
  using available.applied_reads [OF assms, of w "conditions c" p]
  by (auto simp: AvailableStatus_Apply_def condition_reads_def condition_type_defs split: option.splits)

definition probed :: "Pod \<Rightarrow> Call list \<Rightarrow> bool" where
  "probed pod l \<longleftrightarrow> pod_phase pod = ''Running'' \<and> (\<exists>c \<in> set l. call_reply c = Done \<and>
     (\<exists>scheme port. call_req c =
        ProxyGetReq scheme (om_namespace (pod_meta pod)) (om_name (pod_meta pod)) port ''/ready''))"

lemma probed_append: "probed pod l \<Longrightarrow> probed pod (l' @ l @ l'')"
  by (auto simp: probed_def)

lemma IsReady_probed:
  "talk (IsReady k pod) s (\<lambda>r l s'. the_rpc s' = the_rpc s \<and> (\<forall>err. r = Ret (True, err) \<longrightarrow> probed pod l))"
  by (rule talk_mono [OF IsReady_talk]) (auto simp: probed_def)

abbreviation catching_up :: "StarknetRPC \<Rightarrow> bool" where
  "catching_up c \<equiv> condition_reads (conditions c) ''Available'' ConditionUnknown ''CatchingUp''"

lemma pod_followup_catching_up:
  assumes "lawful_conditions k" "lawful_status_update k"
  shows "talk (pod_followup k created pod) s (\<lambda>r l s'.
    catching_up (the_rpc s') \<longrightarrow> catching_up (the_rpc s) \<or> probed pod l)"
proof -
  have created: "talk (if created then SetPhases k [AvailableStatus_Apply k StarknetRPCAvailableStatusCreating]
      else returns None) s (\<lambda>r l s'. catching_up (the_rpc s') \<longrightarrow> catching_up (the_rpc s))"
    by (intro talk_cases talk_returns talk_mono [OF SetPhases_talk])
      (auto simp: assms(2) reads_available [OF assms(1)] available_phase_defs)
  show ?thesis
    unfolding pod_followup_def
    by (rule talk_seq [OF created],
        (intro talk_cases talk_returns talk_seq [OF talk_Delete_shared] talk_seq [OF IsReady_probed]
          talk_seq [OF SetPhases_talk]; auto intro: probed_append), auto)
qed

lemma ReconcilePod_catching_up:
  assumes "lawful_conditions k" "lawful_status_update k"
  shows "talk (ReconcilePod k) s (\<lambda>r l s'. catching_up (the_rpc s') \<longrightarrow> catching_up (the_rpc s) \<or>
    (\<exists>pod. (\<exists>d \<in> set l. call_reply d = Got (ObjPod pod)) \<and> probed pod l))"
  unfolding ReconcilePod_unfold
proof (rule talk_reading, rule talk_seq [OF pod_upsert_talk], goal_cases)
  case (1 res l s')
  have "probed pod l' \<Longrightarrow> probed pod (l @ l')" for pod l'
    using probed_append [of pod l' l "[]"] by simp
  with 1 show ?case
    by (cases res) (auto split: option.split intro!: talk_returns talk_mono [OF pod_followup_catching_up [OF assms]])
qed auto

lemma pod_followup_unhealthy:
  assumes "shouldPodGetRecreated pod"
  shows "talk (pod_followup k False pod) s (\<lambda>r l s'. \<exists>reply.
    l = [answered s (DeleteReq KindPod (meta_key (pod_meta pod)) None) reply] \<and>
    r = Ret (case reply of Failed e \<Rightarrow> (None, Some (Api e))
      | _ \<Rightarrow> (Some \<lparr>res_requeue = True, res_requeue_after = 0\<rparr>, Some ErrNextLoop)))"
  using assms
  by (auto simp: talk_def pod_followup_def wp answered_def reply_opt_def split: prod.split option.split)

section \<open>Properties\<close>

text \<open>C26. A pod is to be recreated exactly when it was evicted or one of its containers waits in
  CrashLoopBackOff after more than five restarts, counted as a signed 32-bit integer.\<close>

theorem shouldPodGetRecreated_iff:
  "shouldPodGetRecreated pod \<longleftrightarrow> pod_reason pod = ''Evicted'' \<or>
    (\<exists>st \<in> set (pod_container_statuses pod).
       cs_waiting st = Some ''CrashLoopBackOff'' \<and> 5 < sint (cs_restart_count st))"
  by (simp add: shouldPodGetRecreated_def any_crash_loop_iff)

text \<open>C24. Bringing an existing pod up to date never changes more than the image of its first
  container: every update carries a pod that was read under the name of this resource, whose
  first container ran another image, with the wanted image put there.\<close>

theorem pod_update_image:
  assumes "c \<in> set (calls (ReconcilePod k) s)" and "call_req c = UpdateReq x"
  shows "\<exists>stored ct rest d. d \<in> set (calls (ReconcilePod k) s) \<and>
    call_req d = GetReq KindPod (GetPodName (the_rpc s)) \<and> call_reply d = Got (ObjPod stored) \<and>
    ps_containers (pod_spec stored) = ct # rest \<and> ct_image ct \<noteq> getPodImage (the_rpc s) \<and>
    x = ObjPod (stored\<lparr>pod_spec := (pod_spec stored)\<lparr>ps_containers :=
      ct\<lparr>ct_image := getPodImage (the_rpc s)\<rparr> # rest\<rparr>\<rparr>)"
proof -
  have "upsert_call (the_rpc s) (calls (ReconcilePod k) s) c"
    using talk_calls [OF ReconcilePod_talk, of k s] assms by (auto simp: followup_call_def)
  with assms(2) obtain stored d where d: "d \<in> set (calls (ReconcilePod k) s)"
      "call_req d = GetReq KindPod (GetPodName (the_rpc s))" "call_reply d = Got (ObjPod stored)"
    and stored: "has_container stored" "\<not> good_image (the_rpc s) stored"
      "x = ObjPod (set_image (getPodImage (the_rpc s)) stored)"
    by (auto simp: upsert_call_def)
  from stored(1) obtain ct rest where ct: "ps_containers (pod_spec stored) = ct # rest"
    by (cases "ps_containers (pod_spec stored)") (auto simp: has_container_def)
  show ?thesis
    by (intro exI [of _ stored] exI [of _ ct] exI [of _ rest] exI [of _ d])
      (use d stored(2,3) ct in \<open>simp add: good_image_def set_image_def\<close>)
qed

text \<open>C22. A pod is deleted only when the server has just sent it and it was evicted or keeps
  crashing. The deletion is the last call of the stage; when it succeeds, the stage asks for
  an immediate new loop, which creates the pod again.\<close>

theorem pod_deletion:
  assumes "c \<in> set (calls (ReconcilePod k) s)" and "call_req c = DeleteReq knd n pol"
  shows "\<exists>pod d. d \<in> set (calls (ReconcilePod k) s) \<and> call_reply d = Got (ObjPod pod) \<and>
    knd = KindPod \<and> n = meta_key (pod_meta pod) \<and> pol = None \<and>
    (pod_reason pod = ''Evicted'' \<or> (\<exists>st \<in> set (pod_container_statuses pod).
       cs_waiting st = Some ''CrashLoopBackOff'' \<and> 5 < sint (cs_restart_count st))) \<and>
    c = last (calls (ReconcilePod k) s) \<and>
    (call_reply c = Done \<longrightarrow> fst (ReconcilePod k s) =
       Ret (Some \<lparr>res_requeue = True, res_requeue_after = 0\<rparr>, Some ErrNextLoop))"
proof -
  have "\<not> upsert_call (the_rpc s) (calls (ReconcilePod k) s) c"
    using assms(2) by (simp add: upsert_call_def)
  then obtain pod where "\<exists>d \<in> set (calls (ReconcilePod k) s). call_reply d = Got (ObjPod pod)"
      "followup_call pod (fst (ReconcilePod k s)) (calls (ReconcilePod k) s) c"
    using talk_calls [OF ReconcilePod_talk, of k s] assms(1) by blast
  with assms(2) show ?thesis
    by (auto simp: followup_call_def shouldPodGetRecreated_def any_crash_loop_iff split: if_splits)
qed

text \<open>C23. Conversely, an existing pod that has to be recreated is deleted at once: nothing is
  probed and no condition changes, and the stage reports the error of the deletion or asks for
  an immediate new loop.\<close>

theorem pod_unhealthy_removed:
  assumes "CreateOrReconcile (pods k) (GetWantedPod (the_rpc s)) [ImageReconciler (the_rpc s)] s =
      (Ret (False, None, pod), s1)"
    and "shouldPodGetRecreated pod"
  shows "\<exists>reply. calls (ReconcilePod k) s =
      calls (CreateOrReconcile (pods k) (GetWantedPod (the_rpc s)) [ImageReconciler (the_rpc s)]) s @
      [answered s1 (DeleteReq KindPod (meta_key (pod_meta pod)) None) reply] \<and>
    fst (ReconcilePod k s) = Ret (case reply of Failed e \<Rightarrow> (None, Some (Api e))
      | _ \<Rightarrow> (Some \<lparr>res_requeue = True, res_requeue_after = 0\<rparr>, Some ErrNextLoop))"
proof -
  have run: "ReconcilePod k s = pod_followup k False pod s1"
    using assms(1) by (simp add: ReconcilePod_unfold seq_run) (simp add: seq_def)
  have "trace s1 = trace s @ calls (CreateOrReconcile (pods k) (GetWantedPod (the_rpc s)) [ImageReconciler (the_rpc s)]) s"
    using records_CreateOrReconcile [of "pods k" "GetWantedPod (the_rpc s)" "[ImageReconciler (the_rpc s)]" s]
      assms(1) sends_calls by (fastforce simp: records_def)
  moreover obtain reply where "trace (snd (pod_followup k False pod s1)) = trace s1 @
        [answered s1 (DeleteReq KindPod (meta_key (pod_meta pod)) None) reply]"
      "fst (pod_followup k False pod s1) = Ret (case reply of Failed e \<Rightarrow> (None, Some (Api e))
        | _ \<Rightarrow> (Some \<lparr>res_requeue = True, res_requeue_after = 0\<rparr>, Some ErrNextLoop))"
    using pod_followup_unhealthy [OF assms(2), of k s1] by (auto simp: talk_def wp_def split: prod.splits)
  ultimately show ?thesis
    by (intro exI [of _ reply]) (simp add: calls_def run)
qed

text \<open>C25. The Available condition reaches CatchingUp only after a pod that the server sent, and
  that is running, answered its readiness probe without an error.\<close>

theorem pod_catching_up:
  assumes "lawful_conditions k" and "lawful_status_update k" and "ReconcilePod k s = (res, s')"
    and "condition_reads (conditions (the_rpc s')) ''Available'' ConditionUnknown ''CatchingUp''"
    and "\<not> condition_reads (conditions (the_rpc s)) ''Available'' ConditionUnknown ''CatchingUp''"
  shows "\<exists>pod d c scheme port. d \<in> set (calls (ReconcilePod k) s) \<and> call_reply d = Got (ObjPod pod) \<and>
    pod_phase pod = ''Running'' \<and> c \<in> set (calls (ReconcilePod k) s) \<and> call_reply c = Done \<and>
    call_req c = ProxyGetReq scheme (om_namespace (pod_meta pod)) (om_name (pod_meta pod)) port ''/ready''"
proof -
  have "the_rpc (snd (ReconcilePod k s)) = the_rpc s'"
    using assms(3) by simp
  then obtain pod d where "d \<in> set (calls (ReconcilePod k) s)" "call_reply d = Got (ObjPod pod)"
      "probed pod (calls (ReconcilePod k) s)"
    using talk_calls [OF ReconcilePod_catching_up [OF assms(1,2)], of s] assms(4,5) by auto
  then show ?thesis
    unfolding probed_def by blast
qed

text \<open>C40. The readiness probe of a pod with the ports that the operator declares goes to port 0:
  the probe looks for a port called management, and the pod has only rpc and monitoring.\<close>

theorem probe_port_zero:
  assumes "pod_phase pod = ''Running''" and "ps_containers (pod_spec pod) = ct # rest"
    and "map cp_name (ct_ports ct) =
      map cp_name (ct_ports (hd (ps_containers (pod_spec (GetWantedPod rpc)))))"
  shows "\<exists>scheme reply. calls (IsReady k pod) s =
    [answered s (ProxyGetReq scheme (om_namespace (pod_meta pod)) (om_name (pod_meta pod)) ''0'' ''/ready'') reply]"
proof -
  have "map cp_name (ct_ports ct) = [''rpc'', ''monitoring'']"
    using assms(3) by (simp add: GetWantedPod_def Let_def)
  then obtain p q where ports: "ct_ports ct = [p, q]" "cp_name p = ''rpc''" "cp_name q = ''monitoring''"
    by (auto simp: map_eq_Cons_conv)
  then have "getNamedPort pod ''management'' = Ret 0"
    using assms(2) by (simp add: getNamedPort_def)
  moreover obtain scheme where "probe_scheme pod = Ret scheme"
    using assms(2) ports by (simp add: probe_scheme_def)
  ultimately have "talk (IsReady k pod) s (\<lambda>r l s'. \<exists>reply. l = [answered s
      (ProxyGetReq scheme (om_namespace (pod_meta pod)) (om_name (pod_meta pod)) ''0'' ''/ready'') reply])"
    using assms(1)
    by (auto simp: talk_def IsReady_def PodRunning_def wp Let_def Itoa_zero answered_def
        split: prod.split option.split)
  from talk_calls [OF this] show ?thesis by blast
qed

section \<open>Witnesses\<close>

definition pod_mem :: "Pod \<Rightarrow> mem" where
  "pod_mem pod = empty_mem\<lparr>m_pods := (m_pods empty_mem)(GetPodName sample_rpc := Some pod)\<rparr>"

definition old_pod :: Pod where
  "old_pod = set_image ''eqlabs/pathfinder:v0.19.0'' (GetWantedPod sample_rpc)"

definition evicted_pod :: Pod where
  "evicted_pod = (GetWantedPod sample_rpc)\<lparr>pod_reason := ''Evicted''\<rparr>"

definition running_pod :: Pod where
  "running_pod = (GetWantedPod sample_rpc)\<lparr>pod_phase := ''Running''\<rparr>"

theorem pod_update_image_witness:
  "\<exists>x stored. UpdateReq x \<in> set (map call_req (calls (ReconcilePod mem_client) (run_from (pod_mem old_pod) sample_rpc))) \<and>
     x = ObjPod (set_image (getPodImage sample_rpc) stored)"
proof -
  let ?l = "calls (ReconcilePod mem_client) (run_from (pod_mem old_pod) sample_rpc)"
  have "2 < length ?l \<and> (case call_req (?l ! 2) of UpdateReq x \<Rightarrow> True | _ \<Rightarrow> False)"
    by code_simp
  then obtain x where x: "?l ! 2 \<in> set ?l" "call_req (?l ! 2) = UpdateReq x"
    by (auto split: Request.splits)
  from pod_update_image [OF this] obtain stored ct rest where
    "ps_containers (pod_spec stored) = ct # rest"
    "x = ObjPod (stored\<lparr>pod_spec := (pod_spec stored)\<lparr>ps_containers :=
       ct\<lparr>ct_image := getPodImage sample_rpc\<rparr> # rest\<rparr>\<rparr>)"
    unfolding run_from_sel by blast
  then have "x = ObjPod (set_image (getPodImage sample_rpc) stored)"
    by (simp add: set_image_def)
  with x show ?thesis by (metis imageI set_map)
qed

theorem pod_deletion_witness:
  "\<exists>c n (pod :: Pod). c \<in> set (calls (ReconcilePod mem_client) (run_from (pod_mem evicted_pod) sample_rpc)) \<and>
     call_req c = DeleteReq KindPod n None \<and> n = meta_key (pod_meta pod)"
proof -
  let ?l = "calls (ReconcilePod mem_client) (run_from (pod_mem evicted_pod) sample_rpc)"
  have "2 < length ?l \<and> call_req (?l ! 2) = DeleteReq KindPod (GetPodName sample_rpc) None"
    by code_simp
  then have d: "?l ! 2 \<in> set ?l" "call_req (?l ! 2) = DeleteReq KindPod (GetPodName sample_rpc) None"
    by simp_all
  obtain pod :: Pod where "GetPodName sample_rpc = meta_key (pod_meta pod)"
    using pod_deletion [OF d] by blast
  with d show ?thesis by blast
qed

theorem pod_unhealthy_removed_witness:
  "shouldPodGetRecreated evicted_pod \<and>
   (\<exists>(s1 :: mem run_state) reply. calls (ReconcilePod mem_client) (run_from (pod_mem evicted_pod) sample_rpc) =
     calls (CreateOrReconcile (pods mem_client) (GetWantedPod sample_rpc) [ImageReconciler sample_rpc])
       (run_from (pod_mem evicted_pod) sample_rpc) @
     [answered s1 (DeleteReq KindPod (meta_key (pod_meta evicted_pod)) None) reply])"
proof -
  let ?s = "run_from (pod_mem evicted_pod) sample_rpc"
  let ?m = "CreateOrReconcile (pods mem_client) (GetWantedPod sample_rpc) [ImageReconciler sample_rpc]"
  have "fst (?m ?s) = Ret (False, None, evicted_pod)"
    by code_simp
  then have run: "?m ?s = (Ret (False, None, evicted_pod), snd (?m ?s))"
    by (simp add: prod_eq_iff)
  have evicted: "shouldPodGetRecreated evicted_pod"
    by (simp add: evicted_pod_def shouldPodGetRecreated_def)
  show ?thesis
    using pod_unhealthy_removed [of mem_client ?s evicted_pod "snd (?m ?s)", unfolded run_from_sel,
        OF run evicted] evicted by blast
qed

theorem pod_catching_up_witness:
  "\<exists>pod d. d \<in> set (calls (ReconcilePod mem_client) (run_from (pod_mem running_pod) sample_rpc)) \<and>
     call_reply d = Got (ObjPod pod) \<and> pod_phase pod = ''Running''"
proof -
  let ?s = "run_from (pod_mem running_pod) sample_rpc"
  have "condition_reads (conditions (the_rpc (snd (ReconcilePod mem_client ?s)))) ''Available''
      ConditionUnknown ''CatchingUp''"
    by code_simp
  moreover have "\<not> condition_reads (conditions (the_rpc ?s)) ''Available'' ConditionUnknown ''CatchingUp''"
    by (simp add: condition_reads_def condition_of_def)
  ultimately show ?thesis
    using pod_catching_up [OF lawful_conditions_mem lawful_status_update_mem surjective_pairing, of ?s]
    by blast
qed

theorem probe_port_zero_witness:
  "pod_phase running_pod = ''Running'' \<and> (\<exists>scheme reply.
     calls (IsReady mem_client running_pod) (run_from empty_mem sample_rpc) =
       [answered (run_from empty_mem sample_rpc) (ProxyGetReq scheme ''default'' ''node-rpc'' ''0'' ''/ready'') reply])"
  using probe_port_zero [of running_pod "hd (ps_containers (pod_spec running_pod))" "[]" sample_rpc
      mem_client "run_from empty_mem sample_rpc"]
  by (simp add: running_pod_def GetWantedPod_def GetPodName_def Let_def)

end
