(* ===== verification/Pod_Monitor.thy ===== *)
theory Pod_Monitor
  imports Rpc_Pod
begin

text \<open>
  internal/controller/starknetrpc_podmonitor.go: the PodMonitor that makes Prometheus scrape
  the node, when the resource asks for it. Its reconciler compares the labels and the parts
  of the specification that the operator sets with what it would write.
\<close>

section \<open>The wanted monitor\<close>

definition getPodMonitorSpec :: "StarknetRPC \<Rightarrow> PodMonitorSpec" where
  "getPodMonitorSpec cluster =
     \<lparr>pms_endpoints = [\<lparr>ep_port = Some ''monitoring'', ep_path = ''/metrics''\<rparr>],
      pms_match_labels = Some [(''rpc.runelabs.xyz/name'', rpc_name cluster)],
      pms_match_expressions = [],
      pms_match_names = [rpc_namespace cluster],
      pms_target_labels = [''runelabs.xyz/network'', ''rpc.runelabs.xyz/name'']\<rparr>"

definition default_labels :: "StarknetRPC \<Rightarrow> entries" where
  "default_labels cluster =
     [(''rpc.runelabs.xyz/type'', ''starknet''),
      (''rpc.runelabs.xyz/name'', rpc_name cluster),
      (''runelabs.xyz/network'', sp_network (rpc_spec cluster)),
      (''app.kubernetes.io/name'', ''starknet-rpc''),
      (''app.kubernetes.io/instance'', rpc_name cluster),
      (''app.kubernetes.io/managed-by'', ''starknet-operator'')]"

definition getPodMonitorLabels :: "StarknetRPC \<Rightarrow> entries" where
  "getPodMonitorLabels cluster =
    (let labels = default_labels cluster in
     case sp_pod_monitor (rpc_spec cluster) of
       None \<Rightarrow> labels
     | Some config \<Rightarrow>
         if pmc_labels config \<noteq> None then maps_copy labels (pmc_labels config) else labels)"

definition GetWantedPodMonitor :: "StarknetRPC \<Rightarrow> PodMonitor" where
  "GetWantedPodMonitor cluster =
    (let nameInfo = GetPodMonitorName cluster;
         labels = getPodMonitorLabels cluster in
     \<lparr>pm_meta =
       \<lparr>om_name = nn_name nameInfo, om_namespace = nn_namespace nameInfo, om_uid = '''',
        om_labels = Some labels, om_annotations = Some [],
        om_owners = [owner_ref ''pathfinder.runelabs.xyz/v1alpha1'' ''StarknetRPC'' cluster]\<rparr>,
      pm_spec = getPodMonitorSpec cluster\<rparr>)"

section \<open>Its reconciler\<close>

text \<open>A range over a map that compares each value with that of another map.\<close>

definition labels_match :: "entries \<Rightarrow> go_map \<Rightarrow> bool" where
  "labels_match expected current = (\<forall>(key, v) \<in> set expected. map_index current key = v)"

definition endpoint_up_to_date :: "PodMetricsEndpoint list \<Rightarrow> PodMetricsEndpoint list \<Rightarrow> bool outcome" where
  "endpoint_up_to_date current expected =
    (case (current, expected) of
       (cur # _, want # _) \<Rightarrow>
         outcome_bind (deref (ep_port cur)) (\<lambda>port.
         outcome_bind (deref (ep_port want)) (\<lambda>wanted_port.
           Ret (port = wanted_port \<and> ep_path cur = ep_path want)))
     | _ \<Rightarrow> Ret True)"

definition monitor_up_to_date :: "StarknetRPC \<Rightarrow> PodMonitor \<Rightarrow> bool outcome" where
  "monitor_up_to_date rpc podMonitor =
    (let expected = getPodMonitorSpec rpc;
         expectedLabels = getPodMonitorLabels rpc;
         current = pm_spec podMonitor in
     if \<not> labels_match expectedLabels (om_labels (pm_meta podMonitor)) then Ret False
     else if length (pms_endpoints current) \<noteq> length (pms_endpoints expected) then Ret False
     else
       outcome_bind (endpoint_up_to_date (pms_endpoints current) (pms_endpoints expected)) (\<lambda>same.
         if \<not> same then Ret False
         else if map_len (pms_match_labels current) \<noteq> map_len (pms_match_labels expected) then Ret False
         else if \<not> labels_match (map_entries (pms_match_labels expected)) (pms_match_labels current)
           then Ret False
         else if length (pms_match_expressions current) \<noteq> length (pms_match_expressions expected)
           then Ret False
         else Ret True))"

definition monitor_update :: "StarknetRPC \<Rightarrow> PodMonitor \<Rightarrow> PodMonitor" where
  "monitor_update rpc podMonitor =
    (let labels = map_entries (om_labels (pm_meta podMonitor)) in
     podMonitor\<lparr>pm_spec := getPodMonitorSpec rpc,
       pm_meta := (pm_meta podMonitor)\<lparr>om_labels := Some (maps_copy labels (Some (getPodMonitorLabels rpc)))\<rparr>\<rparr>)"

definition PodMonitorSpecReconciler :: "StarknetRPC \<Rightarrow> PodMonitor ObjectReconcilier" where
  "PodMonitorSpecReconciler rpc =
    \<lparr>orc_name = ''PodMonitorSpecReconciler'',
     orc_is_up_to_date = monitor_up_to_date rpc,
     orc_update = (\<lambda>podMonitor. Ret (None, monitor_update rpc podMonitor))\<rparr>"

section \<open>ReconcilePodMonitor\<close>

definition remove_monitor :: "'w client \<Rightarrow> StarknetRPC \<Rightarrow> ('w, step_result) act" where
  "remove_monitor k cluster =
     seq (Get (pod_monitors k) (GetPodMonitorName cluster)) (\<lambda>got.
       case got of
         Inr existing \<Rightarrow>
           seq (Delete (pod_monitors k) existing None) (\<lambda>err.
             case err of
               Some e \<Rightarrow> returns (None, Some (Wrapped ''failed to delete disabled PodMonitor'' (Api e)))
             | None \<Rightarrow>
                 seq (Event k ''Normal'' ''PodMonitorDeleted''
                       (''PodMonitor '' @ om_name (pm_meta existing) @ '' deleted as monitoring is disabled''))
                   (\<lambda>_. returns (Some empty_result, None)))
       | Inl _ \<Rightarrow> returns (Some empty_result, None))"

definition ensure_monitor :: "'w client \<Rightarrow> StarknetRPC \<Rightarrow> ('w, step_result) act" where
  "ensure_monitor k cluster =
    (let podMonitor = GetWantedPodMonitor cluster in
     seq (CreateOrReconcile (pod_monitors k) podMonitor [PodMonitorSpecReconciler cluster])
       (\<lambda>(created, err, podMonitor).
         case err of
           Some e \<Rightarrow> if IsNotFound e then returns (Some empty_result, None) else returns (None, Some e)
         | None \<Rightarrow>
             if created then
               seq (Event k ''Normal'' ''PodMonitorCreated''
                     (''PodMonitor '' @ om_name (pm_meta podMonitor) @ '' created for monitoring''))
                 (\<lambda>_. returns (Some empty_result, None))
             else returns (Some empty_result, None)))"

definition ReconcilePodMonitor :: "'w client \<Rightarrow> ('w, step_result) act" where
  "ReconcilePodMonitor k =
     seq read_cluster (\<lambda>cluster.
     if (case sp_pod_monitor (rpc_spec cluster) of None \<Rightarrow> True | Some config \<Rightarrow> \<not> pmc_enabled config)
     then remove_monitor k cluster
     else
       seq (Get (pods k) (GetPodName cluster)) (\<lambda>got.
         case got of
           Inl err \<Rightarrow>
             if err = NotFound then returns (Some empty_result, None) else returns (None, Some (Api err))
         | Inr _ \<Rightarrow> ensure_monitor k cluster))"

section \<open>The wanted monitor is up to date\<close>

interpretation pod_monitor: owned_object GetWantedPodMonitor pm_meta "''-podmonitor''"
  "\<lambda>_. ''pathfinder.runelabs.xyz/v1alpha1''" "\<lambda>_. ''StarknetRPC''"
  by unfold_locales (simp_all add: GetWantedPodMonitor_def GetPodMonitorName_def Let_def)

lemma GetWantedPodMonitor_key [simp]:
  "meta_key (pm_meta (GetWantedPodMonitor r)) = GetPodMonitorName r"
  by (simp add: pod_monitor.wanted_key GetPodMonitorName_def)

text \<open>
  What the test checks: the expected labels are among those of the monitor, and the part of
  the specification that is compared is the expected one.
\<close>

definition good_monitor :: "StarknetRPC \<Rightarrow> PodMonitor \<Rightarrow> bool" where
  "good_monitor rpc mon \<longleftrightarrow>
     labels_match (getPodMonitorLabels rpc) (om_labels (pm_meta mon)) \<and>
     pms_endpoints (pm_spec mon) = [\<lparr>ep_port = Some ''monitoring'', ep_path = ''/metrics''\<rparr>] \<and>
     map_len (pms_match_labels (pm_spec mon)) = 1 \<and>
     map_index (pms_match_labels (pm_spec mon)) ''rpc.runelabs.xyz/name'' = rpc_name rpc \<and>
     pms_match_expressions (pm_spec mon) = []"

lemma getPodMonitorSpec_sel [simp]:
  "pms_endpoints (getPodMonitorSpec rpc) = [\<lparr>ep_port = Some ''monitoring'', ep_path = ''/metrics''\<rparr>]"
  "pms_match_labels (getPodMonitorSpec rpc) = Some [(''rpc.runelabs.xyz/name'', rpc_name rpc)]"
  "pms_match_expressions (getPodMonitorSpec rpc) = []"
  by (simp_all add: getPodMonitorSpec_def)

lemma monitor_up_to_date_good:
  assumes "safe_monitor mon"
  shows "monitor_up_to_date rpc mon = Ret (good_monitor rpc mon)"
  using assms
  by (cases "pms_endpoints (pm_spec mon)")
    (auto simp: monitor_up_to_date_def good_monitor_def safe_monitor_def Let_def map_len_def
      endpoint_up_to_date_def labels_match_def)

text \<open>The resource as the API server stores it: no label is written twice.\<close>

definition wf_rpc :: "StarknetRPC \<Rightarrow> bool" where
  "wf_rpc rpc = (case sp_pod_monitor (rpc_spec rpc) of None \<Rightarrow> True | Some config \<Rightarrow> wf_map (pmc_labels config))"

lemma wf_default_labels: "wf_entries (default_labels rpc)"
  by (simp add: wf_entries_def default_labels_def)

lemma wf_getPodMonitorLabels: "wf_entries (getPodMonitorLabels rpc)"
  using wf_default_labels [of rpc]
  by (simp add: getPodMonitorLabels_def Let_def wf_maps_copy split: option.split)

lemma labels_match_copy:
  "wf_entries expected \<Longrightarrow> labels_match expected (Some (maps_copy dst (Some expected)))"
  by (auto simp: labels_match_def map_index_def map_of_maps_copy wf_map_def wf_entries_def
      map_add_def split: option.split)

lemma monitor_update_sel [simp]:
  "pm_spec (monitor_update rpc mon) = getPodMonitorSpec rpc"
  "om_labels (pm_meta (monitor_update rpc mon)) =
     Some (maps_copy (map_entries (om_labels (pm_meta mon))) (Some (getPodMonitorLabels rpc)))"
  by (simp_all add: monitor_update_def Let_def)

lemma monitor_update_meta_key [simp]: "meta_key (pm_meta (monitor_update rpc mon)) = meta_key (pm_meta mon)"
  by (simp add: monitor_update_def meta_key_def Let_def)

lemma monitor_update_good: "good_monitor rpc (monitor_update rpc mon)"
  by (simp add: good_monitor_def map_len_def map_index_def
      labels_match_copy wf_getPodMonitorLabels)

interpretation monitor_rec: object_reconciler "PodMonitorSpecReconciler rpc" safe_monitor
  "good_monitor rpc" "monitor_update rpc" pm_meta for rpc
  by unfold_locales
    (auto simp: PodMonitorSpecReconciler_def monitor_up_to_date_good monitor_update_good
      safe_monitor_def)

section \<open>The stage\<close>

lemma contract_remove_monitor:
  assumes "allows k {KindPod, KindPodMonitor} I P" "I x"
  shows "contract pn I P (remove_monitor k x) step_ok"
  unfolding remove_monitor_def
  by (intro contract_seq [OF contract_Get [where R = "\<lambda>r. \<forall>y. r = Inr y \<longrightarrow>
          lawful_keys k \<longrightarrow> meta_key (pm_meta y) = GetPodMonitorName x"]]
      contract_seq [OF contract_Delete [where R = "\<lambda>_. True"]]
      contract_seq [OF contract_Event [where R = "\<lambda>_. True"]] contract_cases contract_returns
      allows_request [OF assms(1) _ assms(2)];
      auto simp: step_ok_def lawful_keys_def dest: lawful_apiD(1))

lemma contract_ensure_monitor:
  assumes "allows k {KindPod, KindPodMonitor} I P" "I x"
  shows "contract (\<not> safe_server k) I P (ensure_monitor k x) step_ok"
  unfolding ensure_monitor_def Let_def
  by (intro contract_seq [OF monitor_rec.contract_reconcile [where R = "\<lambda>(b, err, y). err \<noteq> Some ErrNextLoop"]]
      contract_seq [OF contract_Event [where R = "\<lambda>_. True"]] contract_cases contract_returns
      allows_request [OF assms(1) _ assms(2)];
      auto simp: step_ok_def lawful_keys_def dest: safe_server_from(2))

lemma contract_ReconcilePodMonitor:
  assumes "allows k {KindPod, KindPodMonitor} I P"
  shows "contract (\<not> safe_server k) I P (ReconcilePodMonitor k) step_ok"
  unfolding ReconcilePodMonitor_def
  apply (rule contract_reading)
  subgoal premises I for x
    by (intro contract_seq [OF contract_Get [where R = "\<lambda>_. True"]] contract_cases contract_returns
        contract_remove_monitor [OF assms I] contract_ensure_monitor [OF assms I]
        allows_request [OF assms _ I]; simp add: step_ok_def)
  done

interpretation monitor_stage: stage k "ReconcilePodMonitor k" "{KindPod, KindPodMonitor}" "{}" for k
  by unfold_locales (auto intro: contract_ReconcilePodMonitor)

section \<open>Properties\<close>

text \<open>C28. A monitor that exists is brought up to date by one update, and only if it is out of
  date; what the update writes passes the test, so that the next reconciliation writes
  nothing. This needs the first endpoint of the stored monitor, if there is one, to name its
  port.\<close>

theorem monitor_converges:
  assumes "api_create (api_pod_monitors k) (GetWantedPodMonitor rpc) (world s) = (Inl AlreadyExists, w1)"
    and "api_get (api_pod_monitors k) (GetPodMonitorName rpc) w1 = (Inr mon, w2)"
    and "safe_monitor mon"
  shows "\<exists>up_to_date. monitor_up_to_date rpc mon = Ret up_to_date \<and>
    map call_req (calls (CreateOrReconcile (pod_monitors k) (GetWantedPodMonitor rpc) [PodMonitorSpecReconciler rpc]) s) =
      CreateReq (ObjPodMonitor (GetWantedPodMonitor rpc)) # GetReq KindPodMonitor (GetPodMonitorName rpc) #
      (if up_to_date then [] else [UpdateReq (ObjPodMonitor (monitor_update rpc mon))]) \<and>
    monitor_up_to_date rpc (monitor_update rpc mon) = Ret True"
proof -
  have "safe_monitor (monitor_update rpc mon)"
    by (rule monitor_rec.fix_up_safe [OF assms(3)])
  then have "monitor_up_to_date rpc (monitor_update rpc mon) = Ret True"
    using monitor_update_good by (simp add: monitor_up_to_date_good)
  then show ?thesis
    using monitor_rec.reconcile_existing [of "pod_monitors k" "GetWantedPodMonitor rpc" s w1 mon w2 rpc] assms
    by (simp add: monitor_up_to_date_good)
qed

text \<open>C29. A stored monitor passes the test exactly if its selector asks for the label of the
  name of the resource and nothing else, it scrapes only the port monitoring at /metrics, and
  every wanted label of it reads as wanted (one that is missing reads as empty); otherwise the test says no or, for an endpoint without a port,
  panics. The test counts the labels of the selector and looks up the wanted one, which is
  enough because the name of a resource is not empty.\<close>

theorem monitor_up_to_date_exact:
  assumes "wf_map (pms_match_labels (pm_spec mon))" and "rpc_name rpc \<noteq> ''''"
  shows "monitor_up_to_date rpc mon = Ret True \<longleftrightarrow>
    map_of (map_entries (pms_match_labels (pm_spec mon))) = [''rpc.runelabs.xyz/name'' \<mapsto> rpc_name rpc] \<and>
    pms_match_expressions (pm_spec mon) = [] \<and>
    pms_endpoints (pm_spec mon) = [\<lparr>ep_port = Some ''monitoring'', ep_path = ''/metrics''\<rparr>] \<and>
    (\<forall>(key, v) \<in> set (getPodMonitorLabels rpc). map_index (om_labels (pm_meta mon)) key = v)"
    (is "?test \<longleftrightarrow> ?spec")
proof -
  let ?es = "map_entries (pms_match_labels (pm_spec mon))"
  let ?ds = "[(''rpc.runelabs.xyz/name'', rpc_name rpc)]"
  have selector: "map_len (pms_match_labels (pm_spec mon)) = 1 \<and>
      map_index (pms_match_labels (pm_spec mon)) ''rpc.runelabs.xyz/name'' = rpc_name rpc \<longleftrightarrow> map_of ?es = map_of ?ds"
    using map_of_single_iff [of ?es "''rpc.runelabs.xyz/name''" "rpc_name rpc"] assms
    by (auto simp: wf_map_def map_len_def map_index_def split: option.splits)
  show ?thesis
  proof (cases "safe_monitor mon")
    case True
    then show ?thesis
      using selector by (auto simp: monitor_up_to_date_good good_monitor_def labels_match_def)
  next
    case False
    then obtain e es where e: "pms_endpoints (pm_spec mon) = e # es" "ep_port e = None"
      by (cases "pms_endpoints (pm_spec mon)") (auto simp: safe_monitor_def)
    then have "\<not> ?spec" by auto
    moreover have "monitor_up_to_date rpc mon \<noteq> Ret True"
      using e by (simp add: monitor_up_to_date_def Let_def endpoint_up_to_date_def)
    ultimately show ?thesis by blast
  qed
qed

text \<open>When monitoring is switched off, the stage reads the monitor and deletes the one it
  found; it reports the deletion as an event, and creates nothing.\<close>

theorem monitor_disabled:
  assumes "sp_pod_monitor (rpc_spec (the_rpc s)) = None \<or>
    (\<exists>config. sp_pod_monitor (rpc_spec (the_rpc s)) = Some config \<and> \<not> pmc_enabled config)"
  shows "(\<exists>e. calls (ReconcilePodMonitor k) s =
        [answered s (GetReq KindPodMonitor (GetPodMonitorName (the_rpc s))) (Failed e)] \<and>
        fst (ReconcilePodMonitor k s) = Ret (Some empty_result, None)) \<or>
     (\<exists>mon e. calls (ReconcilePodMonitor k) s =
        [answered s (GetReq KindPodMonitor (GetPodMonitorName (the_rpc s))) (Got (ObjPodMonitor mon)),
         answered s (DeleteReq KindPodMonitor (meta_key (pm_meta mon)) None) (Failed e)] \<and>
        fst (ReconcilePodMonitor k s) =
          Ret (None, Some (Wrapped ''failed to delete disabled PodMonitor'' (Api e)))) \<or>
     (\<exists>mon msg. calls (ReconcilePodMonitor k) s =
        [answered s (GetReq KindPodMonitor (GetPodMonitorName (the_rpc s))) (Got (ObjPodMonitor mon)),
         answered s (DeleteReq KindPodMonitor (meta_key (pm_meta mon)) None) Done,
         answered s (EventReq ''Normal'' ''PodMonitorDeleted'' msg) Done] \<and>
        fst (ReconcilePodMonitor k s) = Ret (Some empty_result, None))"
proof -
  have "talk (remove_monitor k x) s (\<lambda>r l s'.
     (\<exists>e. l = [answered s (GetReq KindPodMonitor (GetPodMonitorName x)) (Failed e)] \<and>
        r = Ret (Some empty_result, None)) \<or>
     (\<exists>mon e. l = [answered s (GetReq KindPodMonitor (GetPodMonitorName x)) (Got (ObjPodMonitor mon)),
         answered s (DeleteReq KindPodMonitor (meta_key (pm_meta mon)) None) (Failed e)] \<and>
        r = Ret (None, Some (Wrapped ''failed to delete disabled PodMonitor'' (Api e)))) \<or>
     (\<exists>mon msg. l = [answered s (GetReq KindPodMonitor (GetPodMonitorName x)) (Got (ObjPodMonitor mon)),
         answered s (DeleteReq KindPodMonitor (meta_key (pm_meta mon)) None) Done,
         answered s (EventReq ''Normal'' ''PodMonitorDeleted'' msg) Done] \<and>
        r = Ret (Some empty_result, None)))" for x
    by (auto simp: talk_def remove_monitor_def wp answered_def split: prod.split sum.split option.split)
  from talk_calls [OF this] have remove: "?thesis" if "ReconcilePodMonitor k s = remove_monitor k (the_rpc s) s"
    using that by (simp add: calls_def)
  show ?thesis
    by (rule remove) (use assms in \<open>auto simp: ReconcilePodMonitor_def seq_run\<close>)
qed

text \<open>A monitor is created only when monitoring is switched on and the pod of the resource
  was read just before; it is the wanted one.\<close>

theorem monitor_needs_pod:
  assumes "c \<in> set (calls (ReconcilePodMonitor k) s)" and "call_req c = CreateReq x"
  shows "(\<exists>config. sp_pod_monitor (rpc_spec (the_rpc s)) = Some config \<and> pmc_enabled config) \<and>
    x = ObjPodMonitor (GetWantedPodMonitor (the_rpc s)) \<and>
    (\<exists>pod rest. calls (ReconcilePodMonitor k) s =
       answered s (GetReq KindPod (GetPodName (the_rpc s))) (Got (ObjPod pod)) # rest)"
proof -
  have ensure: "talk (ensure_monitor k y) s (\<lambda>r l s'. \<forall>c \<in> set l. \<forall>x. call_req c = CreateReq x \<longrightarrow>
      x = ObjPodMonitor (GetWantedPodMonitor y))" for y s
    unfolding ensure_monitor_def Let_def
    by (rule talk_seq [OF CreateOrReconcile_talk])
      (auto simp: talk_def wp split: option.split simp del: run_reconcilers.simps)
  have remove: "talk (remove_monitor k y) s (\<lambda>r l s'. \<forall>c \<in> set l. \<forall>x. call_req c \<noteq> CreateReq x)" for y s
    by (auto simp: talk_def remove_monitor_def wp split: prod.split sum.split option.split)
  have "talk (ReconcilePodMonitor k) s (\<lambda>r l s'. \<forall>c \<in> set l. \<forall>x. call_req c = CreateReq x \<longrightarrow>
    (\<exists>config. sp_pod_monitor (rpc_spec (the_rpc s)) = Some config \<and> pmc_enabled config) \<and>
    x = ObjPodMonitor (GetWantedPodMonitor (the_rpc s)) \<and>
    (\<exists>pod rest. l = answered s (GetReq KindPod (GetPodName (the_rpc s))) (Got (ObjPod pod)) # rest))"
    unfolding ReconcilePodMonitor_def talk_def
    by (auto simp: wp answered_def split: prod.split sum.split option.split
        intro!: talk_wp [OF ensure] talk_wp [OF remove])
  from talk_calls [OF this] assms show ?thesis by blast
qed

text \<open>The labels of the monitor are the default ones, overridden and extended by the custom
  labels of the resource: a custom label may also replace the name or the network.\<close>

theorem custom_labels_override:
  assumes "wf_rpc rpc"
  shows "map_of (getPodMonitorLabels rpc) = map_of (default_labels rpc) ++
    (case sp_pod_monitor (rpc_spec rpc) of None \<Rightarrow> Map.empty | Some config \<Rightarrow> map_of (map_entries (pmc_labels config)))"
  using assms
  by (auto simp: getPodMonitorLabels_def Let_def wf_rpc_def map_of_maps_copy split: option.split)

text \<open>C38. A label that is no longer wanted is not removed: neither does the test notice it nor
  does the update touch it.\<close>

theorem stale_label_stays:
  assumes "wf_map (om_labels (pm_meta mon))"
    and "map_of (getPodMonitorLabels rpc) key = None"
    and "map_of (map_entries (om_labels (pm_meta mon))) key = Some v"
  shows "map_index (om_labels (pm_meta (monitor_update rpc mon))) key = v \<and>
    monitor_up_to_date rpc mon = monitor_up_to_date rpc (mon\<lparr>pm_meta := (pm_meta mon)\<lparr>om_labels :=
      Some (filter (\<lambda>e. fst e \<noteq> key) (map_entries (om_labels (pm_meta mon))))\<rparr>\<rparr>)"
proof -
  have other: "map_index (Some (filter (\<lambda>e. fst e \<noteq> key) (map_entries m))) key' = map_index m key'"
    if "key' \<noteq> key" for key' m
  proof -
    have "map_of (filter (\<lambda>e. fst e \<noteq> key) es) key' = map_of es key'" for es :: entries
      using that by (induction es) auto
    then show ?thesis by (simp add: map_index_def)
  qed
  have "labels_match (getPodMonitorLabels rpc) (Some (filter (\<lambda>e. fst e \<noteq> key) (map_entries m))) =
      labels_match (getPodMonitorLabels rpc) m" for m
  proof -
    have "fst e \<noteq> key" if "e \<in> set (getPodMonitorLabels rpc)" for e
      using assms(2) that by (force simp: map_of_eq_None_iff)
    then show ?thesis
      unfolding labels_match_def by (intro ball_cong refl) (simp add: other split_beta)
  qed
  then show ?thesis
    using assms wf_getPodMonitorLabels [of rpc]
    by (simp add: monitor_up_to_date_def Let_def map_index_def map_of_maps_copy wf_map_def map_add_def)
qed

text \<open>What the documentation of the PodMonitor promises: it selects the pods of the namespaces
  it names that have every label of its selector.\<close>

definition selects :: "PodMonitor \<Rightarrow> Pod \<Rightarrow> bool" where
  "selects mon pod \<longleftrightarrow> om_namespace (pod_meta pod) \<in> set (pms_match_names (pm_spec mon)) \<and>
     pms_match_expressions (pm_spec mon) = [] \<and>
     list_all (\<lambda>(key, v). map_of (map_entries (om_labels (pod_meta pod))) key = Some v)
       (map_entries (pms_match_labels (pm_spec mon)))"

text \<open>C37. The wanted monitor of a resource selects the wanted pod of that resource and, of the
  wanted pods of all resources, no other one. It scrapes one endpoint, whose port the container
  of the pod declares by name, and the labels it hands on to the metrics are labels of the pod.\<close>

theorem monitor_selects_pod:
  "(selects (GetWantedPodMonitor rpc) (GetWantedPod rpc') \<longleftrightarrow> meta_key (rpc_meta rpc') = meta_key (rpc_meta rpc)) \<and>
   (\<exists>ep port. pms_endpoints (pm_spec (GetWantedPodMonitor rpc)) = [ep] \<and> ep_port ep = Some port \<and>
     port \<in> cp_name ` set (concat (map ct_ports (ps_containers (pod_spec (GetWantedPod rpc)))))) \<and>
   pms_target_labels (pm_spec (GetWantedPodMonitor rpc)) \<noteq> [] \<and>
   set (pms_target_labels (pm_spec (GetWantedPodMonitor rpc))) \<subseteq>
     fst ` set (map_entries (om_labels (pod_meta (GetWantedPod rpc))))"
  by (auto simp: selects_def GetWantedPodMonitor_def getPodMonitorSpec_def GetWantedPod_def GetPodName_def
      meta_key_def Let_def)

text \<open>C39. When monitoring is enabled, the pod of the resource exists, and there is a monitor
  with the wanted labels whose only endpoint does not name its port, as the API allows, the
  stage panics: the comparison dereferences the port.\<close>

theorem monitor_nil_port_panics:
  assumes "sp_pod_monitor (rpc_spec (the_rpc s)) = Some config" and "pmc_enabled config"
    and "api_get (api_pods k) (GetPodName (the_rpc s)) (world s) = (Inr pod, w)"
    and "api_create (api_pod_monitors k) (GetWantedPodMonitor (the_rpc s)) w = (Inl AlreadyExists, w1)"
    and "api_get (api_pod_monitors k) (GetPodMonitorName (the_rpc s)) w1 = (Inr mon, w2)"
    and "labels_match (getPodMonitorLabels (the_rpc s)) (om_labels (pm_meta mon))"
    and "pms_endpoints (pm_spec mon) = [e]" and "ep_port e = None"
  shows "fst (ReconcilePodMonitor k s) = Panicked ''nil pointer dereference''"
proof -
  have "monitor_up_to_date (the_rpc s) mon = Panicked ''nil pointer dereference''"
    using assms(6-8) by (simp add: monitor_up_to_date_def Let_def endpoint_up_to_date_def)
  then show ?thesis
    using assms(1-5)
    by (simp add: ReconcilePodMonitor_def read_cluster_def ensure_monitor_def CreateOrReconcile_def
        PodMonitorSpecReconciler_def seq_def Create_def Get_def pure_def Let_def)
qed

section \<open>Witnesses\<close>

definition plain_monitor :: PodMonitor where
  "plain_monitor = (GetWantedPodMonitor sample_rpc)\<lparr>pm_meta :=
     (pm_meta (GetWantedPodMonitor sample_rpc))\<lparr>om_labels := Some [(''team'', ''a'')]\<rparr>\<rparr>"

definition monitor_mem :: "PodMonitor \<Rightarrow> mem" where
  "monitor_mem mon = (pod_mem running_pod)\<lparr>m_monitors := (m_monitors empty_mem)
     (GetPodMonitorName sample_rpc := Some mon)\<rparr>"

lemma monitor_mem_api:
  assumes "meta_key (pm_meta mon) = GetPodMonitorName sample_rpc"
  shows "api_create (api_pod_monitors mem_client) (GetWantedPodMonitor sample_rpc) (monitor_mem mon) =
      (Inl AlreadyExists, monitor_mem mon)"
    and "api_get (api_pod_monitors mem_client) (GetPodMonitorName sample_rpc) (monitor_mem mon) =
      (Inr mon, monitor_mem mon)"
  using assms by (simp_all add: monitor_mem_def)

lemma plain_monitor_key [simp]: "meta_key (pm_meta plain_monitor) = GetPodMonitorName sample_rpc"
  using GetWantedPodMonitor_key [of sample_rpc] by (simp add: plain_monitor_def meta_key_def)

lemma plain_monitor_safe [simp]: "safe_monitor plain_monitor"
  by (simp add: plain_monitor_def safe_monitor_def GetWantedPodMonitor_def Let_def)

theorem monitor_converges_witness:
  "map call_req (calls (CreateOrReconcile (pod_monitors mem_client) (GetWantedPodMonitor sample_rpc)
      [PodMonitorSpecReconciler sample_rpc]) (run_from (monitor_mem plain_monitor) sample_rpc)) =
   [CreateReq (ObjPodMonitor (GetWantedPodMonitor sample_rpc)), GetReq KindPodMonitor (GetPodMonitorName sample_rpc),
    UpdateReq (ObjPodMonitor (monitor_update sample_rpc plain_monitor))]"
proof -
  have "monitor_up_to_date sample_rpc plain_monitor = Ret False"
    by code_simp
  then show ?thesis
    using monitor_converges [where s = "run_from (monitor_mem plain_monitor) sample_rpc", unfolded run_from_sel,
        OF monitor_mem_api [OF plain_monitor_key] plain_monitor_safe] by auto
qed

theorem monitor_up_to_date_exact_witness:
  "monitor_up_to_date sample_rpc (GetWantedPodMonitor sample_rpc) = Ret True \<and>
   map_of (map_entries (pms_match_labels (pm_spec (GetWantedPodMonitor sample_rpc)))) =
     [''rpc.runelabs.xyz/name'' \<mapsto> ''node'']"
proof -
  have "monitor_up_to_date sample_rpc (GetWantedPodMonitor sample_rpc) = Ret True"
    by code_simp
  moreover have "wf_map (pms_match_labels (pm_spec (GetWantedPodMonitor sample_rpc)))"
    by (simp add: GetWantedPodMonitor_def Let_def wf_map_def wf_entries_def)
  ultimately show ?thesis
    using monitor_up_to_date_exact [of "GetWantedPodMonitor sample_rpc" sample_rpc] by simp
qed

definition unmonitored_rpc :: StarknetRPC where
  "unmonitored_rpc = sample_rpc\<lparr>rpc_spec := (rpc_spec sample_rpc)\<lparr>sp_pod_monitor := None\<rparr>\<rparr>"

theorem monitor_disabled_witness:
  "sp_pod_monitor (rpc_spec unmonitored_rpc) = None \<and>
   calls (ReconcilePodMonitor mem_client) (run_from (monitor_mem plain_monitor) unmonitored_rpc) \<noteq> []"
proof -
  have "sp_pod_monitor (rpc_spec unmonitored_rpc) = None"
    by (simp add: unmonitored_rpc_def)
  then show ?thesis
    using monitor_disabled [of "run_from (monitor_mem plain_monitor) unmonitored_rpc" mem_client] by auto
qed

theorem monitor_needs_pod_witness:
  "\<exists>c x. c \<in> set (calls (ReconcilePodMonitor mem_client) (run_from (monitor_mem plain_monitor) sample_rpc)) \<and>
     call_req c = CreateReq x \<and> x = ObjPodMonitor (GetWantedPodMonitor sample_rpc)"
proof -
  let ?l = "calls (ReconcilePodMonitor mem_client) (run_from (monitor_mem plain_monitor) sample_rpc)"
  have "1 < length ?l \<and> (case call_req (?l ! 1) of CreateReq x \<Rightarrow> True | _ \<Rightarrow> False)"
    by code_simp
  then obtain x where "?l ! 1 \<in> set ?l" "call_req (?l ! 1) = CreateReq x"
    by (auto split: Request.splits)
  with monitor_needs_pod [OF this] show ?thesis by auto
qed

theorem custom_labels_override_witness:
  "map_of (getPodMonitorLabels (sample_rpc\<lparr>rpc_spec := (rpc_spec sample_rpc)\<lparr>sp_pod_monitor :=
     Some \<lparr>pmc_enabled = True, pmc_labels = Some [(''runelabs.xyz/network'', ''x'')]\<rparr>\<rparr>\<rparr>))
     ''runelabs.xyz/network'' = Some ''x''"
  by (subst custom_labels_override) (simp_all add: wf_rpc_def wf_map_def wf_entries_def)

theorem stale_label_stays_witness:
  "map_index (om_labels (pm_meta (monitor_update sample_rpc plain_monitor))) ''team'' = ''a''"
proof -
  have "wf_map (om_labels (pm_meta plain_monitor))"
    "map_of (map_entries (om_labels (pm_meta plain_monitor))) ''team'' = Some ''a''"
    by (simp_all add: plain_monitor_def wf_map_def wf_entries_def)
  moreover have "map_of (getPodMonitorLabels sample_rpc) ''team'' = None"
    by code_simp
  ultimately show ?thesis
    using stale_label_stays [of plain_monitor sample_rpc "''team''" "''a''"] by blast
qed

definition portless_monitor :: PodMonitor where
  "portless_monitor = (GetWantedPodMonitor sample_rpc)\<lparr>pm_spec :=
     (getPodMonitorSpec sample_rpc)\<lparr>pms_endpoints := [\<lparr>ep_port = None, ep_path = ''/metrics''\<rparr>]\<rparr>\<rparr>"

theorem monitor_nil_port_panics_witness:
  "fst (ReconcilePodMonitor mem_client (run_from (monitor_mem portless_monitor) sample_rpc)) =
     Panicked ''nil pointer dereference''"
proof -
  have "labels_match (getPodMonitorLabels sample_rpc) (om_labels (pm_meta portless_monitor))"
    by code_simp
  moreover have key: "meta_key (pm_meta portless_monitor) = GetPodMonitorName sample_rpc"
    using GetWantedPodMonitor_key [of sample_rpc] by (simp add: portless_monitor_def)
  moreover have "pms_endpoints (pm_spec portless_monitor) = [\<lparr>ep_port = None, ep_path = ''/metrics''\<rparr>]"
    by (simp add: portless_monitor_def)
  moreover have "sp_pod_monitor (rpc_spec sample_rpc) = Some \<lparr>pmc_enabled = True, pmc_labels = None\<rparr>"
    by (simp add: sample_rpc_def)
  moreover have "api_get (api_pods mem_client) (GetPodName sample_rpc) (monitor_mem portless_monitor) =
      (Inr running_pod, monitor_mem portless_monitor)"
    by (simp add: monitor_mem_def pod_mem_def running_pod_def)
  ultimately show ?thesis
    using monitor_nil_port_panics [where s = "run_from (monitor_mem portless_monitor) sample_rpc",
        unfolded run_from_sel, OF _ _ _ monitor_mem_api [OF key]] by simp
qed

end
