(* ===== verification/Controller.thy ===== *)
theory Controller
  imports Archive_Restore Pod_Monitor
begin

text \<open>
  internal/controller/starknetrpc_controller.go: one reconciliation of a StarknetRPC, and
  the kinds of objects whose changes start one.
\<close>

section \<open>Reconcile\<close>

text \<open>\<open>&pathfinderv1alpha1.StarknetRPC{}\<close>.\<close>

definition zero_rpc :: StarknetRPC where
  "zero_rpc =
    \<lparr>rpc_type = \<lparr>tm_api_version = '''', tm_kind = ''''\<rparr>,
     rpc_meta = \<lparr>om_name = '''', om_namespace = '''', om_uid = '''',
                 om_labels = None, om_annotations = None, om_owners = []\<rparr>,
     rpc_spec =
      \<lparr>sp_network = '''',
       sp_restore_archive =
        \<lparr>as_enable = None, as_file_name = '''', as_checksum = '''', as_rsync_config = None,
         as_restore_image = None, as_storage = \<lparr>st_size = ''0'', st_class = ''''\<rparr>\<rparr>,
       sp_resources = no_resources, sp_image = None,
       sp_storage = \<lparr>st_size = ''0'', st_class = ''''\<rparr>, sp_tolerations = [],
       sp_layer1_rpc_secret = \<lparr>sks_name = '''', sks_key = '''', sks_optional = None\<rparr>,
       sp_pod_monitor = None\<rparr>,
     rpc_status = \<lparr>ss_conditions = None\<rparr>\<rparr>"

text \<open>\<open>return ctrl.Result{}, err\<close>.\<close>

definition give_up :: "GoError \<Rightarrow> ('w, Result \<times> GoError option) act" where
  "give_up e = returns (empty_result, Some e)"

text \<open>Lines 111 to 136: the restore is done.\<close>

definition reconcile_restored :: "'w client \<Rightarrow> ('w, Result \<times> GoError option) act" where
  "reconcile_restored k =
     seq (ReconcilePod k) (\<lambda>res. after_step res give_up
       (seq (ReconcilePodMonitor k) (\<lambda>res. after_step res
         (\<lambda>_. returns (empty_result, None))
         (returns (empty_result, None)))))"

text \<open>Lines 78 to 136: the resource has been read.\<close>

definition reconcile_fetched :: "'w client \<Rightarrow> ('w, Result \<times> GoError option) act" where
  "reconcile_fetched k =
     seq (Initialize k) (\<lambda>err. case err of
       Some e \<Rightarrow> returns (empty_result, Some e)
     | None \<Rightarrow>
         seq (ReconcilePvc k) (\<lambda>res. after_step res give_up
           (seq (ReconcileArchiveRestore k) (\<lambda>res. after_step res give_up
             (seq read_cluster (\<lambda>rpc.
               if \<not> is_status_condition_true k (conditions rpc) ''Restore''
               then returns (after (30 * Second), None)
               else reconcile_restored k))))))"

definition Reconcile :: "'w client \<Rightarrow> NamespacedName \<Rightarrow> ('w, Result \<times> GoError option) act" where
  "Reconcile k req =
     seq (modify_cluster (\<lambda>_ _. zero_rpc)) (\<lambda>_.
     seq (GetRpc k req) (\<lambda>err. case err of
       Some e \<Rightarrow> returns (empty_result, if e = NotFound then None else Some (Api e))
     | None \<Rightarrow> reconcile_fetched k))"

text \<open>
  \<open>SetupWithManager\<close>: the kind that is reconciled and the kinds whose owner is; the scheme
  recognizes PodMonitors when the Prometheus Operator's types were registered.
\<close>

definition SetupWithManager :: "bool \<Rightarrow> Kind \<times> Kind list" where
  "SetupWithManager recognizes_pod_monitor =
     (KindRpc, [KindPod, KindJob, KindPvc] @ (if recognizes_pod_monitor then [KindPodMonitor] else []))"

section \<open>Composing the stages\<close>

definition all_transitions :: "'w client \<Rightarrow> 'w StateTransition set" where
  "all_transitions k =
     init_marks k \<union> pvc_marks k \<union> restore_marks k \<union> pod_marks k"

definition restored :: "'w client \<Rightarrow> StarknetRPC \<Rightarrow> bool" where
  "restored k c = is_status_condition_true k (conditions c) ''Restore''"

text \<open>What \<open>Reconcile\<close> may return: anything but the sentinel of the stages.\<close>

definition outcome_ok :: "Result \<times> GoError option \<Rightarrow> bool" where
  "outcome_ok res = (snd res \<noteq> Some ErrNextLoop)"

lemma outcome_ok_None [simp]: "outcome_ok (r, None)"
  by (simp add: outcome_ok_def)

lemma contract_give_up: "e \<noteq> ErrNextLoop \<Longrightarrow> contract pn I P (give_up e) outcome_ok"
  unfolding give_up_def by (rule contract_returns) (simp add: outcome_ok_def)

lemma contract_Initialize:
  assumes "keeps k T I" "init_marks k \<subseteq> T"
    and "allows k Ks I P"
  shows "contract pn I P (Initialize k) (\<lambda>err. err \<noteq> Some ErrNextLoop)"
  unfolding Initialize_def
  by (rule contract_reading)
    (intro contract_cases contract_returns contract_SetPhases [OF assms(1)] allows_status [OF assms(3)];
     use assms(2) in auto)

lemma contract_reconcile_restored:
  assumes "keeps k (pod_marks k) J" "allows k {KindPod, KindPodMonitor} J P"
  shows "contract (\<not> safe_server k) J P (reconcile_restored k) outcome_ok"
  unfolding reconcile_restored_def
proof (rule pod_stage.step [OF assms(1) _ _ contract_give_up])
  show "allows k {KindPod} J P"
    using assms(2) by (rule allows_subset) simp
  show "contract (\<not> safe_server k) J P (seq (ReconcilePodMonitor k) (\<lambda>res. after_step res
      (\<lambda>_. returns (empty_result, None)) (returns (empty_result, None)))) outcome_ok"
    by (rule monitor_stage.step [OF keeps_subset [OF assms(1)] assms(2)])
      (auto intro: contract_returns)
qed auto

text \<open>
  One reconciliation, for a property \<open>I\<close> of the resource that all transitions keep: the
  first two stages start from \<open>I\<close>, the last two from a property \<open>J\<close> that holds once the
  restore is done.
\<close>

lemma contract_reconcile_fetched:
  assumes keeps: "keeps k (all_transitions k) I" and P: "allows k {KindPvc, KindJob} I P"
    and J: "keeps k (pod_marks k) J" "allows k {KindPod, KindPodMonitor} J P"
      "\<And>c. I c \<Longrightarrow> restored k c \<Longrightarrow> J c" "\<And>c. J c \<Longrightarrow> I c"
  shows "contract (\<not> safe_server k) I P (reconcile_fetched k) outcome_ok"
proof -
  have sub: "pvc_marks k \<subseteq> all_transitions k" "restore_marks k \<subseteq> all_transitions k"
    "init_marks k \<subseteq> all_transitions k"
    by (auto simp: all_transitions_def)
  have gate: "contract (\<not> safe_server k) I P (seq read_cluster (\<lambda>rpc.
      if \<not> is_status_condition_true k (conditions rpc) ''Restore'' then returns (after (30 * Second), None)
      else reconcile_restored k)) outcome_ok" (is "contract _ _ _ ?gate _")
  proof -
    have "?gate = seq read_cluster (\<lambda>c. if restored k c then reconcile_restored k
        else returns (after (30 * Second), None))"
      by (intro arg_cong [where f = "seq read_cluster"] ext) (simp add: restored_def)
    moreover have "contract (\<not> safe_server k) I P \<dots> outcome_ok"
      by (rule contract_guard [OF contract_reconcile_restored [OF J(1,2)] contract_returns J(3,4)]) simp_all
    ultimately show ?thesis by simp
  qed
  have restore: "contract (\<not> safe_server k) I P
      (seq (ReconcileArchiveRestore k) (\<lambda>res. after_step res give_up ?gate)) outcome_ok"
    by (rule restore_stage.step [OF keeps_subset [OF keeps sub(2)] P gate contract_give_up]) auto
  have pvc: "contract (\<not> safe_server k) I P (seq (ReconcilePvc k) (\<lambda>res. after_step res give_up
      (seq (ReconcileArchiveRestore k) (\<lambda>res. after_step res give_up ?gate)))) outcome_ok"
    by (rule pvc_stage.step [OF keeps_subset [OF keeps sub(1)] allows_subset [OF P] restore
          contract_give_up]) auto
  show ?thesis
    unfolding reconcile_fetched_def
    by (intro contract_seq [OF contract_Initialize [OF keeps sub(3) P]] contract_cases contract_returns pvc)
      (simp add: outcome_ok_def)
qed

lemma keeps_restored_value:
  assumes "lawful_conditions k" "lawful_status_update k"
  shows "keeps k (pod_marks k) (\<lambda>c. restored k c = b)"
proof -
  have "restored k (AvailableStatus_Apply k p w c) = restored k c" for p w c
    using assms(1) by (simp add: restored_def AvailableStatus_Apply_def lawful_conditions_true
        available.as_type condition_type_defs)
  then show ?thesis
    using assms by (auto simp: keeps_def pod_marks_def restored_def conditions_def dest: lawful_status_updateD(2))
qed

lemma keeps_restored:
  "lawful_conditions k \<Longrightarrow> lawful_status_update k \<Longrightarrow> keeps k (pod_marks k) (restored k)"
  using keeps_restored_value [of k True] by simp

lemma Reconcile_run:
  "Reconcile k req s = (case api_rpc_get k req (world s) of
     (Inl e, w) \<Rightarrow> (Ret (empty_result, if e = NotFound then None else Some (Api e)),
        log_call (GetReq KindRpc req) (Failed e) (s\<lparr>world := w, the_rpc := zero_rpc\<rparr>))
   | (Inr r, w) \<Rightarrow> reconcile_fetched k
        ((log_call (GetReq KindRpc req) (Got (ObjRpc r)) (s\<lparr>world := w, the_rpc := zero_rpc\<rparr>))\<lparr>the_rpc := r\<rparr>))"
  by (simp add: Reconcile_def seq_def modify_cluster_def GetRpc_def returns_def log_call_def
      split: prod.split sum.split)

section \<open>What makes the Restore condition change\<close>

text \<open>The server has created the claim of the database of resource \<open>r\<close>.\<close>

definition claim_created :: "StarknetRPC \<Rightarrow> Call \<Rightarrow> bool" where
  "claim_created r c \<longleftrightarrow> (\<exists>x y. call_req c = CreateReq (ObjPvc x) \<and> call_reply c = Got (ObjPvc y) \<and>
     meta_key (pvc_meta x) = GetStoragePvcName r)"

text \<open>
  \<open>explained k r l a b\<close>: when the shared copy goes from \<open>a\<close> to \<open>b\<close> while the calls \<open>l\<close>
  are made, the Restore condition becomes true only if the job of \<open>r\<close> was seen to succeed or
  the restore is switched off, and stops being true only if the claim was created. The same
  holds at every call in between.
\<close>

abbreviation switched_off :: "StarknetRPC \<Rightarrow> bool" where
  "switched_off r \<equiv> as_enable (sp_restore_archive (rpc_spec r)) = Some False"

definition explained :: "'w client \<Rightarrow> StarknetRPC \<Rightarrow> Call list \<Rightarrow> StarknetRPC \<Rightarrow> StarknetRPC \<Rightarrow> bool" where
  "explained k r l a b \<longleftrightarrow> justified k r (restored k a \<or> switched_off r) l \<and>
     (restored k b \<longrightarrow> restored k a \<or> switched_off r \<or>
        (\<exists>c \<in> set l. job_success r c)) \<and>
     (restored k a \<longrightarrow> restored k b \<or> (\<exists>c \<in> set l. claim_created r c))"

lemma explained_refl:
  "restored k a = restored k b \<Longrightarrow> justified k r (restored k a \<or> switched_off r) l \<Longrightarrow> explained k r l a b"
  by (simp add: explained_def)

lemma explained_trans:
  assumes "explained k r l a b" "explained k r l' b c"
  shows "explained k r (l @ l') a c"
proof -
  have "justified k r ((restored k a \<or> switched_off r) \<or> (\<exists>c \<in> set l. job_success r c)) l'"
    using assms by (auto simp: explained_def elim!: justified_mono)
  with assms show ?thesis by (auto simp: explained_def justified_append)
qed

section \<open>Ledgers\<close>

text \<open>
  \<open>tracks I R m\<close>: the action keeps \<open>I\<close>, and its calls account for what it does to the shared
  copy, as the relation \<open>R\<close> says. A relation that composes along the calls is a ledger; it is
  enough to know that each stage keeps it.
\<close>

definition tracks :: "(StarknetRPC \<Rightarrow> bool) \<Rightarrow> (Call list \<Rightarrow> StarknetRPC \<Rightarrow> StarknetRPC \<Rightarrow> bool) \<Rightarrow>
    ('w, 'a) act \<Rightarrow> bool" where
  "tracks I R m \<longleftrightarrow> (\<forall>s. I (the_rpc s) \<longrightarrow> talk m s (\<lambda>_ l s'. I (the_rpc s') \<and> R l (the_rpc s) (the_rpc s')))"

lemma tracks_contract:
  assumes "contract pn I P m Q"
    and "\<And>s. I (the_rpc s) \<Longrightarrow> talk m s (\<lambda>_ l s'. R l (the_rpc s) (the_rpc s'))"
  shows "tracks I R m"
  unfolding tracks_def
  by (auto intro: talk_mono [OF talk_conj [OF contract_talk [OF assms(1)] assms(2)]])

locale ledger =
  fixes I :: "StarknetRPC \<Rightarrow> bool" and R :: "Call list \<Rightarrow> StarknetRPC \<Rightarrow> StarknetRPC \<Rightarrow> bool"
  assumes still: "R [] a a"
    and compose: "R l a b \<Longrightarrow> R l' b c \<Longrightarrow> R (l @ l') a c"
begin

lemma tracks_seq:
  assumes "tracks I R m" and "\<And>x. tracks I R (f x)"
  shows "tracks I R (seq m f)"
  unfolding tracks_def
proof (intro allI impI)
  fix s :: "'a run_state"
  assume "I (the_rpc s)"
  with assms(1) have "talk m s (\<lambda>_ l s'. I (the_rpc s') \<and> R l (the_rpc s) (the_rpc s'))"
    by (simp add: tracks_def)
  then show "talk (seq m f) s (\<lambda>_ l s'. I (the_rpc s') \<and> R l (the_rpc s) (the_rpc s'))"
  proof (rule talk_seq)
    fix x l and s' :: "'a run_state"
    assume first: "I (the_rpc s') \<and> R l (the_rpc s) (the_rpc s')"
    with assms(2) have "talk (f x) s' (\<lambda>_ l' s''. I (the_rpc s'') \<and> R l' (the_rpc s') (the_rpc s''))"
      by (simp add: tracks_def)
    then show "talk (f x) s' (\<lambda>_ l' s''. I (the_rpc s'') \<and> R (l @ l') (the_rpc s) (the_rpc s''))"
      by (rule talk_mono) (use first in \<open>auto intro: compose\<close>)
  qed simp
qed

lemma tracks_still:
  "tracks I R (returns x)" "tracks I R (pure q)" "tracks I R read_cluster"
  by (auto simp: tracks_def talk_def wp still)

lemma tracks_cases:
  "tracks I R m \<Longrightarrow> tracks I R m' \<Longrightarrow> tracks I R (if b then m else m')"
  "tracks I R m \<Longrightarrow> (\<And>x. tracks I R (f x)) \<Longrightarrow> tracks I R (case q of None \<Rightarrow> m | Some x \<Rightarrow> f x)"
  by (auto split: option.split)

lemma tracks_after_step:
  "tracks I R continue \<Longrightarrow> (\<And>e. tracks I R (on_error e)) \<Longrightarrow> tracks I R (after_step step on_error continue)"
  unfolding after_step_def
  by (cases step) (auto intro!: tracks_seq tracks_still tracks_cases)

lemma tracks_fetched:
  assumes "tracks I R (Initialize k)" "tracks I R (ReconcilePvc k)" "tracks I R (ReconcileArchiveRestore k)"
    and "tracks I R (reconcile_restored k)"
  shows "tracks I R (reconcile_fetched k)"
  unfolding reconcile_fetched_def give_up_def
  by (intro tracks_seq tracks_cases tracks_after_step tracks_still assms)

end

interpretation explained: ledger "same_resource r" "explained k r" for k r
  by unfold_locales (simp add: explained_refl, rule explained_trans)

lemma tracked_restored:
  assumes "lawful_conditions k" "lawful_status_update k"
  shows "tracks (same_resource r) (explained k r) (reconcile_restored k)"
  unfolding tracks_def
proof (intro allI impI)
  fix s :: "'a run_state"
  assume same: "same_resource r (the_rpc s)"
  define b where "b = restored k (the_rpc s)"
  define P :: "Call \<Rightarrow> bool" where "P c \<longleftrightarrow> restored k (call_cluster c) = b" for c
  have keeps: "keeps k (pod_marks k) (\<lambda>c. same_resource r c \<and> restored k c = b)"
    by (intro keeps_conj keeps_restored_value [OF assms] keeps_same_resource [OF assms(2)]) auto
  have allows: "allows k {KindPod, KindPodMonitor} (\<lambda>c. same_resource r c \<and> restored k c = b) P"
    by (simp add: allows_def P_def)
  have just: "justified k r (restored k (the_rpc s) \<or> switched_off r) l" if "\<forall>c \<in> set l. P c" for l
    using that by (cases b) (auto simp: b_def P_def restored_def intro: justified_all)
  show "talk (reconcile_restored k) s (\<lambda>_ l s'. same_resource r (the_rpc s') \<and>
      explained k r l (the_rpc s) (the_rpc s'))"
    by (rule talk_mono [OF contract_talk [OF contract_reconcile_restored [OF keeps allows]]])
      (auto simp: same b_def intro!: explained_refl just [unfolded b_def])
qed

lemma restored_phases [simp]:
  assumes "lawful_conditions k"
  shows "\<not> restored k (with_phases [RestoreStatus_Apply k StarknetRPCRestoreStatusPending] w c)"
    and "\<not> restored k (with_phases [RestoreStatus_Apply k StarknetRPCRestoreStatusPending,
      AvailableStatus_Apply k p] w c)"
  using restore.applied_true [OF assms, of w "conditions c" StarknetRPCRestoreStatusPending]
  by (simp_all add: restored_def with_phases_def RestoreStatus_Apply_def AvailableStatus_Apply_def
      lawful_conditions_true [OF assms] RestoreStatus_AsCondition_def AvailableStatus_AsCondition_def
      condition_type_defs RestoreStatus_Status_def)

lemma tracked_Initialize:
  assumes "lawful_conditions k" "lawful_status_update k"
  shows "tracks (same_resource r) (explained k r) (Initialize k)"
proof (rule tracks_contract)
  show "contract True (same_resource r) anything (Initialize k) (\<lambda>err. err \<noteq> Some ErrNextLoop)"
    by (rule contract_Initialize [OF keeps_same_resource [OF assms(2)] subset_refl allows_anything]) auto
  fix s :: "'a run_state"
  have empty: "\<not> is_status_condition_true k [] ''Restore''"
    using assms(1) by (simp add: lawful_conditions_def condition_of_def)
  show "talk (Initialize k) s (\<lambda>_ l s'. explained k r l (the_rpc s) (the_rpc s'))"
    unfolding Initialize_def
    by (intro talk_reading talk_cases talk_returns talk_mono [OF SetPhases_talk])
      (auto intro!: explained_refl justified_all simp: empty restored_def [of k "the_rpc _"] assms(2)
        restored_phases(2) [OF assms(1), unfolded restored_def])
qed

lemma tracked_ReconcilePvc:
  assumes "lawful_conditions k" "lawful_status_update k"
  shows "tracks (same_resource r) (explained k r) (ReconcilePvc k)"
proof (rule tracks_contract)
  show "contract (\<not> safe_server k) (same_resource r) anything (ReconcilePvc k) step_ok"
    by (rule pvc_stage.run_contract [OF keeps_same_resource [OF assms(2) pvc_stage.transitions] allows_anything])
  fix s :: "'a run_state"
  assume "same_resource r (the_rpc s)"
  note name = names_same_resource(1) [OF this]
  have pending: "\<not> restored k b"
    if "conditions b = conditions (with_phases [RestoreStatus_Apply k StarknetRPCRestoreStatusPending] w c)" for b w c
    using restored_phases(1) [OF assms(1), of w c] that by (simp add: restored_def)
  show "talk (ReconcilePvc k) s (\<lambda>_ l s'. explained k r l (the_rpc s) (the_rpc s'))"
    unfolding ReconcilePvc_def Let_def
    by (intro talk_reading talk_seq [OF talk_Create [where Q = "\<lambda>q l s'. the_rpc s' = the_rpc s \<and>
        (\<exists>reply. q = Ret reply \<and> l = [answered s (CreateReq (ObjPvc (GetWantedPvc (the_rpc s)))) (reply_of ObjPvc reply)])"]]
        talk_cases talk_returns talk_seq [OF SetPhases_talk])
      (auto simp: explained_def claim_created_def name answered_def assms(2) justified_append restored_def [of k "the_rpc _"]
        restored_phases(1) [OF assms(1), unfolded restored_def] dest: pending intro!: justified_all)
qed

lemma tracked_ReconcileArchiveRestore:
  assumes "lawful_conditions k" "lawful_status_update k"
  shows "tracks (same_resource r) (explained k r) (ReconcileArchiveRestore k)"
proof (rule tracks_contract)
  show "contract (\<not> safe_server k) (same_resource r) anything (ReconcileArchiveRestore k) step_ok"
    by (rule restore_stage.run_contract [OF keeps_same_resource [OF assms(2) restore_stage.transitions] allows_anything])
  fix s :: "'a run_state"
  assume same: "same_resource r (the_rpc s)"
  then have success: "job_success (the_rpc s) c = job_success r c" for c
    by (simp add: job_success_def names_same_resource)
  have "justified k (the_rpc s) ok l = justified k r ok l" for ok l
    by (induction l arbitrary: ok) (simp_all add: success)
  with same success show "talk (ReconcileArchiveRestore k) s (\<lambda>_ l s'. explained k r l (the_rpc s) (the_rpc s'))"
    by (intro talk_mono [OF talk_conj [OF ReconcileArchiveRestore_true [OF assms]
          ReconcileArchiveRestore_justified [OF assms(1)]]])
      (auto simp: explained_def restored_def same_resource_def)
qed

lemma tracked_fetched:
  assumes "lawful_conditions k" "lawful_status_update k"
  shows "tracks (same_resource r) (explained k r) (reconcile_fetched k)"
  by (intro explained.tracks_fetched tracked_restored [OF assms]
      tracked_Initialize [OF assms] tracked_ReconcilePvc [OF assms] tracked_ReconcileArchiveRestore [OF assms])

section \<open>No reconciliation is the last one before the restore is done\<close>

text \<open>
  A result without an error either asks to be called again or leaves the Restore condition
  true: then the pod is there, and its changes wake the operator up.
\<close>

definition never_stuck :: "'w client \<Rightarrow> ('w, Result \<times> GoError option) act \<Rightarrow> bool" where
  "never_stuck k m \<longleftrightarrow> (\<forall>s. talk m s (\<lambda>r l s'.
     \<forall>res. r = Ret (res, None) \<longrightarrow> asks_again res \<or> restored k (the_rpc s')))"

lemma never_stuck_returns: "never_stuck k (returns (r, Some e))" "asks_again r \<Longrightarrow> never_stuck k (returns (r, None))"
  by (simp_all add: never_stuck_def talk_def wp)

lemma never_stuck_seq:
  assumes "contract pn anyone anything m R" and "\<And>x. R x \<Longrightarrow> never_stuck k (f x)"
  shows "never_stuck k (seq m f)"
  unfolding never_stuck_def
proof
  fix s :: "'a run_state"
  have "talk m s (\<lambda>r l s'. \<forall>x. r = Ret x \<longrightarrow> R x)"
    by (rule contract_talk_result [OF assms(1) TrueI])
  then show "talk (seq m f) s (\<lambda>r l s'. \<forall>res. r = Ret (res, None) \<longrightarrow> asks_again res \<or> restored k (the_rpc s'))"
    by (rule talk_seq) (use assms(2) in \<open>simp_all add: never_stuck_def\<close>)
qed

lemma never_stuck_cases:
  "(b \<Longrightarrow> never_stuck k m) \<Longrightarrow> (\<not> b \<Longrightarrow> never_stuck k m') \<Longrightarrow> never_stuck k (if b then m else m')"
  "(q = None \<Longrightarrow> never_stuck k m) \<Longrightarrow> (\<And>x. q = Some x \<Longrightarrow> never_stuck k (f x)) \<Longrightarrow>
     never_stuck k (case q of None \<Rightarrow> m | Some x \<Rightarrow> f x)"
  by (auto split: option.split)

context stage
begin

lemma never_stuck_step:
  assumes "never_stuck k continue" and "\<And>e. never_stuck k (on_error e)"
  shows "never_stuck k (seq run (\<lambda>res. after_step res on_error continue))"
proof (rule never_stuck_seq [OF run_result])
  fix step
  assume ok: "step_ok step"
  obtain r e where step: "step = (r, e)" by (cases step)
  have "never_stuck k (seq (pure (deref r)) (\<lambda>r. returns (r, None)))" if again: "e = Some ErrNextLoop"
  proof -
    obtain r' where "r = Some r'" "asks_again r'" using ok again by (auto simp: step step_ok_def)
    then show ?thesis by (simp add: never_stuck_def talk_def wp)
  qed
  with assms show "never_stuck k (after_step step on_error continue)"
    by (auto simp: after_step_def step split: option.split)
qed

end

lemma never_stuck_restored:
  assumes "lawful_conditions k" "lawful_status_update k"
  shows "never_stuck k (seq read_cluster (\<lambda>rpc.
    if \<not> is_status_condition_true k (conditions rpc) ''Restore'' then returns (after (30 * Second), None)
    else reconcile_restored k))"
  unfolding never_stuck_def
proof
  fix s :: "'a run_state"
  have "talk (reconcile_restored k) s (\<lambda>r l s'. restored k (the_rpc s'))" if "restored k (the_rpc s)"
    by (rule talk_mono [OF contract_talk [where s = s,
          OF contract_reconcile_restored [OF keeps_restored [OF assms] allows_anything]]])
      (use that in auto)
  then have "talk (reconcile_restored k) s (\<lambda>r l s'. \<forall>res. r = Ret (res, None) \<longrightarrow>
      asks_again res \<or> restored k (the_rpc s'))" if "is_status_condition_true k (conditions (the_rpc s)) ''Restore''"
    using that by (auto simp: restored_def elim: talk_mono)
  then show "talk (seq read_cluster (\<lambda>rpc. if \<not> is_status_condition_true k (conditions rpc) ''Restore''
      then returns (after (30 * Second), None) else reconcile_restored k)) s
    (\<lambda>r l s'. \<forall>res. r = Ret (res, None) \<longrightarrow> asks_again res \<or> restored k (the_rpc s'))"
    by (intro talk_reading talk_cases talk_returns) auto
qed

lemma never_stuck_fetched:
  assumes "lawful_conditions k" "lawful_status_update k"
  shows "never_stuck k (reconcile_fetched k)"
proof -
  have body: "never_stuck k (seq (ReconcilePvc k) (\<lambda>res. after_step res give_up
      (seq (ReconcileArchiveRestore k) (\<lambda>res. after_step res give_up
        (seq read_cluster (\<lambda>rpc.
          if \<not> is_status_condition_true k (conditions rpc) ''Restore'' then returns (after (30 * Second), None)
          else reconcile_restored k))))))"
    unfolding give_up_def
    by (intro pvc_stage.never_stuck_step restore_stage.never_stuck_step never_stuck_restored [OF assms]
        never_stuck_returns)
  show ?thesis
    unfolding reconcile_fetched_def
    by (intro never_stuck_seq [OF contract_Initialize [OF keeps_anyone subset_refl allows_anything]]
        never_stuck_cases never_stuck_returns(1) body)
qed

section \<open>The calls of a reconciliation\<close>

definition fetched_state :: "'w run_state \<Rightarrow> NamespacedName \<Rightarrow> StarknetRPC \<Rightarrow> 'w \<Rightarrow> 'w run_state" where
  "fetched_state s req r w =
     (log_call (GetReq KindRpc req) (Got (ObjRpc r)) (s\<lparr>world := w, the_rpc := zero_rpc\<rparr>))\<lparr>the_rpc := r\<rparr>"

lemma fetched_state_sel [simp]:
  "the_rpc (fetched_state s req r w) = r" "world (fetched_state s req r w) = w"
  by (simp_all add: fetched_state_def)

lemma records_fetched: "records (reconcile_fetched k) s"
  using contractD(1) [OF contract_reconcile_fetched [where I = anyone and J = anyone and P = anything] TrueI, of k s]
  by (auto intro: recordsI)

lemma Reconcile_found:
  assumes "api_rpc_get k req (world s) = (Inr r, w)"
  shows "Reconcile k req s = reconcile_fetched k (fetched_state s req r w)"
    and "calls (Reconcile k req) s =
      \<lparr>call_cluster = zero_rpc, call_req = GetReq KindRpc req, call_reply = Got (ObjRpc r)\<rparr> #
      calls (reconcile_fetched k) (fetched_state s req r w)"
proof -
  show run: "Reconcile k req s = reconcile_fetched k (fetched_state s req r w)"
    using assms by (simp add: Reconcile_run fetched_state_def)
  show "calls (Reconcile k req) s =
      \<lparr>call_cluster = zero_rpc, call_req = GetReq KindRpc req, call_reply = Got (ObjRpc r)\<rparr> #
      calls (reconcile_fetched k) (fetched_state s req r w)"
    using records_fetched [of k "fetched_state s req r w"]
    by (auto simp: calls_def run records_def sends_def fetched_state_def)
qed

lemma Reconcile_not_found:
  assumes "api_rpc_get k req (world s) = (Inl e, w)"
  shows "fst (Reconcile k req s) = Ret (empty_result, if e = NotFound then None else Some (Api e))"
    and "calls (Reconcile k req) s =
      [\<lparr>call_cluster = zero_rpc, call_req = GetReq KindRpc req, call_reply = Failed e\<rparr>]"
  using assms by (simp_all add: Reconcile_run calls_def)

section \<open>One reconciliation\<close>

text \<open>The record of a reconciliation: the read of the resource, then the calls of the stages.\<close>

lemma Reconcile_calls:
  assumes m: "contract pn I P (reconcile_fetched k) R"
    and I: "\<And>r w. api_rpc_get k req (world s) = (Inr r, w) \<Longrightarrow> I r"
    and P: "\<And>reply. P \<lparr>call_cluster = zero_rpc, call_req = GetReq KindRpc req, call_reply = reply\<rparr>"
    and c: "c \<in> set (calls (Reconcile k req) s)"
  shows "P c"
proof (cases "api_rpc_get k req (world s)")
  case (Pair reply w)
  show ?thesis
  proof (cases reply)
    case (Inl e)
    with Pair c P show ?thesis by (simp add: Reconcile_not_found)
  next
    case (Inr r)
    with Pair have "I (the_rpc (fetched_state s req r w))" using I by simp
    from contractD(1) [OF m this] Pair Inr c P show ?thesis
      by (auto simp: Reconcile_found intro: sends_callsD)
  qed
qed

text \<open>What a request is about.\<close>

fun request_target :: "Request \<Rightarrow> (Kind \<times> NamespacedName) option" where
  "request_target (GetReq knd n) = Some (knd, n)"
| "request_target (CreateReq x) = Some (object_kind x, object_key x)"
| "request_target (UpdateReq x) = Some (object_kind x, object_key x)"
| "request_target (DeleteReq knd n _) = Some (knd, n)"
| "request_target (StatusUpdateReq r) = Some (KindRpc, meta_key (rpc_meta r))"
| "request_target (ProxyGetReq _ ns name _ _) = Some (KindPod, \<lparr>nn_name = name, nn_namespace = ns\<rparr>)"
| "request_target (EventReq _ _ _) = None"

lemma request_target_owned:
  "request_confined r q \<Longrightarrow> request_target q = Some (knd, n) \<Longrightarrow> owned_key r knd n"
  by (cases q) (auto simp: same_resource_def meta_key_def)

text \<open>
  The derived names of two resources are never the same, not even the names of the two
  claims: the suffixes are not suffixes of each other.
\<close>

lemma owned_key_disjoint:
  assumes "owned_key r knd n" "owned_key r' knd n"
  shows "meta_key (rpc_meta r) = meta_key (rpc_meta r')"
proof -
  have "a @ ''-storage'' \<noteq> b @ ''-archive-restore''" for a b :: string
  proof
    assume "a @ ''-storage'' = b @ ''-archive-restore''"
    then have "rev (a @ ''-storage'') = rev (b @ ''-archive-restore'')" by simp
    then show False by simp
  qed
  note neq = this this [symmetric]
  show ?thesis
    using assms neq by (cases knd) (auto simp: name_defs meta_key_def)
qed

lemma Reconcile_owned:
  assumes "lawful_keys k" "lawful_status_update k"
    and c: "c \<in> set (calls (Reconcile k req) s)" and t: "request_target (call_req c) = Some (knd, n)"
  shows "\<exists>r. meta_key (rpc_meta r) = req \<and> owned_key r knd n"
proof (cases "api_rpc_get k req (world s)")
  case (Pair reply w)
  define r where "r = (case reply of
      Inl e \<Rightarrow> zero_rpc\<lparr>rpc_meta := (rpc_meta zero_rpc)\<lparr>om_name := nn_name req, om_namespace := nn_namespace req\<rparr>\<rparr>
    | Inr r \<Rightarrow> r)"
  have req: "meta_key (rpc_meta r) = req"
    using assms(1) Pair by (auto simp: r_def lawful_keys_def meta_key_def split: sum.split)
  have "confined r c"
  proof (rule Reconcile_calls [OF contract_reconcile_fetched [where I = "same_resource r" and J = "same_resource r"] _ _ c])
    show "keeps k (all_transitions k) (same_resource r)"
      "keeps k (pod_marks k) (same_resource r)"
      by (auto intro!: keeps_same_resource [OF assms(2)]
          simp: all_transitions_def restore_marks_status_only [rule_format])
    show "same_resource r r'" if "api_rpc_get k req (world s) = (Inr r', w')" for r' w'
      using that Pair by (simp add: r_def)
    show "confined r \<lparr>call_cluster = zero_rpc, call_req = GetReq KindRpc req, call_reply = reply\<rparr>" for reply
      using req by (simp add: confined_def)
  qed (auto intro: allows_confined [OF assms(1)])
  then have "owned_key r knd n"
    using t by (auto simp: confined_def intro: request_target_owned)
  with req show ?thesis by blast
qed

text \<open>Nothing about the pod or its monitor is asked while the shared copy is not restored.\<close>

lemma Reconcile_gated:
  assumes "lawful_conditions k" "lawful_status_update k"
    and "c \<in> set (calls (Reconcile k req) s)"
    and "request_kinds (call_req c) \<inter> {KindPod, KindPodMonitor} \<noteq> {}"
  shows "restored k (call_cluster c)"
proof -
  define P :: "Call \<Rightarrow> bool" where "P c \<longleftrightarrow> (request_kinds (call_req c) \<inter> {KindPod, KindPodMonitor} \<noteq> {} \<longrightarrow>
    restored k (call_cluster c))" for c
  have "P c"
    by (rule Reconcile_calls [OF contract_reconcile_fetched [where I = anyone and J = "restored k"] _ _ assms(3)])
      (auto simp: allows_def P_def intro: keeps_restored [OF assms(1,2)])
  with assms(4) show ?thesis by (simp add: P_def)
qed

section \<open>The Available condition\<close>

definition serving :: "'w client \<Rightarrow> StarknetRPC \<Rightarrow> bool" where
  "serving k r \<longleftrightarrow> is_status_condition_true k (conditions r) ''Available''"

text \<open>No transition that a stage uses makes it true.\<close>

lemma serving_transitions:
  assumes "lawful_conditions k"
  shows "serving k (RestoreStatus_Apply k p w r) = serving k r"
    and "serving k (AvailableStatus_Apply k p w r) \<longleftrightarrow> AvailableStatus_Status p = ConditionTrue"
    and "t \<in> restore_marks k \<Longrightarrow> serving k (t w r) = serving k r"
  by (auto simp: serving_def RestoreStatus_Apply_def AvailableStatus_Apply_def restore_marks_def mark_defs
      lawful_conditions_true [OF assms] restore.as_type available.as_type available.as_status condition_type_defs)

lemma keeps_unavailable:
  assumes "lawful_conditions k" "lawful_status_update k"
  shows "keeps k (all_transitions k) (\<lambda>r. \<not> serving k r)"
  using assms(1) lawful_status_updateD(2) [OF assms(2)]
  by (auto simp: keeps_def all_transitions_def init_marks_def pvc_marks_def pod_marks_def serving_transitions
      AvailableStatus_Status_def available_phase_defs)
    (auto simp: serving_def conditions_def)

end
