(* ===== verification/History.thy ===== *)
theory History
  imports Controller
begin

text \<open>
  What happens over many reconciliations of one resource, with anything happening in between.
  A history is the record of all calls so far; between two reconciliations the world is
  arbitrary, so the server's objects may be changed, lost or served from a stale cache. The
  only assumption is about the status of the resource, which nobody but the operator writes: a
  resource that is read with a true Restore condition was sent like that in a status update.
\<close>

section \<open>Histories\<close>

definition sent_restored :: "'w client \<Rightarrow> Call list \<Rightarrow> bool" where
  "sent_restored k h = (\<exists>d \<in> set h. \<exists>x. call_req d = StatusUpdateReq x \<and> restored k x)"

inductive history :: "'w client \<Rightarrow> NamespacedName \<Rightarrow> Call list \<Rightarrow> bool"
  for k :: "'w client" and req :: NamespacedName where
  start: "history k req []"
| found: "history k req h \<Longrightarrow> api_rpc_get k req (world s) = (Inr r, w) \<Longrightarrow>
    (restored k r \<longrightarrow> sent_restored k h) \<Longrightarrow> history k req (h @ calls (Reconcile k req) s)"
| lost: "history k req h \<Longrightarrow> api_rpc_get k req (world s) = (Inl e, w) \<Longrightarrow>
    history k req (h @ calls (Reconcile k req) s)"

inductive_cases history_nonemptyE: "history k req (c # h)"

section \<open>Evidence\<close>

text \<open>A call that justifies a true Restore condition, by itself or by what it was answered.\<close>

definition evidence :: "NamespacedName \<Rightarrow> Call \<Rightarrow> bool" where
  "evidence req d \<longleftrightarrow> switched_off (call_cluster d) \<or>
     (call_req d = GetReq KindJob \<lparr>nn_name = nn_name req @ ''-archive-restore-job'', nn_namespace = nn_namespace req\<rparr> \<and>
      (\<exists>j. call_reply d = Got (ObjJob j) \<and> 0 < sint (job_succeeded j)))"

fun accounted :: "'w client \<Rightarrow> NamespacedName \<Rightarrow> bool \<Rightarrow> Call list \<Rightarrow> bool" where
  "accounted k req ok [] = True"
| "accounted k req ok (c # l) =
    ((restored k (call_cluster c) \<longrightarrow> ok \<or> switched_off (call_cluster c)) \<and>
     accounted k req (ok \<or> evidence req c) l)"

lemma accounted_append:
  "accounted k req ok (l @ l') \<longleftrightarrow>
   accounted k req ok l \<and> accounted k req (ok \<or> (\<exists>c \<in> set l. evidence req c)) l'"
  by (induction l arbitrary: ok) (auto simp: disj_assoc)

lemma accounted_evidence:
  "accounted k req ok l \<Longrightarrow> c \<in> set l \<Longrightarrow> restored k (call_cluster c) \<Longrightarrow> ok \<or> (\<exists>d \<in> set l. evidence req d)"
  by (induction l arbitrary: ok) (auto simp: evidence_def)

lemma accounted_justified:
  assumes "justified k r ok l" "\<forall>c \<in> set l. same_resource r (call_cluster c)"
    and "meta_key (rpc_meta r) = req" "ok \<Longrightarrow> ok' \<or> switched_off r"
  shows "accounted k req ok' l"
  using assms
proof (induction l arbitrary: ok ok')
  case (Cons c l)
  have spec: "switched_off (call_cluster c) = switched_off r"
    using Cons.prems(2) by (simp add: same_resource_def)
  have "job_success r c \<Longrightarrow> evidence req c"
    using Cons.prems(3) by (auto simp: job_success_def evidence_def GetRestoreJobName_def meta_key_def)
  then have "accounted k req (ok' \<or> evidence req c) l"
    using Cons.prems by (intro Cons.IH [of "ok \<or> job_success r c"]) auto
  moreover have "restored k (call_cluster c) \<longrightarrow> ok' \<or> switched_off (call_cluster c)"
    using Cons.prems(1,4) by (auto simp: restored_def spec)
  ultimately show ?case by simp
qed simp

section \<open>The invariant\<close>

definition honest :: "Call \<Rightarrow> bool" where
  "honest c = (\<forall>x. call_req c = StatusUpdateReq x \<longrightarrow> x = call_cluster c)"

lemma fetched_calls:
  assumes "lawful_status_update k"
  shows "\<forall>c \<in> set (calls (reconcile_fetched k) (fetched_state s req r w)). same_resource r (call_cluster c) \<and> honest c"
proof -
  define P :: "Call \<Rightarrow> bool" where "P c \<longleftrightarrow> same_resource r (call_cluster c) \<and> honest c" for c
  have keeps: "keeps k (all_transitions k) (same_resource r)" "keeps k (pod_marks k) (same_resource r)"
    by (auto intro!: keeps_same_resource [OF assms] simp: all_transitions_def restore_marks_status_only [rule_format])
  have allows: "allows k Ks (same_resource r) P" if "KindRpc \<notin> Ks" for Ks
    using that by (auto simp: allows_def P_def honest_def)
  have "contract (\<not> safe_server k) (same_resource r) P (reconcile_fetched k) outcome_ok"
    by (rule contract_reconcile_fetched [OF keeps(1) allows keeps(2) allows]) auto
  from contractD(1) [OF this, of "fetched_state s req r w"] show ?thesis
    by (auto dest: sends_callsD simp: P_def)
qed

lemma zero_rpc_not_restored: "lawful_conditions k \<Longrightarrow> \<not> restored k zero_rpc"
  by (simp add: restored_def zero_rpc_def conditions_def lawful_conditions_def condition_of_def)

lemma history_invariant:
  assumes "lawful_conditions k" "lawful_status_update k" "lawful_keys k"
    and "history k req h"
  shows "accounted k req False h \<and> (\<forall>c \<in> set h. honest c)"
  using assms(4)
proof (induction rule: history.induct)
  case start
  then show ?case by simp
next
  case (found h s r w)
  let ?s = "fetched_state s req r w"
  let ?ok = "\<exists>c \<in> set h. evidence req c"
  have key: "meta_key (rpc_meta r) = req"
    using assms(3) found.hyps(2) by (auto simp: lawful_keys_def)
  have "talk (reconcile_fetched k) ?s (\<lambda>_ l s'. same_resource r (the_rpc s') \<and> explained k r l r (the_rpc s'))"
    using tracked_fetched [OF assms(1,2), of r] unfolding tracks_def by (elim allE [of _ ?s]) simp
  from talk_calls [OF this] have just: "justified k r (restored k r \<or> switched_off r) (calls (reconcile_fetched k) ?s)"
    by (simp add: explained_def)
  have "restored k r \<Longrightarrow> ?ok"
    using found.hyps(3) found.IH by (fastforce simp: sent_restored_def honest_def dest: accounted_evidence)
  then have "accounted k req ?ok (calls (reconcile_fetched k) ?s)"
    using fetched_calls [OF assms(2)] by (intro accounted_justified [OF just _ key]) auto
  moreover have "\<forall>c \<in> set (calls (Reconcile k req) s). honest c"
    using fetched_calls [OF assms(2), of s req r w] by (auto simp: Reconcile_found [OF found.hyps(2)] honest_def)
  ultimately show ?case
    using found.IH zero_rpc_not_restored [OF assms(1)]
    by (auto simp: Reconcile_found [OF found.hyps(2)] accounted_append evidence_def zero_rpc_def)
next
  case (lost h s e w)
  then show ?case
    using zero_rpc_not_restored [OF assms(1)]
    by (auto simp: Reconcile_not_found accounted_append honest_def)
qed

lemma history_calls: "history k req h \<Longrightarrow> c \<in> set h \<Longrightarrow> \<exists>s. c \<in> set (calls (Reconcile k req) s)"
  by (induction rule: history.induct) auto

section \<open>Properties\<close>

text \<open>C6. Over all reconciliations of a resource, whatever happens in between and whatever the
  server answers: a request about the pod or its monitor comes only after the restore job of
  the resource was read with a success, or the restore was seen switched off.\<close>

theorem pod_needs_evidence:
  assumes "lawful_conditions k" and "lawful_status_update k" and "lawful_keys k"
    and "history k req (before @ c # later)"
    and "request_kinds (call_req c) \<inter> {KindPod, KindPodMonitor} \<noteq> {}"
  shows "\<exists>d \<in> set (before @ [c]). as_enable (sp_restore_archive (rpc_spec (call_cluster d))) = Some False \<or>
    (call_req d = GetReq KindJob \<lparr>nn_name = nn_name req @ ''-archive-restore-job'', nn_namespace = nn_namespace req\<rparr> \<and>
     (\<exists>j. call_reply d = Got (ObjJob j) \<and> 0 < sint (job_succeeded j)))"
proof -
  obtain s where "c \<in> set (calls (Reconcile k req) s)"
    using history_calls [OF assms(4), of c] by auto
  from Reconcile_gated [OF assms(1,2) this assms(5)] have "restored k (call_cluster c)" .
  moreover have "accounted k req False (before @ c # later)"
    using history_invariant [OF assms(1-4)] by blast
  ultimately show ?thesis
    by (auto simp: accounted_append evidence_def)
qed

section \<open>Witnesses\<close>

text \<open>The key of the sample, and a server that stores a resource.\<close>

definition sample_key :: NamespacedName where
  "sample_key = \<lparr>nn_name = ''node'', nn_namespace = ''default''\<rparr>"

definition serve :: "StarknetRPC \<Rightarrow> mem \<Rightarrow> mem" where
  "serve r w = w\<lparr>m_rpcs := (m_rpcs w)(meta_key (rpc_meta r) := Some r)\<rparr>"

text \<open>The sample after its initialization.\<close>

definition initialized_rpc :: StarknetRPC where
  "initialized_rpc = set_conditions
     [\<lparr>c_type = ''Restore'', c_status = ConditionFalse, c_reason = ''Pending'', c_message = '''',
       c_last_transition = None\<rparr>] sample_rpc"

lemma sample_key:
  "meta_key (rpc_meta sample_rpc) = sample_key" "meta_key (rpc_meta restored_rpc) = sample_key"
  "meta_key (rpc_meta initialized_rpc) = sample_key"
  by (simp_all add: sample_key_def meta_key_def restored_rpc_def initialized_rpc_def)

lemma serve_get:
  "meta_key (rpc_meta r) = sample_key \<Longrightarrow>
   api_rpc_get mem_client sample_key (world (run_from (serve r w) zero_rpc)) = (Inr r, serve r w)"
  by (simp add: serve_def)

definition sends_restored :: "Call \<Rightarrow> bool" where
  "sends_restored c = (case call_req c of
     StatusUpdateReq x \<Rightarrow> is_status_condition_true mem_client (conditions x) ''Restore'' | _ \<Rightarrow> False)"

definition creates_pod :: "Call \<Rightarrow> bool" where
  "creates_pod c = (case call_req c of CreateReq (ObjPod p) \<Rightarrow> True | _ \<Rightarrow> False)"

lemma creates_pod_kinds: "creates_pod c \<Longrightarrow> request_kinds (call_req c) = {KindPod}"
  by (cases "call_req c") (auto simp: creates_pod_def split: Object.splits)

text \<open>The job has finished; later the resource is restored and its claims are bound.\<close>

definition finished_run :: "mem run_state" where
  "finished_run = run_from (serve initialized_rpc finished_mem) zero_rpc"

definition restored_run :: "mem run_state" where
  "restored_run = run_from (serve restored_rpc bound_mem) zero_rpc"

lemma finished_run_sends: "list_ex sends_restored (calls (Reconcile mem_client sample_key) finished_run)"
  by code_simp

lemma restored_run_creates: "list_ex creates_pod (calls (Reconcile mem_client sample_key) restored_run)"
  by code_simp

lemma sample_history:
  "history mem_client sample_key
     (calls (Reconcile mem_client sample_key) finished_run @ calls (Reconcile mem_client sample_key) restored_run)"
proof -
  have "history mem_client sample_key ([] @ calls (Reconcile mem_client sample_key) finished_run)"
    unfolding finished_run_def
    by (rule found [OF start serve_get [OF sample_key(3)]])
      (simp add: restored_def initialized_rpc_def mem_condition_true_def condition_of_def)
  moreover have "sent_restored mem_client (calls (Reconcile mem_client sample_key) finished_run)"
    using finished_run_sends unfolding list_ex_iff sent_restored_def restored_def sends_restored_def
    by (force split: Request.splits)
  ultimately show ?thesis
    unfolding restored_run_def by (intro found [OF _ serve_get [OF sample_key(2)]]) simp_all
qed

theorem pod_needs_evidence_witness:
  "\<exists>before c later. history mem_client sample_key (before @ c # later) \<and> request_kinds (call_req c) = {KindPod} \<and>
     (\<exists>d \<in> set (before @ [c]). as_enable (sp_restore_archive (rpc_spec (call_cluster d))) = Some False \<or>
       (call_req d = GetReq KindJob \<lparr>nn_name = ''node-archive-restore-job'', nn_namespace = ''default''\<rparr> \<and>
        (\<exists>j. call_reply d = Got (ObjJob j) \<and> 0 < sint (job_succeeded j))))"
proof -
  obtain c where c: "c \<in> set (calls (Reconcile mem_client sample_key) restored_run)" "request_kinds (call_req c) = {KindPod}"
    using restored_run_creates creates_pod_kinds unfolding list_ex_iff by blast
  then obtain before later where h: "history mem_client sample_key (before @ c # later)"
    using sample_history by (metis append.assoc split_list)
  have "request_kinds (call_req c) \<inter> {KindPod, KindPodMonitor} \<noteq> {}" using c(2) by simp
  note d = pod_needs_evidence [OF lawful_conditions_mem lawful_status_update_mem lawful_keys_mem h this]
  have "nn_name sample_key @ ''-archive-restore-job'' = ''node-archive-restore-job''" "nn_namespace sample_key = ''default''"
    by (simp_all add: sample_key_def)
  from d [unfolded this] h c(2) show ?thesis by blast
qed

end
