(* ===== verification/Restore_Machine.thy ===== *)
theory Restore_Machine
  imports History
begin

text \<open>
  The restore as a state machine: what the Restore condition says is the state, and each of its
  changes is a transition with its trigger among the calls. The methods of the controller
  refine the machine: whatever the server answers, a reconciliation takes only steps of it.
\<close>

section \<open>The machine\<close>

datatype RestoreState = Unset | Pending | Progressing | Finished | JobFailed | Skipped | Foreign bool

definition restore_state :: "StarknetRPC \<Rightarrow> RestoreState" where
  "restore_state rpc = (case condition_of (conditions rpc) ''Restore'' of
     None \<Rightarrow> Unset
   | Some c \<Rightarrow>
       if c_status c = ConditionTrue \<and> c_reason c = ''ArchiveJobFinished'' then Finished
       else if c_status c = ConditionTrue \<and> c_reason c = ''ArchiveRestoreSkipped'' then Skipped
       else if c_status c = ConditionFalse \<and> c_reason c = ''Pending'' then Pending
       else if c_status c = ConditionFalse \<and> c_reason c = ''ArchiveJobProgressing'' then Progressing
       else if c_status c = ConditionFalse \<and> c_reason c = ''ArchiveJobFailed'' then JobFailed
       else Foreign (c_status c = ConditionTrue))"

definition final :: "RestoreState \<Rightarrow> bool" where
  "final st \<longleftrightarrow> st = Finished \<or> st = Skipped \<or> st = Foreign True"

lemma final_restored: "lawful_conditions k \<Longrightarrow> final (restore_state r) = restored k r"
  by (auto simp: final_def restore_state_def restored_def lawful_conditions_def split: option.splits)

text \<open>The triggers: the job was created; it was read, without a success but with a failure.\<close>

definition job_created :: "StarknetRPC \<Rightarrow> Call \<Rightarrow> bool" where
  "job_created r c \<longleftrightarrow> (\<exists>x y. call_req c = CreateReq (ObjJob x) \<and> call_reply c = Got (ObjJob y) \<and>
     meta_key (job_meta x) = GetRestoreJobName r)"

definition job_failure :: "StarknetRPC \<Rightarrow> Call \<Rightarrow> bool" where
  "job_failure r c \<longleftrightarrow> call_req c = GetReq KindJob (GetRestoreJobName r) \<and>
     (\<exists>j. call_reply c = Got (ObjJob j) \<and> sint (job_succeeded j) \<le> 0 \<and> 0 < sint (job_failed j))"

text \<open>A final state is left only for \<open>Pending\<close>, when the claim of the database had to be created.\<close>

inductive restore_step :: "StarknetRPC \<Rightarrow> Call list \<Rightarrow> RestoreState \<Rightarrow> RestoreState \<Rightarrow> bool"
  for r :: StarknetRPC and l :: "Call list" where
  initialize: "restore_step r l Unset Pending"
| reset: "c \<in> set l \<Longrightarrow> claim_created r c \<Longrightarrow> restore_step r l st Pending"
| skip: "\<not> final st \<Longrightarrow> switched_off r \<Longrightarrow> restore_step r l st Skipped"
| begin_job: "\<not> final st \<Longrightarrow> \<not> switched_off r \<Longrightarrow> c \<in> set l \<Longrightarrow> job_created r c \<Longrightarrow> restore_step r l st Progressing"
| finish: "\<not> final st \<Longrightarrow> \<not> switched_off r \<Longrightarrow> c \<in> set l \<Longrightarrow> job_success r c \<Longrightarrow> restore_step r l st Finished"
| fail: "\<not> final st \<Longrightarrow> \<not> switched_off r \<Longrightarrow> c \<in> set l \<Longrightarrow> job_failure r c \<Longrightarrow> restore_step r l st JobFailed"

inductive_simps to_finished: "restore_step r l st Finished"
inductive_simps to_skipped: "restore_step r l st Skipped"
inductive_simps to_foreign: "restore_step r l st (Foreign b)"
inductive_cases from_finalE: "restore_step r l st st'"

lemma restore_step_mono: "restore_step r l st st' \<Longrightarrow> set l \<subseteq> set l' \<Longrightarrow> restore_step r l' st st'"
  by (induction rule: restore_step.induct) (auto intro: restore_step.intros)

definition machine :: "StarknetRPC \<Rightarrow> Call list \<Rightarrow> StarknetRPC \<Rightarrow> StarknetRPC \<Rightarrow> bool" where
  "machine r l a b \<longleftrightarrow> (restore_step r l)\<^sup>*\<^sup>* (restore_state a) (restore_state b)"

lemma machine_mono: "machine r l a b \<Longrightarrow> set l \<subseteq> set l' \<Longrightarrow> machine r l' a b"
  unfolding machine_def by (erule rtranclp_mono [THEN predicate2D, rotated]) (auto intro: restore_step_mono)

interpretation machine: ledger "same_resource r" "machine r" for r
proof
  show "machine r [] a a" for a by (simp add: machine_def)
  show "machine r (l @ l') a c" if "machine r l a b" "machine r l' b c" for l l' a b c
    using machine_mono [OF that(1), of "l @ l'"] machine_mono [OF that(2), of "l @ l'"]
    by (simp add: machine_def)
qed

lemma machine_same: "restore_state b = restore_state a \<Longrightarrow> machine r l a b"
  by (simp add: machine_def)

lemma machine_step: "restore_step r l (restore_state a) (restore_state b) \<Longrightarrow> machine r l a b"
  by (simp add: machine_def)

section \<open>The methods refine it\<close>

lemma restore_state_conditions: "conditions a = conditions b \<Longrightarrow> restore_state a = restore_state b"
  by (simp add: restore_state_def)

lemma restore_state_set:
  assumes "lawful_conditions k" "conditions b = set_status_condition k w cs c"
  shows "c_type c = ''Restore'' \<Longrightarrow> restore_state b =
      (if c_status c = ConditionTrue \<and> c_reason c = ''ArchiveJobFinished'' then Finished
       else if c_status c = ConditionTrue \<and> c_reason c = ''ArchiveRestoreSkipped'' then Skipped
       else if c_status c = ConditionFalse \<and> c_reason c = ''Pending'' then Pending
       else if c_status c = ConditionFalse \<and> c_reason c = ''ArchiveJobProgressing'' then Progressing
       else if c_status c = ConditionFalse \<and> c_reason c = ''ArchiveJobFailed'' then JobFailed
       else Foreign (c_status c = ConditionTrue))"
    and "c_type c \<noteq> ''Restore'' \<Longrightarrow> conditions a = cs \<Longrightarrow> restore_state b = restore_state a"
  using lawful_conditions_set [OF assms(1), where w = w and cs = cs and c = c] assms(2)
  by (auto simp: restore_state_def says_def)

lemma restore_state_pending:
  assumes "lawful_conditions k"
    and "conditions b = conditions (with_phases [RestoreStatus_Apply k StarknetRPCRestoreStatusPending] w a)"
  shows "restore_state b = Pending"
proof -
  have "conditions b = set_status_condition k w (conditions a) (RestoreStatus_AsCondition StarknetRPCRestoreStatusPending)"
    using assms(2) by (simp add: RestoreStatus_Apply_def)
  from restore_state_set(1) [OF assms(1) this] show ?thesis
    by (simp add: RestoreStatus_AsCondition_def RestoreStatus_Status_def restore_phase_defs condition_type_defs)
qed

lemma restore_state_marked:
  assumes "lawful_conditions k"
  shows "conditions b = conditions (with_phases [markArchiveAsFinished k] w a) \<Longrightarrow> restore_state b = Finished"
    and "conditions b = conditions (with_phases [markRestoreAsSkipped k] w a) \<Longrightarrow> restore_state b = Skipped"
    and "conditions b = conditions (with_phases [markRestoreAsFailed k] w a) \<Longrightarrow> restore_state b = JobFailed"
    and "conditions b = conditions (with_phases [markRestoreAsProgressing k] w a) \<Longrightarrow> restore_state b = Progressing"
  using restore_state_set(1) [OF assms] by (simp_all add: mark_defs)

lemma restore_state_available:
  assumes "lawful_conditions k"
  shows "restore_state (AvailableStatus_Apply k p w a) = restore_state a"
proof -
  have "conditions (AvailableStatus_Apply k p w a) = set_status_condition k w (conditions a) (AvailableStatus_AsCondition p)"
    by (simp add: AvailableStatus_Apply_def)
  from restore_state_set(2) [OF assms this, of a] show ?thesis
    by (simp add: AvailableStatus_AsCondition_def condition_type_defs)
qed

lemma machine_Initialize:
  assumes "lawful_conditions k" "lawful_status_update k"
  shows "tracks (same_resource r) (machine r) (Initialize k)"
proof (rule tracks_contract)
  show "contract True (same_resource r) anything (Initialize k) (\<lambda>err. err \<noteq> Some ErrNextLoop)"
    by (rule contract_Initialize [OF keeps_same_resource [OF assms(2)] subset_refl allows_anything]) auto
  fix s :: "'a run_state"
  have unset: "conditions a = [] \<Longrightarrow> restore_state a = Unset" for a
    by (simp add: restore_state_def condition_of_def)
  have pending: "restore_state b = Pending" if "conditions b = conditions (with_phases
      [RestoreStatus_Apply k StarknetRPCRestoreStatusPending, AvailableStatus_Apply k p] w a)" for a b p w
  proof -
    have "conditions b = conditions (AvailableStatus_Apply k p w
        (with_phases [RestoreStatus_Apply k StarknetRPCRestoreStatusPending] w a))"
      using that by (simp add: with_phases_def)
    from restore_state_conditions [OF this] show ?thesis
      by (simp add: restore_state_available [OF assms(1)] restore_state_pending [OF assms(1) refl])
  qed
  have initialized: "machine r l a b" if "conditions a = []" and "conditions b = conditions (with_phases
      [RestoreStatus_Apply k StarknetRPCRestoreStatusPending, AvailableStatus_Apply k p] w a)" for l a b p w
    by (intro machine_step) (simp add: unset [OF that(1)] pending [OF that(2)] initialize)
  show "talk (Initialize k) s (\<lambda>_ l s'. machine r l (the_rpc s) (the_rpc s'))"
    unfolding Initialize_def
    by (intro talk_reading talk_cases talk_returns talk_mono [OF SetPhases_talk])
      (auto simp: assms(2) intro: machine_same initialized)
qed

lemma machine_ReconcilePvc:
  assumes "lawful_conditions k" "lawful_status_update k"
  shows "tracks (same_resource r) (machine r) (ReconcilePvc k)"
proof (rule tracks_contract)
  show "contract (\<not> safe_server k) (same_resource r) anything (ReconcilePvc k) step_ok"
    by (rule pvc_stage.run_contract [OF keeps_same_resource [OF assms(2) pvc_stage.transitions] allows_anything])
  fix s :: "'a run_state"
  assume "same_resource r (the_rpc s)"
  note name = names_same_resource(1) [OF this]
  have created: "machine r (answered s (CreateReq (ObjPvc (GetWantedPvc (the_rpc s)))) (Got (ObjPvc y)) # l) a b"
    if "conditions b = conditions (with_phases [RestoreStatus_Apply k StarknetRPCRestoreStatusPending] w (the_rpc s))"
    for y l a b w
    using restore_state_pending [OF assms(1) that]
    by (intro machine_step) (auto simp: claim_created_def name answered_def intro!: reset)
  show "talk (ReconcilePvc k) s (\<lambda>_ l s'. machine r l (the_rpc s) (the_rpc s'))"
    unfolding ReconcilePvc_def Let_def
    by (intro talk_reading talk_seq [OF talk_Create [where Q = "\<lambda>q l s'. the_rpc s' = the_rpc s \<and>
        (\<exists>reply. q = Ret reply \<and> l = [answered s (CreateReq (ObjPvc (GetWantedPvc (the_rpc s)))) (reply_of ObjPvc reply)])"]]
        talk_cases talk_returns talk_seq [OF SetPhases_talk])
      (auto simp: assms(2) intro!: machine_same created)
qed

lemma machine_steps: "restore_step r l st st' \<Longrightarrow> (restore_step r l)\<^sup>*\<^sup>* st st'" by (rule r_into_rtranclp)

lemmas restore_steps = restore_step.intros [THEN machine_steps]

text \<open>What the restore stage does to the state, from a state that is not final.\<close>

lemma restore_create_job_states:
  assumes "lawful_conditions k" "lawful_status_update k"
  shows "talk (restore_create_job k x) s (\<lambda>_ l s'. restore_state (the_rpc s') = restore_state (the_rpc s) \<or>
     restore_state (the_rpc s') = Progressing \<and> (\<exists>c \<in> set l. job_created x c) \<or>
     restore_state (the_rpc s') = Finished \<and> (\<exists>c \<in> set l. job_success x c) \<or>
     restore_state (the_rpc s') = JobFailed \<and> (\<exists>c \<in> set l. job_failure x c))"
  using restore_state_marked [OF assms(1)]
  by (auto simp: talk_def restore_create_job_def restore_job_status_def wp Let_def job_success_def
      job_created_def job_failure_def
      dest: lawful_status_updateD(2) [OF assms(2)] split: prod.split sum.split)

lemma restore_check_claims_states:
  assumes "lawful_conditions k" "lawful_status_update k"
  shows "talk (restore_check_claims k x y) s (\<lambda>_ l s'. restore_state (the_rpc s') = restore_state (the_rpc s) \<or>
     restore_state (the_rpc s') = Progressing \<and> (\<exists>c \<in> set l. job_created x c) \<or>
     restore_state (the_rpc s') = Finished \<and> (\<exists>c \<in> set l. job_success x c) \<or>
     restore_state (the_rpc s') = JobFailed \<and> (\<exists>c \<in> set l. job_failure x c))"
  by (auto simp: talk_def restore_check_claims_def EnsurePvcReady_def wp Let_def
      split: prod.split sum.split option.split intro!: talk_wp [OF restore_create_job_states [OF assms]])

lemma ReconcileArchiveRestore_states:
  assumes "lawful_conditions k" "lawful_status_update k"
  shows "talk (ReconcileArchiveRestore k) s (\<lambda>_ l s'. restore_state (the_rpc s') = restore_state (the_rpc s) \<or>
     \<not> restored k (the_rpc s) \<and>
      (switched_off (the_rpc s) \<and> restore_state (the_rpc s') = Skipped \<or>
       \<not> switched_off (the_rpc s) \<and>
        (restore_state (the_rpc s') = Progressing \<and> (\<exists>c \<in> set l. job_created (the_rpc s) c) \<or>
         restore_state (the_rpc s') = Finished \<and> (\<exists>c \<in> set l. job_success (the_rpc s) c) \<or>
         restore_state (the_rpc s') = JobFailed \<and> (\<exists>c \<in> set l. job_failure (the_rpc s) c))))"
  unfolding ReconcileArchiveRestore_def restore_cleanup_def
  using restore_state_marked(2) [OF assms(1)]
  by (auto simp: talk_def wp Let_def restored_def dest: lawful_status_updateD(2) [OF assms(2)]
      split: prod.split sum.split option.split
      intro!: talk_wp [OF restore_check_claims_states [OF assms]])

lemma machine_ReconcileArchiveRestore:
  assumes "lawful_conditions k" "lawful_status_update k"
  shows "tracks (same_resource r) (machine r) (ReconcileArchiveRestore k)"
proof (rule tracks_contract)
  show "contract (\<not> safe_server k) (same_resource r) anything (ReconcileArchiveRestore k) step_ok"
    by (rule restore_stage.run_contract [OF keeps_same_resource [OF assms(2) restore_stage.transitions] allows_anything])
  fix s :: "'a run_state"
  assume same: "same_resource r (the_rpc s)"
  have triggers: "job_created (the_rpc s) c = job_created r c" "job_success (the_rpc s) c = job_success r c"
    "job_failure (the_rpc s) c = job_failure r c" "switched_off (the_rpc s) = switched_off r" for c
    using same names_same_resource(3) [OF same]
    by (simp_all add: job_created_def job_success_def job_failure_def same_resource_def)
  show "talk (ReconcileArchiveRestore k) s (\<lambda>_ l s'. machine r l (the_rpc s) (the_rpc s'))"
    by (rule talk_mono [OF ReconcileArchiveRestore_states [OF assms]])
      (auto simp: triggers final_restored [OF assms(1), symmetric] machine_def
        intro: restore_steps)
qed

lemma machine_restored:
  assumes "lawful_conditions k" "lawful_status_update k"
  shows "tracks (same_resource r) (machine r) (reconcile_restored k)"
  unfolding tracks_def
proof (intro allI impI)
  fix s :: "'a run_state"
  assume same: "same_resource r (the_rpc s)"
  have keeps: "keeps k (pod_marks k) (\<lambda>c. restore_state c = st)" for st
    using restore_state_available [OF assms(1)] lawful_status_updateD(2) [OF assms(2)]
    by (auto simp: keeps_def pod_marks_def restore_state_def conditions_def)
  have "keeps k (pod_marks k) (\<lambda>c. same_resource r c \<and> restore_state c = restore_state (the_rpc s))"
    by (intro keeps_conj keeps keeps_same_resource [OF assms(2)]) auto
  note kept = contract_talk [OF contract_reconcile_restored [OF this allows_anything]]
  show "talk (reconcile_restored k) s (\<lambda>_ l s'. same_resource r (the_rpc s') \<and> machine r l (the_rpc s) (the_rpc s'))"
    by (rule talk_mono [OF kept]) (auto simp: same intro: machine_same)
qed

section \<open>Properties\<close>

text \<open>C3. One reconciliation refines the machine: from the state it reads to the state it leaves, the
  restore goes along transitions whose triggers are among the calls. So it reaches
  \<open>Finished\<close> only by a success of the job, \<open>Skipped\<close> only when the restore is switched off, it
  goes from a final state to \<open>Pending\<close> alone, and that only when the claim was created.\<close>

theorem Reconcile_refines_machine:
  assumes "lawful_conditions k" and "lawful_status_update k"
    and "api_rpc_get k req (world s) = (Inr r, w)"
  shows "(restore_step r (calls (Reconcile k req) s))\<^sup>*\<^sup>*
    (restore_state r) (restore_state (the_rpc (snd (Reconcile k req s))))"
proof -
  have "tracks (same_resource r) (machine r) (reconcile_fetched k)"
    by (intro machine.tracks_fetched machine_Initialize [OF assms(1,2)] machine_ReconcilePvc [OF assms(1,2)]
        machine_ReconcileArchiveRestore [OF assms(1,2)] machine_restored [OF assms(1,2)])
  then have "talk (reconcile_fetched k) (fetched_state s req r w) (\<lambda>_ l s'.
      same_resource r (the_rpc s') \<and> machine r l r (the_rpc s'))"
    unfolding tracks_def by (elim allE [of _ "fetched_state s req r w"]) simp
  from talk_calls [OF this] have "machine r (calls (reconcile_fetched k) (fetched_state s req r w)) r
      (the_rpc (snd (reconcile_fetched k (fetched_state s req r w))))" by simp
  then have "machine r (calls (Reconcile k req) s) r (the_rpc (snd (Reconcile k req s)))"
    by (rule machine_mono [THEN back_subst [of "machine r _ r"]]) (auto simp: Reconcile_found [OF assms(3)])
  then show ?thesis by (simp add: machine_def)
qed

lemma finished_run_states:
  "restore_state initialized_rpc = Pending"
  "restore_state (the_rpc (snd (Reconcile mem_client sample_key finished_run))) = Finished"
  by code_simp+

theorem Reconcile_refines_machine_witness:
  "(restore_step initialized_rpc (calls (Reconcile mem_client sample_key) finished_run))\<^sup>*\<^sup>* Pending Finished"
  using Reconcile_refines_machine
    [OF lawful_conditions_mem lawful_status_update_mem serve_get [OF sample_key(3), of finished_mem]]
  unfolding finished_run_def [symmetric] finished_run_states .

end
