(* ===== verification/Creation.thy ===== *)
theory Creation
  imports History
begin

text \<open>
  What a reconciliation creates, in which order, and which of the created objects wake the
  operator up when they change. The watches of \<open>SetupWithManager\<close> are read as
  controller-runtime documents \<open>Owns\<close>: a change of an object of a watched kind starts a
  reconciliation of its controlling owner, if that is of the kind and group that is reconciled.
\<close>

section \<open>Which objects wake the operator up\<close>

fun object_owners :: "Object \<Rightarrow> OwnerReference list" where
  "object_owners (ObjPvc x) = om_owners (pvc_meta x)"
| "object_owners (ObjJob x) = om_owners (job_meta x)"
| "object_owners (ObjPod x) = om_owners (pod_meta x)"
| "object_owners (ObjPodMonitor x) = om_owners (pm_meta x)"
| "object_owners (ObjRpc x) = om_owners (rpc_meta x)"

text \<open>The kind the resource is registered as; of an apiVersion only the group counts.\<close>

definition registered :: "string \<Rightarrow> string \<Rightarrow> bool" where
  "registered api_version knd \<longleftrightarrow>
     takeWhile (\<lambda>c. c \<noteq> CHR ''/'') api_version = fst GroupVersion \<and> knd = hd (snd SchemeBuilder)"

definition woken :: "Kind \<times> Kind list \<Rightarrow> Object \<Rightarrow> NamespacedName option" where
  "woken watches x =
    (if object_kind x \<in> set (snd watches) then
       case find (\<lambda>own. or_controller own = Some True) (object_owners x) of
         None \<Rightarrow> None
       | Some own \<Rightarrow>
           if registered (or_api_version own) (or_kind own)
           then Some \<lparr>nn_name = or_name own, nn_namespace = nn_namespace (object_key x)\<rparr> else None
     else None)"

section \<open>What a reconciliation creates\<close>

fun wanted_by :: "StarknetRPC \<Rightarrow> Object \<Rightarrow> bool" where
  "wanted_by r (ObjPvc x) \<longleftrightarrow> x = GetWantedPvc r \<or> x = GetWantedRestorePvc r"
| "wanted_by r (ObjJob x) \<longleftrightarrow> x = GetWantedRestoreJob r"
| "wanted_by r (ObjPod x) \<longleftrightarrow> x = GetWantedPod r"
| "wanted_by r (ObjPodMonitor x) \<longleftrightarrow> x = GetWantedPodMonitor r"
| "wanted_by r (ObjRpc x) \<longleftrightarrow> False"

definition creates_wanted :: "Call \<Rightarrow> bool" where
  "creates_wanted c \<longleftrightarrow> (\<forall>x. call_req c = CreateReq x \<longrightarrow> wanted_by (call_cluster c) x)"

lemma creates_wanted_simps [simp]:
  "creates_wanted \<lparr>call_cluster = r, call_req = CreateReq x, call_reply = y\<rparr> = wanted_by r x"
  "\<forall>x. q \<noteq> CreateReq x \<Longrightarrow> creates_wanted \<lparr>call_cluster = r, call_req = q, call_reply = y\<rparr>"
  by (simp_all add: creates_wanted_def)

text \<open>Everything that is created is wanted by the copy of the resource at that moment.\<close>

interpretation made: ledger "anyone" "\<lambda>l a b. \<forall>c \<in> set l. creates_wanted c"
  by unfold_locales auto

abbreviation makes_wanted :: "('w, 'a) act \<Rightarrow> bool" where
  "makes_wanted \<equiv> tracks anyone (\<lambda>l a b. \<forall>c \<in> set l. creates_wanted c)"

lemma makes_wantedI:
  "(\<And>s. talk m s (\<lambda>_ l _. \<forall>c \<in> set l. creates_wanted c)) \<Longrightarrow> makes_wanted m"
  by (simp add: tracks_def)

lemma SetPhases_makes: "makes_wanted (SetPhases k ts)"
  by (rule makes_wantedI, rule talk_mono [OF SetPhases_talk]) (auto simp: creates_wanted_def)

lemma Initialize_makes: "makes_wanted (Initialize k)"
  unfolding Initialize_def by (intro made.tracks_seq made.tracks_still made.tracks_cases SetPhases_makes)

lemma Delete_makes: "makes_wanted (Delete h x pol)"
  by (rule makes_wantedI, rule talk_Delete) (simp add: answered_def)

lemma Event_makes: "makes_wanted (Event k ty reason msg)"
  by (rule makes_wantedI) (simp add: talk_def wp)

lemma Get_makes: "makes_wanted (Get h n)"
  by (rule makes_wantedI, rule talk_Get) (simp add: answered_def)

lemma IsReady_makes: "makes_wanted (IsReady k pod)"
  by (rule makes_wantedI, rule talk_mono [OF IsReady_talk]) (auto simp: creates_wanted_def)

text \<open>A stage reads the shared copy first.\<close>

lemma reading_makes:
  assumes "\<And>s. talk (f (the_rpc s)) s (\<lambda>_ l _. \<forall>c \<in> set l. creates_wanted c)"
  shows "makes_wanted (seq read_cluster f)"
  by (rule makes_wantedI, rule talk_reading) (rule assms)

lemma CreateOrReconcile_makes:
  "wanted_by (the_rpc s) (h_obj h x) \<Longrightarrow> talk (CreateOrReconcile h x rs) s (\<lambda>_ l _. \<forall>c \<in> set l. creates_wanted c)"
  unfolding wp_CreateOrReconcile talk_def Let_def
  by (auto split: prod.split sum.split outcome.split option.split)

lemma makes_wantedD: "makes_wanted m \<Longrightarrow> talk m s (\<lambda>_ l _. \<forall>c \<in> set l. creates_wanted c)"
  by (simp add: tracks_def)

lemma talk_seq_makes:
  assumes "talk m s (\<lambda>_ l _. \<forall>c \<in> set l. creates_wanted c)" "\<And>x. makes_wanted (f x)"
  shows "talk (seq m f) s (\<lambda>_ l _. \<forall>c \<in> set l. creates_wanted c)"
  by (rule talk_seq [OF assms(1)], rule talk_mono [OF makes_wantedD [OF assms(2)]]) auto

lemma made_cases:
  "(\<And>e. makes_wanted (f e)) \<Longrightarrow> (\<And>x. makes_wanted (g x)) \<Longrightarrow> makes_wanted (case v of Inl e \<Rightarrow> f e | Inr x \<Rightarrow> g x)"
  "(\<And>a b. makes_wanted (h a b)) \<Longrightarrow> makes_wanted (case q of (a, b) \<Rightarrow> h a b)"
  by (auto split: sum.split prod.split)

lemmas makes_rules = made.tracks_seq made.tracks_still made.tracks_cases made_cases
  SetPhases_makes Delete_makes Event_makes Get_makes IsReady_makes

lemma ReconcilePvc_makes: "makes_wanted (ReconcilePvc k)"
  unfolding ReconcilePvc_def Let_def
  by (intro reading_makes talk_seq_makes makes_rules talk_Create) (simp add: answered_def)

lemma ReconcilePod_makes: "makes_wanted (ReconcilePod k)"
  unfolding ReconcilePod_def Let_def
  by (intro reading_makes talk_seq_makes [OF CreateOrReconcile_makes] makes_rules) simp

lemma ensure_monitor_makes:
  "the_rpc s = r \<Longrightarrow> talk (ensure_monitor k r) s (\<lambda>_ l _. \<forall>c \<in> set l. creates_wanted c)"
  unfolding ensure_monitor_def Let_def
  by (intro talk_seq_makes [OF CreateOrReconcile_makes] makes_rules) simp

lemma ReconcilePodMonitor_makes: "makes_wanted (ReconcilePodMonitor k)"
proof -
  have remove: "makes_wanted (remove_monitor k r)" for r :: StarknetRPC
    unfolding remove_monitor_def by (intro makes_rules)
  have ensure: "talk (seq (Get (pods k) n) (\<lambda>got. case got of
      Inl err \<Rightarrow> if err = NotFound then returns (Some empty_result, None) else returns (None, Some (Api err))
    | Inr _ \<Rightarrow> ensure_monitor k (the_rpc s))) s (\<lambda>_ l _. \<forall>c \<in> set l. creates_wanted c)" for n and s :: "'a run_state"
    by (auto simp: talk_def wp split: prod.split sum.split
        intro!: talk_wp [OF ensure_monitor_makes])
  show ?thesis
    unfolding ReconcilePodMonitor_def
    by (intro reading_makes talk_cases makes_wantedD [OF remove] ensure)
qed

lemma restore_job_makes:
  "the_rpc s = r \<Longrightarrow> talk (restore_create_job k r) s (\<lambda>_ l _. \<forall>c \<in> set l. creates_wanted c)"
  by (auto simp: talk_def restore_create_job_def restore_job_status_def wp Let_def
      split: prod.split sum.split)

lemma restore_claims_makes:
  "the_rpc s = r \<Longrightarrow> talk (restore_check_claims k r y) s (\<lambda>_ l _. \<forall>c \<in> set l. creates_wanted c)"
  by (auto simp: talk_def restore_check_claims_def EnsurePvcReady_def wp Let_def
      split: prod.split sum.split option.split intro!: talk_wp [OF restore_job_makes])

lemma ReconcileArchiveRestore_makes: "makes_wanted (ReconcileArchiveRestore k)"
  unfolding ReconcileArchiveRestore_def restore_cleanup_def
  by (intro reading_makes)
    (auto simp: talk_def wp Let_def split: prod.split sum.split option.split
      intro!: talk_wp [OF restore_claims_makes])

lemma reconcile_makes: "makes_wanted (reconcile_fetched k)"
proof -
  have "makes_wanted (reconcile_restored k)"
    unfolding reconcile_restored_def give_up_def
    by (intro makes_rules made.tracks_after_step ReconcilePod_makes ReconcilePodMonitor_makes)
  then show ?thesis
    by (intro made.tracks_fetched Initialize_makes ReconcilePvc_makes ReconcileArchiveRestore_makes)
qed

lemma Reconcile_creates_wanted:
  assumes "c \<in> set (calls (Reconcile k req) s)"
  shows "creates_wanted c"
proof (cases "api_rpc_get k req (world s)")
  case (Pair reply w)
  then show ?thesis
    using assms talk_calls [OF makes_wantedD [OF reconcile_makes], of k]
    by (cases reply) (auto simp: Reconcile_not_found Reconcile_found)
qed

section \<open>The order of the creations\<close>

lemma makes_wanted_records: "makes_wanted m \<Longrightarrow> records m s"
  using makes_wantedD [of m s] by (cases "m s") (auto simp: talk_def wp_def records_def sends_def)

lemma starts_with_seq:
  "talk m s (\<lambda>_ l _. \<exists>c rest. l = c # rest \<and> P c) \<Longrightarrow> (\<And>x. makes_wanted (f x)) \<Longrightarrow>
   talk (seq m f) s (\<lambda>_ l _. \<exists>c rest. l = c # rest \<and> P c)"
  by (rule talk_seq, assumption, rule talk_mono [OF makes_wantedD]) auto

lemma starts_with_create:
  "talk (CreateOrReconcile h x rs) s (\<lambda>_ l _. \<exists>c rest. l = c # rest \<and> call_req c = CreateReq (h_obj h x))"
  unfolding wp_CreateOrReconcile talk_def Let_def
  by (auto split: prod.split sum.split outcome.split option.split)

text \<open>Once the restore is done, the pod is created first, and never a job.\<close>

lemma reconcile_restored_calls:
  "talk (reconcile_restored k) s (\<lambda>_ l _.
     (\<exists>c rest. l = c # rest \<and> call_req c = CreateReq (ObjPod (GetWantedPod (the_rpc s)))) \<and>
     (\<forall>c \<in> set l. \<forall>j. call_req c \<noteq> CreateReq (ObjJob j)))"
proof (rule talk_conj)
  have "talk (ReconcilePod k) s (\<lambda>_ l _. \<exists>c rest. l = c # rest \<and> call_req c = CreateReq (ObjPod (GetWantedPod (the_rpc s))))"
    unfolding ReconcilePod_def Let_def
    by (rule talk_reading, rule starts_with_seq, rule talk_mono [OF starts_with_create], simp)
      (intro makes_rules)
  then show "talk (reconcile_restored k) s (\<lambda>_ l _. \<exists>c rest. l = c # rest \<and>
      call_req c = CreateReq (ObjPod (GetWantedPod (the_rpc s))))"
    unfolding reconcile_restored_def give_up_def
    by (rule starts_with_seq) (intro makes_rules made.tracks_after_step ReconcilePodMonitor_makes)
  have "allows k {KindPod, KindPodMonitor} anyone (\<lambda>c. \<forall>j. call_req c \<noteq> CreateReq (ObjJob j))"
    by (auto simp: allows_def)
  from contract_talk [OF contract_reconcile_restored [OF keeps_anyone this] TrueI]
  show "talk (reconcile_restored k) s (\<lambda>_ l _. \<forall>c \<in> set l. \<forall>j. call_req c \<noteq> CreateReq (ObjJob j))"
    by (auto elim: talk_mono)
qed

lemma Initialize_done:
  "conditions (the_rpc s) \<noteq> [] \<Longrightarrow> Initialize k s = (Ret None, s)"
  by (simp add: Initialize_def seq_def read_cluster_def returns_def)

section \<open>Properties\<close>

text \<open>C35. What a reconciliation creates is what the shared copy of the resource wants at that
  moment, and of it the operator is woken up about exactly these changes: those of the claims
  and of the pod if that copy carries the kind it is registered with, which their owner
  reference repeats; those of the monitor, whose owner reference spells the kind out, if
  monitors are watched; and never those of the restore job, whose kind is watched but which
  has no owner. A change wakes up the resource that was reconciled and no other.\<close>

theorem ownership_and_watches:
  assumes "lawful_keys k" and "lawful_status_update k"
    and "c \<in> set (calls (Reconcile k req) s)" and "call_req c = CreateReq x"
  shows "wanted_by (call_cluster c) x \<and> woken (SetupWithManager b) x =
    (if object_kind x \<in> {KindPvc, KindPod} \<and>
        registered (tm_api_version (rpc_type (call_cluster c))) (tm_kind (rpc_type (call_cluster c))) \<or>
        object_kind x = KindPodMonitor \<and> b
     then Some req else None)"
proof -
  let ?r = "call_cluster c"
  have x: "wanted_by ?r x"
    using Reconcile_creates_wanted [OF assms(3)] assms(4) by (simp add: creates_wanted_def)
  obtain r where "meta_key (rpc_meta r) = req" "owned_key r (object_kind x) (object_key x)"
    using Reconcile_owned [OF assms(1-3), of "object_kind x" "object_key x"] assms(4) by auto
  moreover have "owned_key ?r (object_kind x) (object_key x)"
    using x by (cases x) auto
  ultimately have req: "req = \<lparr>nn_name = rpc_name ?r, nn_namespace = rpc_namespace ?r\<rparr>"
    using owned_key_disjoint [of r "object_kind x" "object_key x" ?r] by (simp add: meta_key_def)
  have "registered ''pathfinder.runelabs.xyz/v1alpha1'' ''StarknetRPC''"
    by (simp add: registered_def SchemeBuilder_def GroupVersion_def)
  with x req show ?thesis
    by (cases x) (auto simp: woken_def SetupWithManager_def storage.wanted_owners rpc_pod.wanted_owners
        restore_claim.wanted_owners pod_monitor.wanted_owners owner_ref_def GetWantedRestoreJob_def Let_def
        name_defs)
qed

text \<open>C13. The claim of the database is created and the Restore condition reset by two requests. Take a
  resource whose restore is done and whose claim is gone. If the reconciliation that creates
  the claim again has its status update refused, it returns that error, but the resource on
  the server still says restored. Then the next reconciliation that reads it finds the
  claim, removes what the restore needed, and goes on to create the pod: the node starts on an
  empty volume, and no job is created that would fill it.\<close>

theorem claim_reset_not_atomic:
  fixes s s' :: "'w run_state"
  assumes "lawful_conditions k" and restored: "is_status_condition_true k (conditions r) ''Restore''"
    and "api_rpc_get k req (world s) = (Inr r, w1)"
    and "api_create (api_pvcs k) (GetWantedPvc r) w1 = (Inr claim, w2)"
    and "\<And>node. api_status_update k node w2 = (Inl e, w3)"
    and "api_rpc_get k req (world s') = (Inr r, v1)"
    and "api_create (api_pvcs k) (GetWantedPvc r) v1 = (Inl AlreadyExists, v2)"
    and "api_delete (api_jobs k) (GetRestoreJobName r) (Some ''Background'') v2 = (d1, v3)" and "\<not> still_failed d1"
    and "api_delete (api_pvcs k) (GetRestorePvcName r) None v3 = (d2, v4)" and "\<not> still_failed d2"
  shows "\<exists>node rest. fst (Reconcile k req s) = Ret (empty_result, Some (Api e)) \<and>
    map call_req (calls (Reconcile k req) s) =
      [GetReq KindRpc req, CreateReq (ObjPvc (GetWantedPvc r)), StatusUpdateReq node] \<and>
    \<not> is_status_condition_true k (conditions node) ''Restore'' \<and>
    map call_req (calls (Reconcile k req) s') =
      [GetReq KindRpc req, CreateReq (ObjPvc (GetWantedPvc r)), DeleteReq KindJob (GetRestoreJobName r) (Some ''Background''),
       DeleteReq KindPvc (GetRestorePvcName r) None, CreateReq (ObjPod (GetWantedPod r))] @ rest \<and>
    (\<forall>j. CreateReq (ObjJob j) \<notin> set rest)"
proof -
  let ?node = "with_phases [RestoreStatus_Apply k StarknetRPCRestoreStatusPending] w2 r"
  have nonempty: "conditions r \<noteq> []"
    using restored assms(1) by (auto simp: lawful_conditions_def condition_of_def)
  have first: "wp (reconcile_fetched k) (\<lambda>r' s'. r' = Ret (empty_result, Some (Api e)) \<and>
      trace s' = trace s0 @ [answered s0 (CreateReq (ObjPvc (GetWantedPvc r))) (Got (ObjPvc claim)),
        \<lparr>call_cluster = ?node, call_req = StatusUpdateReq ?node, call_reply = Failed e\<rparr>]) s0"
    if "the_rpc s0 = r" "world s0 = w1" for s0
    using assms(4,5) that nonempty
    by (simp add: reconcile_fetched_def wp Initialize_def ReconcilePvc_def Let_def after_step_def give_up_def answered_def)
  have second: "\<exists>s1. reconcile_fetched k s0 = reconcile_restored k s1 \<and> the_rpc s1 = r \<and> map call_req (trace s1) = map call_req (trace s0) @
      [CreateReq (ObjPvc (GetWantedPvc r)), DeleteReq KindJob (GetRestoreJobName r) (Some ''Background''),
       DeleteReq KindPvc (GetRestorePvcName r) None]"
    if "the_rpc s0 = r" "world s0 = v1" for s0
    using assms(7-11) that nonempty restored
    by (intro exI [where x = "log_call (DeleteReq KindPvc (GetRestorePvcName r) None) (reply_opt d2)
        (log_call (DeleteReq KindJob (GetRestoreJobName r) (Some ''Background'')) (reply_opt d1)
          (log_call (CreateReq (ObjPvc (GetWantedPvc r))) (Failed AlreadyExists) (s0\<lparr>world := v2\<rparr>)\<lparr>world := v3\<rparr>)\<lparr>world := v4\<rparr>)"])
      (simp add: reconcile_fetched_def seq_def read_cluster_def returns_def Initialize_def ReconcilePvc_def Create_def Delete_def Let_def
        after_step_def ReconcileArchiveRestore_def restore_cleanup_def DeletePropagationBackground_def)
  from assms(3) have found: "calls (Reconcile k req) s = \<lparr>call_cluster = zero_rpc, call_req = GetReq KindRpc req,
      call_reply = Got (ObjRpc r)\<rparr> # calls (reconcile_fetched k) (fetched_state s req r w1)"
      "fst (Reconcile k req s) = fst (reconcile_fetched k (fetched_state s req r w1))"
    by (simp_all add: Reconcile_found)
  have "fst (reconcile_fetched k (fetched_state s req r w1)) = Ret (empty_result, Some (Api e))"
      "map call_req (calls (reconcile_fetched k) (fetched_state s req r w1)) =
        [CreateReq (ObjPvc (GetWantedPvc r)), StatusUpdateReq ?node]"
    using first [of "fetched_state s req r w1"]
    by (auto simp: wp_def calls_def answered_def split: prod.splits)
  then have one: "fst (Reconcile k req s) = Ret (empty_result, Some (Api e))"
      "map call_req (calls (Reconcile k req) s) =
        [GetReq KindRpc req, CreateReq (ObjPvc (GetWantedPvc r)), StatusUpdateReq ?node]"
    by (simp_all add: found)
  obtain s1 where s1: "reconcile_fetched k (fetched_state s' req r v1) = reconcile_restored k s1" "the_rpc s1 = r"
      "map call_req (trace s1) = map call_req (trace (fetched_state s' req r v1)) @
        [CreateReq (ObjPvc (GetWantedPvc r)), DeleteReq KindJob (GetRestoreJobName r) (Some ''Background''),
         DeleteReq KindPvc (GetRestorePvcName r) None]"
    using second [of "fetched_state s' req r v1"] by auto
  from reconcile_restored_calls [of k s1] obtain c l where l: "trace (snd (reconcile_restored k s1)) = trace s1 @ c # l"
      "call_req c = CreateReq (ObjPod (GetWantedPod r))" "\<forall>c \<in> set l. \<forall>j. call_req c \<noteq> CreateReq (ObjJob j)"
    unfolding talk_def wp_def s1(2) by (auto split: prod.splits)
  have "calls (reconcile_fetched k) (fetched_state s' req r v1) =
      drop (length (trace (fetched_state s' req r v1))) (trace s1 @ c # l)"
    by (simp add: calls_def s1(1) l(1))
  then have "map call_req (calls (reconcile_fetched k) (fetched_state s' req r v1)) =
      drop (length (map call_req (trace (fetched_state s' req r v1))))
        (map call_req (trace s1) @ CreateReq (ObjPod (GetWantedPod r)) # map call_req l)"
    by (simp add: drop_map [symmetric] l(2) del: drop_append)
  then have two: "map call_req (calls (Reconcile k req) s') =
      [GetReq KindRpc req, CreateReq (ObjPvc (GetWantedPvc r)), DeleteReq KindJob (GetRestoreJobName r) (Some ''Background''),
       DeleteReq KindPvc (GetRestorePvcName r) None, CreateReq (ObjPod (GetWantedPod r))] @ map call_req l"
    using assms(6) by (simp add: Reconcile_found s1(3) del: length_map)
  have "\<not> is_status_condition_true k (conditions ?node) ''Restore''"
    using restored_phases(1) [OF assms(1), of w2 r] by (simp add: restored_def)
  moreover have "\<forall>j. CreateReq (ObjJob j) \<notin> set (map call_req l)" using l(3) by (metis (no_types, opaque_lifting) image_iff list.set_map)
  ultimately show ?thesis
    using one two by (intro exI [where x = ?node] exI [where x = "map call_req l"] conjI)
qed

section \<open>Witnesses\<close>

text \<open>The pod of the sample is created by a reconciliation that leaves the resource's kind known.\<close>

theorem ownership_and_watches_witness:
  "\<exists>c \<in> set (calls (Reconcile mem_client sample_key) restored_run). \<exists>x. call_req c = CreateReq x \<and>
     object_kind x = KindPod \<and> woken (SetupWithManager False) x = Some sample_key"
proof -
  have "list_ex (\<lambda>c. creates_pod c \<and> registered (tm_api_version (rpc_type (call_cluster c))) (tm_kind (rpc_type (call_cluster c))))
      (calls (Reconcile mem_client sample_key) restored_run)"
    by code_simp
  then obtain c where c: "c \<in> set (calls (Reconcile mem_client sample_key) restored_run)" "creates_pod c"
      "registered (tm_api_version (rpc_type (call_cluster c))) (tm_kind (rpc_type (call_cluster c)))"
    unfolding list_ex_iff by blast
  then obtain p where p: "call_req c = CreateReq (ObjPod p)"
    by (auto simp: creates_pod_def split: Request.splits Object.splits)
  from ownership_and_watches [OF lawful_keys_mem lawful_status_update_mem c(1) p] c(1,3) p show ?thesis
    by (intro bexI [OF _ c(1)] exI [where x = "ObjPod p"]) (auto split: if_splits)
qed

text \<open>The claim of a restored resource is gone and status updates fail; then they work again.\<close>

definition unclaimed :: mem where
  "unclaimed = (serve restored_rpc empty_mem)\<lparr>m_status_fails := True\<rparr>"

definition reclaimed :: mem where
  "reclaimed = unclaimed\<lparr>m_pvcs := (m_pvcs unclaimed)(GetStoragePvcName restored_rpc := Some (GetWantedPvc restored_rpc))\<rparr>"

theorem claim_reset_not_atomic_witness:
  "\<exists>rest. fst (Reconcile mem_client sample_key (run_from unclaimed zero_rpc)) = Ret (empty_result, Some (Api Conflict)) \<and>
   map call_req (calls (Reconcile mem_client sample_key) (run_from (reclaimed\<lparr>m_status_fails := False\<rparr>) zero_rpc)) =
     [GetReq KindRpc sample_key, CreateReq (ObjPvc (GetWantedPvc restored_rpc)),
      DeleteReq KindJob (GetRestoreJobName restored_rpc) (Some ''Background''),
      DeleteReq KindPvc (GetRestorePvcName restored_rpc) None, CreateReq (ObjPod (GetWantedPod restored_rpc))] @ rest"
proof -
  have names: "GetRestorePvcName restored_rpc \<noteq> GetStoragePvcName restored_rpc"
    by (simp add: GetRestorePvcName_def GetStoragePvcName_def)
  have first: "api_rpc_get mem_client sample_key (world (run_from unclaimed zero_rpc)) = (Inr restored_rpc, unclaimed)"
      "api_create (api_pvcs mem_client) (GetWantedPvc restored_rpc) unclaimed = (Inr (GetWantedPvc restored_rpc), reclaimed)"
      "api_status_update mem_client node reclaimed = (Inl Conflict, reclaimed)" for node
    using sample_key(2) by (simp_all add: unclaimed_def reclaimed_def serve_def mem_status_update_def)
  let ?later = "reclaimed\<lparr>m_status_fails := False\<rparr>"
  have second: "api_rpc_get mem_client sample_key (world (run_from ?later zero_rpc)) = (Inr restored_rpc, ?later)"
      "api_create (api_pvcs mem_client) (GetWantedPvc restored_rpc) ?later = (Inl AlreadyExists, ?later)"
      "api_delete (api_jobs mem_client) (GetRestoreJobName restored_rpc) (Some ''Background'') ?later = (Some NotFound, ?later)"
      "api_delete (api_pvcs mem_client) (GetRestorePvcName restored_rpc) None ?later = (Some NotFound, ?later)"
    using sample_key(2) names by (simp_all add: unclaimed_def reclaimed_def serve_def)
  have "\<not> still_failed (Some NotFound)" by (simp add: still_failed_def)
  moreover have "is_status_condition_true mem_client (conditions restored_rpc) ''Restore''"
    using restored_rpc_true by simp
  ultimately show ?thesis
    using claim_reset_not_atomic [OF lawful_conditions_mem _ first second(1,2,3) _ second(4)] by blast
qed

end
