(* ===== verification/Steady.thy ===== *)
theory Steady
  imports History
begin

text \<open>
  The steady state. A resource is settled when its database is restored, its claim, its pod and its
  monitor are there and up to date, and what the restore needed is gone. A settled resource stays
  settled: any number of reconciliations ask the same questions, and none of them changes an object.
\<close>

section \<open>A settled server\<close>

text \<open>While the world is in \<open>W\<close>, the operation answers as \<open>A\<close> says and the world stays in \<open>W\<close>.\<close>

definition replies :: "('w \<Rightarrow> 'a \<times> 'w) \<Rightarrow> ('w \<Rightarrow> bool) \<Rightarrow> ('a \<Rightarrow> bool) \<Rightarrow> bool" where
  "replies f W A \<longleftrightarrow> (\<forall>w. W w \<longrightarrow> A (fst (f w)) \<and> W (snd (f w)))"

lemma repliesD: "replies f W A \<Longrightarrow> W w \<Longrightarrow> f w = (x, w') \<Longrightarrow> A x \<and> W w'"
  by (force simp: replies_def)

text \<open>An object of the name \<open>n\<close> is there: whatever is to be created under it is refused.\<close>

definition taken :: "('w, 'a) handle \<Rightarrow> NamespacedName \<Rightarrow> ('w \<Rightarrow> bool) \<Rightarrow> bool" where
  "taken h n W \<longleftrightarrow> (\<forall>x. h_key h x = n \<longrightarrow> replies (api_create (h_api h) x) W (\<lambda>y. y = Inl AlreadyExists))"

definition gone :: "('w, 'a) handle \<Rightarrow> NamespacedName \<Rightarrow> ('w \<Rightarrow> bool) \<Rightarrow> bool" where
  "gone h n W \<longleftrightarrow> (\<forall>policy. replies (api_delete (h_api h) n policy) W (\<lambda>y. y = Some NotFound))"

lemma takenD: "taken h (h_key h x) W \<Longrightarrow> api_create (h_api h) x w = (y, w') \<Longrightarrow> W w \<Longrightarrow>
    y = Inl AlreadyExists \<and> W w'"
  using repliesD [of "api_create (h_api h) x" W "\<lambda>y. y = Inl AlreadyExists" w y w'] by (simp add: taken_def)

lemma goneD: "gone h n W \<Longrightarrow> api_delete (h_api h) n policy w = (y, w') \<Longrightarrow> W w \<Longrightarrow>
    y = Some NotFound \<and> W w'"
  using repliesD [of "api_delete (h_api h) n policy" W "\<lambda>y. y = Some NotFound" w y w'] by (simp add: gone_def)

definition monitored :: "StarknetRPC \<Rightarrow> bool" where
  "monitored r = (case sp_pod_monitor (rpc_spec r) of None \<Rightarrow> False | Some config \<Rightarrow> pmc_enabled config)"

definition settled_rpc :: "'w client \<Rightarrow> StarknetRPC \<Rightarrow> StarknetRPC \<Rightarrow> bool" where
  "settled_rpc k r x \<longleftrightarrow> same_resource r x \<and> restored k x"

definition settled_pod :: "StarknetRPC \<Rightarrow> Pod \<Rightarrow> bool" where
  "settled_pod r p \<longleftrightarrow> safe_pod p \<and> good_image r p \<and> \<not> shouldPodGetRecreated p"

definition settled :: "'w client \<Rightarrow> StarknetRPC \<Rightarrow> ('w \<Rightarrow> bool) \<Rightarrow> bool" where
  "settled k r W \<longleftrightarrow>
     replies (api_rpc_get k (meta_key (rpc_meta r))) W (\<lambda>y. \<exists>x. y = Inr x \<and> settled_rpc k r x) \<and>
     (\<forall>x. settled_rpc k r x \<longrightarrow> replies (api_status_update k x) W (\<lambda>y. \<exists>x'. y = Inr x')) \<and>
     taken (pvcs k) (GetStoragePvcName r) W \<and>
     gone (jobs k) (GetRestoreJobName r) W \<and> gone (pvcs k) (GetRestorePvcName r) W \<and>
     taken (pods k) (GetPodName r) W \<and>
     replies (api_get (api_pods k) (GetPodName r)) W (\<lambda>y. \<exists>p. y = Inr p \<and> settled_pod r p) \<and>
     (\<forall>scheme ns n port path. replies (api_proxy_get k scheme ns n port path) W (\<lambda>_. True)) \<and>
     (if monitored r
      then taken (pod_monitors k) (GetPodMonitorName r) W \<and>
        replies (api_get (api_pod_monitors k) (GetPodMonitorName r)) W
          (\<lambda>y. \<exists>m. y = Inr m \<and> safe_monitor m \<and> good_monitor r m)
      else replies (api_get (api_pod_monitors k) (GetPodMonitorName r)) W (\<lambda>y. y = Inl NotFound))"

text \<open>A call that changes no object; a status that is sent says that the node is catching up.\<close>

definition idle :: "'w client \<Rightarrow> StarknetRPC \<Rightarrow> Call \<Rightarrow> bool" where
  "idle k r c = (case call_req c of
     GetReq _ _ \<Rightarrow> True
   | ProxyGetReq _ _ _ _ _ \<Rightarrow> True
   | CreateReq _ \<Rightarrow> call_reply c = Failed AlreadyExists
   | DeleteReq _ _ _ \<Rightarrow> call_reply c = Failed NotFound
   | StatusUpdateReq x \<Rightarrow> settled_rpc k r x \<and>
       condition_reads (conditions x) ''Available'' ConditionUnknown ''CatchingUp''
   | UpdateReq _ \<Rightarrow> False
   | EventReq _ _ _ \<Rightarrow> False)"

section \<open>Quiet actions\<close>

definition quiet :: "'w client \<Rightarrow> StarknetRPC \<Rightarrow> ('w \<Rightarrow> bool) \<Rightarrow> ('w, 'a) act \<Rightarrow> ('a \<Rightarrow> bool) \<Rightarrow> bool" where
  "quiet k r W m R \<longleftrightarrow> (\<forall>s. W (world s) \<longrightarrow> settled_rpc k r (the_rpc s) \<longrightarrow>
     wp m (\<lambda>q s'. (\<exists>x. q = Ret x \<and> R x) \<and> W (world s') \<and> settled_rpc k r (the_rpc s') \<and>
       (\<exists>l. trace s' = trace s @ l \<and> list_all (idle k r) l)) s)"

lemma quietD:
  assumes "quiet k r W m R" "W (world s)" "settled_rpc k r (the_rpc s)"
  obtains x s' l where "m s = (Ret x, s')" "R x" "W (world s')" "settled_rpc k r (the_rpc s')"
    "trace s' = trace s @ l" "list_all (idle k r) l"
  using assms unfolding quiet_def wp_def by (cases "m s") fastforce

lemma quiet_seq:
  assumes m: "quiet k r W m R" and f: "\<And>x. R x \<Longrightarrow> quiet k r W (f x) Q"
  shows "quiet k r W (seq m f) Q"
  unfolding quiet_def
proof (intro allI impI)
  fix s :: "'a run_state"
  assume s: "W (world s)" "settled_rpc k r (the_rpc s)"
  from m s obtain x s' l where 1: "m s = (Ret x, s')" "R x" "W (world s')" "settled_rpc k r (the_rpc s')"
    "trace s' = trace s @ l" "list_all (idle k r) l" by (rule quietD)
  from f [OF 1(2)] 1(3,4) obtain y s'' l' where "f x s' = (Ret y, s'')" "Q y" "W (world s'')"
    "settled_rpc k r (the_rpc s'')" "trace s'' = trace s' @ l'" "list_all (idle k r) l'" by (rule quietD)
  with 1 show "wp (seq m f) (\<lambda>q s'. (\<exists>x. q = Ret x \<and> Q x) \<and> W (world s') \<and> settled_rpc k r (the_rpc s') \<and>
       (\<exists>l. trace s' = trace s @ l \<and> list_all (idle k r) l)) s"
    by (simp add: wp_def seq_def)
qed

lemma quiet_returns: "R x \<Longrightarrow> quiet k r W (returns x) R"
  by (simp add: quiet_def wp)

lemma quiet_pure: "q = Ret x \<Longrightarrow> R x \<Longrightarrow> quiet k r W (pure q) R"
  by (simp add: quiet_def wp)

lemma quiet_reading:
  "(\<And>x. settled_rpc k r x \<Longrightarrow> quiet k r W (f x) R) \<Longrightarrow> quiet k r W (seq read_cluster f) R"
  by (simp add: quiet_def wp)

lemma quiet_Get: "replies (api_get (h_api h) n) W A \<Longrightarrow> quiet k r W (Get h n) A"
  by (auto simp: quiet_def wp idle_def split: prod.split dest: repliesD)

lemma quiet_Create:
  "taken h (h_key h x) W \<Longrightarrow> quiet k r W (Create h x) (\<lambda>y. y = Inl AlreadyExists)"
  by (auto simp: quiet_def wp idle_def reply_of_def split: prod.split dest: takenD)

lemma quiet_Delete:
  "gone h (h_key h x) W \<Longrightarrow> quiet k r W (Delete h x policy) (\<lambda>y. y = Some NotFound)"
  by (auto simp: quiet_def wp idle_def reply_opt_def split: prod.split dest: goneD)

lemma quiet_ProxyGet:
  "replies (api_proxy_get k scheme ns n port path) W A \<Longrightarrow> quiet k r W (ProxyGet k scheme ns n port path) A"
  by (auto simp: quiet_def wp idle_def split: prod.split dest: repliesD)

text \<open>An action whose answer is known goes on with this answer.\<close>

lemma quiet_then:
  "taken h (h_key h x) W \<Longrightarrow> quiet k r W (f (Inl AlreadyExists)) R \<Longrightarrow> quiet k r W (seq (Create h x) f) R"
  "gone h (h_key h x) W \<Longrightarrow> quiet k r W (g (Some NotFound)) R \<Longrightarrow> quiet k r W (seq (Delete h x policy) g) R"
  by (auto intro: quiet_seq [OF quiet_Create] quiet_seq [OF quiet_Delete])

text \<open>The one status that is sent.\<close>

lemma quiet_catching_up:
  assumes "lawful_conditions k" "lawful_status_update k"
    and "\<And>x. settled_rpc k r x \<Longrightarrow> replies (api_status_update k x) W (\<lambda>y. \<exists>x'. y = Inr x')"
  shows "quiet k r W (SetPhases k [AvailableStatus_Apply k StarknetRPCAvailableStatusCatchingUp]) (\<lambda>e. e = None)"
proof -
  let ?t = "\<lambda>w x. with_phases [AvailableStatus_Apply k StarknetRPCAvailableStatusCatchingUp] w x"
  have "keeps k (pod_marks k) (settled_rpc k r)"
    unfolding settled_rpc_def
    by (intro keeps_conj keeps_same_resource [OF assms(2)] keeps_restored [OF assms(1,2)]) simp
  then have same: "settled_rpc k r (?t w x)" if "settled_rpc k r x" for w x
    using that by (intro keeps_with_phases [where I = "settled_rpc k r"]) auto
  have reads: "condition_reads (conditions (?t w x)) ''Available'' ConditionUnknown ''CatchingUp''" for w x
    using available.applied_reads [OF assms(1), where p = StarknetRPCAvailableStatusCatchingUp]
    by (simp add: with_phases_def AvailableStatus_Apply_def condition_type_defs
        AvailableStatus_Status_def available_phase_defs)
  have update: "(\<exists>x'. y = Inr x' \<and> settled_rpc k r x') \<and> W w'"
    if "settled_rpc k r x" "W w" "api_status_update k x w = (y, w')" for x w y w'
    using repliesD [OF assms(3) [OF that(1)] that(2,3)] lawful_status_updateD [OF assms(2), of x w _ w'] that
    by (auto simp: settled_rpc_def restored_def intro: same_resource_trans)
  show ?thesis
    using update [OF same]
    by (fastforce simp: quiet_def wp Let_def idle_def same reads split: prod.split sum.split)
qed

section \<open>The stages\<close>

lemma settled_same:
  assumes "settled_rpc k r x"
  shows "GetStoragePvcName x = GetStoragePvcName r" "GetRestorePvcName x = GetRestorePvcName r"
    "GetRestoreJobName x = GetRestoreJobName r" "GetPodName x = GetPodName r"
    "GetPodMonitorName x = GetPodMonitorName r" "monitored x = monitored r"
    "good_image x = good_image r" "good_monitor x = good_monitor r"
  using assms names_same_resource [of r x]
  by (auto simp: settled_rpc_def same_resource_def monitored_def good_image_def good_monitor_def fun_eq_iff
      getPodImage_def getPodMonitorLabels_def default_labels_def Let_def split: list.split option.split)

lemma settledD:
  assumes "settled k r W" "settled_rpc k r x"
  shows "replies (api_rpc_get k (meta_key (rpc_meta r))) W (\<lambda>y. \<exists>x. y = Inr x \<and> settled_rpc k r x)"
    and "replies (api_status_update k x) W (\<lambda>y. \<exists>x'. y = Inr x')"
    and "taken (pvcs k) (GetStoragePvcName x) W"
    and "gone (jobs k) (GetRestoreJobName x) W" "gone (pvcs k) (GetRestorePvcName x) W"
    and "taken (pods k) (GetPodName x) W"
    and "replies (api_get (api_pods k) (GetPodName x)) W (\<lambda>y. \<exists>p. y = Inr p \<and> settled_pod x p)"
    and "replies (api_proxy_get k scheme ns n port path) W (\<lambda>_. True)"
    and "monitored x \<Longrightarrow> taken (pod_monitors k) (GetPodMonitorName x) W"
    and "monitored x \<Longrightarrow> replies (api_get (api_pod_monitors k) (GetPodMonitorName x)) W
          (\<lambda>y. \<exists>m. y = Inr m \<and> safe_monitor m \<and> good_monitor x m)"
    and "\<not> monitored x \<Longrightarrow>
      replies (api_get (api_pod_monitors k) (GetPodMonitorName x)) W (\<lambda>y. y = Inl NotFound)"
  using assms(1) unfolding settled_def settled_pod_def settled_same [OF assms(2)]
  by (simp_all add: assms(2))

lemma quiet_ReconcilePvc:
  assumes "settled k r W"
  shows "quiet k r W (ReconcilePvc k) (\<lambda>q. q = (Some empty_result, None))"
  unfolding ReconcilePvc_def
  by (rule quiet_reading) (simp add: quiet_then quiet_returns settledD [OF assms])

lemma quiet_ReconcileArchiveRestore:
  assumes "settled k r W"
  shows "quiet k r W (ReconcileArchiveRestore k) (\<lambda>q. q = (Some empty_result, None))"
proof -
  have "quiet k r W (restore_cleanup k x) (\<lambda>q. q = (Some empty_result, None))" if "settled_rpc k r x" for x
    by (simp add: restore_cleanup_def quiet_then quiet_returns still_failed_def settledD [OF assms that])
  then show ?thesis
    unfolding ReconcileArchiveRestore_def
    by (intro quiet_reading) (simp add: settled_rpc_def restored_def)
qed

text \<open>An object that is there and up to date is read and left as it is.\<close>

lemma seq_known: "seq (returns v) f = f v" "seq (pure (Ret v)) f = f v"
  by (simp_all add: fun_eq_iff seq_run)

lemma quiet_CreateOrReconcile:
  assumes "taken h (h_key h x) W" "replies (api_get (h_api h) (h_key h x)) W (\<lambda>y. \<exists>z. y = Inr z \<and> A z)"
    and "\<And>z. A z \<Longrightarrow> run_reconcilers rs z False = Ret (None, z, False)"
  shows "quiet k r W (CreateOrReconcile h x rs) (\<lambda>q. \<exists>z. q = (False, None, z) \<and> A z)"
  unfolding CreateOrReconcile_def
  by (rule quiet_then(1) [OF assms(1)], simp, rule quiet_seq [OF quiet_Get [OF assms(2)]])
    (auto simp: assms(3) seq_known intro!: quiet_returns)

lemma quiet_IsReady:
  assumes "settled k r W" "settled_pod x p"
  shows "quiet k r W (IsReady k p) (\<lambda>_. True)"
proof -
  obtain n sch where ports: "getNamedPort p ''management'' = Ret n" "probe_scheme p = Ret sch"
    using assms(2) safe_pod_ports unfolding settled_pod_def by blast
  have answer: "replies (api_proxy_get k scheme ns n port path) W (\<lambda>_. True)" for scheme ns n port path
    using assms(1) by (simp add: settled_def)
  show ?thesis
    unfolding IsReady_def ports Let_def
    by (auto intro!: quiet_returns quiet_seq [OF quiet_pure [OF refl]] quiet_seq [OF quiet_ProxyGet [OF answer]]
        split: option.split)
qed

lemma quiet_ReconcilePod:
  assumes "lawful_conditions k" "lawful_status_update k" "settled k r W"
  shows "quiet k r W (ReconcilePod k) (\<lambda>q. q = (Some empty_result, None))"
  unfolding ReconcilePod_unfold
proof (rule quiet_reading)
  fix x
  assume x: "settled_rpc k r x"
  note server = settledD [OF assms(3) x]
  have image: "run_reconcilers [ImageReconciler x] p False = Ret (None, p, False)" if "settled_pod x p" for p
    using image_rec.run [OF safe_pod_has_container [of p], of x] that by (simp add: settled_pod_def del: run_reconcilers.simps)
  have pod: "quiet k r W (CreateOrReconcile (pods k) (GetWantedPod x) [ImageReconciler x])
      (\<lambda>q. \<exists>p. q = (False, None, p) \<and> settled_pod x p)"
    by (rule quiet_CreateOrReconcile) (simp_all add: server image del: run_reconcilers.simps)
  note status = quiet_catching_up [OF assms(1,2) settledD(2) [OF assms(3)]]
  have followup: "quiet k r W (pod_followup k False p) (\<lambda>q. q = (Some empty_result, None))" if "settled_pod x p" for p
    unfolding pod_followup_def using that
    by (auto simp: seq_known settled_pod_def intro!: quiet_returns
        quiet_seq [OF quiet_IsReady [OF assms(3) that]] quiet_seq [OF status])
  show "quiet k r W (seq (CreateOrReconcile (pods k) (GetWantedPod x) [ImageReconciler x])
      (\<lambda>(created, err, pod). case err of Some e \<Rightarrow> returns (None, Some e) | None \<Rightarrow> pod_followup k created pod))
      (\<lambda>q. q = (Some empty_result, None))"
    by (rule quiet_seq [OF pod]) (auto intro: followup)
qed

lemma quiet_ReconcilePodMonitor:
  assumes "settled k r W"
  shows "quiet k r W (ReconcilePodMonitor k) (\<lambda>q. q = (Some empty_result, None))"
  unfolding ReconcilePodMonitor_def
proof (rule quiet_reading)
  fix x
  assume x: "settled_rpc k r x"
  note server = settledD [OF assms x]
  show "quiet k r W (if (case sp_pod_monitor (rpc_spec x) of None \<Rightarrow> True | Some config \<Rightarrow> \<not> pmc_enabled config)
     then remove_monitor k x
     else seq (Get (pods k) (GetPodName x)) (\<lambda>got. case got of
           Inl err \<Rightarrow> if err = NotFound then returns (Some empty_result, None) else returns (None, Some (Api err))
         | Inr _ \<Rightarrow> ensure_monitor k x)) (\<lambda>q. q = (Some empty_result, None))"
  proof (cases "monitored x")
    case True
    have spec: "run_reconcilers [PodMonitorSpecReconciler x] m False = Ret (None, m, False)"
      if "safe_monitor m \<and> good_monitor x m" for m
      using monitor_rec.run [of m x] that by (simp del: run_reconcilers.simps)
    have "quiet k r W (ensure_monitor k x) (\<lambda>q. q = (Some empty_result, None))"
      unfolding ensure_monitor_def Let_def
      by (rule quiet_seq [OF quiet_CreateOrReconcile [where A = "\<lambda>m. safe_monitor m \<and> good_monitor x m"]])
        (auto simp: server True spec simp del: run_reconcilers.simps intro!: quiet_returns)
    with True show ?thesis
      by (auto simp: monitored_def split: option.splits intro!: quiet_seq [OF quiet_Get [of "pods k", simplified, OF server(7)]])
  next
    case False
    have "quiet k r W (remove_monitor k x) (\<lambda>q. q = (Some empty_result, None))"
      unfolding remove_monitor_def
      by (rule quiet_seq [OF quiet_Get [of "pod_monitors k", simplified, OF server(11) [OF False]]])
        (auto intro: quiet_returns)
    with False show ?thesis by (auto simp: monitored_def split: option.splits)
  qed
qed

section \<open>The reconciliation\<close>

lemma quiet_Initialize:
  assumes "lawful_conditions k"
  shows "quiet k r W (Initialize k) (\<lambda>e. e = None)"
proof -
  have "conditions x \<noteq> []" if "settled_rpc k r x" for x
    using that assms by (auto simp: settled_rpc_def restored_def lawful_conditions_def condition_of_def)
  then show ?thesis
    unfolding Initialize_def by (intro quiet_reading) (simp add: quiet_returns)
qed

lemma after_step_ok: "after_step (result, None) on_error m = m"
  by (simp add: after_step_def)

lemma quiet_reconcile_fetched:
  assumes "lawful_conditions k" "lawful_status_update k" "settled k r W"
  shows "quiet k r W (reconcile_fetched k) (\<lambda>q. q = (empty_result, None))"
proof -
  have restored: "quiet k r W (reconcile_restored k) (\<lambda>q. q = (empty_result, None))"
    unfolding reconcile_restored_def
    by (rule quiet_seq [OF quiet_ReconcilePod [OF assms]])
      (auto simp: after_step_ok intro!: quiet_returns quiet_seq [OF quiet_ReconcilePodMonitor [OF assms(3)]])
  have gate: "quiet k r W (seq read_cluster (\<lambda>rpc. if \<not> is_status_condition_true k (conditions rpc) ''Restore''
      then returns (after (30 * Second), None) else reconcile_restored k)) (\<lambda>q. q = (empty_result, None))"
    by (rule quiet_reading) (simp add: settled_rpc_def restored_def restored)
  have restore: "quiet k r W (seq (ReconcileArchiveRestore k) (\<lambda>res. after_step res give_up
      (seq read_cluster (\<lambda>rpc. if \<not> is_status_condition_true k (conditions rpc) ''Restore''
        then returns (after (30 * Second), None) else reconcile_restored k)))) (\<lambda>q. q = (empty_result, None))"
    by (rule quiet_seq [OF quiet_ReconcileArchiveRestore [OF assms(3)]]) (simp add: after_step_ok gate)
  have pvc: "quiet k r W (seq (ReconcilePvc k) (\<lambda>res. after_step res give_up
      (seq (ReconcileArchiveRestore k) (\<lambda>res. after_step res give_up
      (seq read_cluster (\<lambda>rpc. if \<not> is_status_condition_true k (conditions rpc) ''Restore''
        then returns (after (30 * Second), None) else reconcile_restored k)))))) (\<lambda>q. q = (empty_result, None))"
    by (rule quiet_seq [OF quiet_ReconcilePvc [OF assms(3)]]) (simp add: after_step_ok restore)
  show ?thesis
    unfolding reconcile_fetched_def
    by (rule quiet_seq [OF quiet_Initialize [OF assms(1)]]) (simp add: pvc)
qed

lemma Reconcile_quiet:
  assumes "lawful_conditions k" "lawful_status_update k" "settled k r W" "W (world s)"
  shows "fst (Reconcile k (meta_key (rpc_meta r)) s) = Ret (empty_result, None) \<and>
    W (world (snd (Reconcile k (meta_key (rpc_meta r)) s))) \<and>
    (\<exists>l. trace (snd (Reconcile k (meta_key (rpc_meta r)) s)) = trace s @ l \<and> list_all (idle k r) l)"
proof -
  let ?req = "meta_key (rpc_meta r)"
  from assms(3) have "replies (api_rpc_get k ?req) W (\<lambda>y. \<exists>x. y = Inr x \<and> settled_rpc k r x)"
    by (simp add: settled_def)
  with assms(4) obtain x w where x: "api_rpc_get k ?req (world s) = (Inr x, w)" "settled_rpc k r x" "W w"
    unfolding replies_def by (metis surjective_pairing)
  have "W (world (fetched_state s ?req x w))" "settled_rpc k r (the_rpc (fetched_state s ?req x w))"
    using x by simp_all
  with quiet_reconcile_fetched [OF assms(1-3)] obtain s' l where
      "reconcile_fetched k (fetched_state s ?req x w) = (Ret (empty_result, None), s')" "W (world s')"
      "trace s' = trace (fetched_state s ?req x w) @ l" "list_all (idle k r) l"
    by (rule quietD) simp
  then show ?thesis
    by (auto simp: Reconcile_found(1) [OF x(1)] fetched_state_def log_call_def idle_def)
qed

text \<open>The state after \<open>n\<close> more reconciliations.\<close>

fun again :: "'w client \<Rightarrow> NamespacedName \<Rightarrow> nat \<Rightarrow> 'w run_state \<Rightarrow> 'w run_state" where
  "again k req 0 s = s"
| "again k req (Suc n) s = snd (Reconcile k req (again k req n s))"

section \<open>Properties\<close>

text \<open>C8. A settled resource stays settled: after any number of reconciliations the next one still
  succeeds without asking for another, and all that was sent were reads, creations refused since
  the object is there, deletions of what is gone, and a status that says that the node is
  catching up. No object was created, updated or deleted.\<close>

theorem Reconcile_settled:
  assumes "lawful_conditions k" and "lawful_status_update k"
    and "settled k r W" and "W (world s)" and "req = meta_key (rpc_meta r)"
  shows "fst (Reconcile k req (again k req n s)) = Ret (empty_result, None) \<and> W (world (again k req n s)) \<and>
    (\<exists>l. trace (again k req n s) = trace s @ l \<and> list_all (idle k r) l)"
proof -
  have "W (world (again k req n s)) \<and> (\<exists>l. trace (again k req n s) = trace s @ l \<and> list_all (idle k r) l)"
  proof (induction n)
    case 0
    with assms(4) show ?case by simp
  next
    case (Suc n)
    with Reconcile_quiet [OF assms(1-3), of "again k req n s"] show ?case by (auto simp: assms(5))
  qed
  with Reconcile_quiet [OF assms(1-3)] show ?thesis by (simp add: assms(5))
qed

text \<open>A server whose resource is settled: everything is there, the node runs and answers.\<close>

definition settled_mem :: "StarknetRPC \<Rightarrow> mem" where
  "settled_mem x = (monitor_mem (GetWantedPodMonitor sample_rpc))\<lparr>
     m_pvcs := [GetStoragePvcName sample_rpc \<mapsto> bound_claim (GetWantedPvc sample_rpc)],
     m_rpcs := [sample_key \<mapsto> x]\<rparr>"

definition settled_world :: "mem \<Rightarrow> bool" where
  "settled_world w \<longleftrightarrow> (\<exists>x. w = settled_mem x \<and> settled_rpc mem_client sample_rpc x)"

lemma settled_mem_sel [simp]:
  "m_pvcs (settled_mem x) = [GetStoragePvcName sample_rpc \<mapsto> bound_claim (GetWantedPvc sample_rpc)]"
  "m_jobs (settled_mem x) = (\<lambda>_. None)" "m_rpcs (settled_mem x) = [sample_key \<mapsto> x]"
  "m_pods (settled_mem x) = [GetPodName sample_rpc \<mapsto> running_pod]"
  "m_monitors (settled_mem x) = [GetPodMonitorName sample_rpc \<mapsto> GetWantedPodMonitor sample_rpc]"
  "\<not> m_status_fails (settled_mem x)" "m_proxy (settled_mem x) = None"
  by (simp_all add: settled_mem_def monitor_mem_def pod_mem_def)

lemma settled_sample: "settled mem_client sample_rpc settled_world"
proof -
  have key: "meta_key (rpc_meta x) = sample_key" if "settled_rpc mem_client sample_rpc x" for x
    using that by (simp add: settled_rpc_def same_resource_def meta_key_def sample_key_def)
  have update: "(settled_mem x)\<lparr>m_rpcs := [sample_key \<mapsto> y]\<rparr> = settled_mem y" for x y
    by (simp add: settled_mem_def)
  have pod: "settled_pod sample_rpc running_pod" "meta_key (pod_meta running_pod) = GetPodName sample_rpc"
    by (simp_all add: settled_pod_def running_pod_def safe_pod_def good_image_def shouldPodGetRecreated_def
        GetWantedPod_def Let_def meta_key_def GetPodName_def)
  have monitor: "monitored sample_rpc" "safe_monitor (GetWantedPodMonitor sample_rpc)"
    "good_monitor sample_rpc (GetWantedPodMonitor sample_rpc)"
    by code_simp+
  show ?thesis
    unfolding settled_def taken_def gone_def replies_def settled_world_def
    using key
    by (intro conjI) (auto simp: sample_key mem_status_update_def update pod monitor if_P [OF monitor(1)] name_defs)
qed

theorem Reconcile_settled_witness:
  "fst (Reconcile mem_client sample_key (again mem_client sample_key 3 (run_from (settled_mem restored_rpc) zero_rpc))) =
     Ret (empty_result, None)"
proof -
  have "settled_rpc mem_client sample_rpc restored_rpc"
    using restored_rpc_true by (simp add: settled_rpc_def restored_def restored_rpc_def)
  then have "settled_world (world (run_from (settled_mem restored_rpc) zero_rpc))"
    unfolding settled_world_def by auto
  from Reconcile_settled [OF lawful_conditions_mem lawful_status_update_mem settled_sample this
      sample_key(1) [symmetric]] show ?thesis by blast
qed

end
