(* ===== verification/Cluster.thy ===== *)
theory Cluster
  imports Controller
begin

text \<open>
  A cluster, as the operator may rely on it while the API server answers: what the server documents
  of its stores, seen through a view of the world, and a judgement for what an action does to the
  view. The server is still a parameter; it may fill in fields of what it is given, within the
  limits stated here, and nothing is said of it while it is not responsive.
\<close>

section \<open>The view\<close>

record cluster =
  cl_rpcs :: "NamespacedName \<Rightarrow> StarknetRPC option"
  cl_pvcs :: "NamespacedName \<Rightarrow> PersistentVolumeClaim option"
  cl_jobs :: "NamespacedName \<Rightarrow> Job option"
  cl_pods :: "NamespacedName \<Rightarrow> Pod option"
  cl_monitors :: "NamespacedName \<Rightarrow> PodMonitor option"

text \<open>
  A view gives the cluster behind a world in which the server is responsive, and \<open>None\<close> for a
  world in which it is not: there any call may fail, be lost or be answered from an old cache.

  The store of one kind of object, where the server is responsive: \<open>look\<close> reads it in the view,
  \<open>upd\<close> changes it there, \<open>same\<close> says what of a written object comes back. A read changes nothing; a
  creation is refused exactly when the name is taken; an update and a deletion need the object. A
  deletion that is accepted may leave the object where it is for a while, since finalizers, the
  grace period and the propagation policy delay it.
\<close>

definition stores :: "('w, 'a) handle \<Rightarrow> ('a \<Rightarrow> 'a \<Rightarrow> bool) \<Rightarrow> ('w \<Rightarrow> cluster option) \<Rightarrow>
    (cluster \<Rightarrow> NamespacedName \<Rightarrow> 'a option) \<Rightarrow>
    (((NamespacedName \<Rightarrow> 'a option) \<Rightarrow> NamespacedName \<Rightarrow> 'a option) \<Rightarrow> cluster \<Rightarrow> cluster) \<Rightarrow> bool" where
  "stores h same view look upd \<longleftrightarrow> (\<forall>w v. view w = Some v \<longrightarrow>
     (\<forall>n r w'. api_get (h_api h) n w = (r, w') \<longrightarrow> view w' = Some v \<and>
        r = (case look v n of None \<Rightarrow> Inl NotFound | Some x \<Rightarrow> Inr x)) \<and>
     (\<forall>x r w'. api_create (h_api h) x w = (r, w') \<longrightarrow> (case look v (h_key h x) of
        Some _ \<Rightarrow> r = Inl AlreadyExists \<and> view w' = Some v
      | None \<Rightarrow> \<exists>y. r = Inr y \<and> same x y \<and> view w' = Some (upd (\<lambda>m. m(h_key h x \<mapsto> y)) v))) \<and>
     (\<forall>x r w'. api_update (h_api h) x w = (r, w') \<longrightarrow> (case look v (h_key h x) of
        None \<Rightarrow> r = Inl NotFound \<and> view w' = Some v
      | Some _ \<Rightarrow> \<exists>y. r = Inr y \<and> same x y \<and> view w' = Some (upd (\<lambda>m. m(h_key h x \<mapsto> y)) v))) \<and>
     (\<forall>n policy r w'. api_delete (h_api h) n policy w = (r, w') \<longrightarrow> (case look v n of
        None \<Rightarrow> r = Some NotFound \<and> view w' = Some v
      | Some _ \<Rightarrow> r = None \<and> (view w' = Some (upd (\<lambda>m. m(n := None)) v) \<or> view w' = Some v))))"

lemma storesD:
  assumes "stores h same view look upd" and "view w = Some v"
  shows "api_get (h_api h) n w = (r, w') \<Longrightarrow> view w' = Some v \<and>
      r = (case look v n of None \<Rightarrow> Inl NotFound | Some x \<Rightarrow> Inr x)"
    and "api_create (h_api h) x w = (r, w') \<Longrightarrow> look v (h_key h x) = Some z \<Longrightarrow>
      r = Inl AlreadyExists \<and> view w' = Some v"
    and "api_create (h_api h) x w = (r, w') \<Longrightarrow> look v (h_key h x) = None \<Longrightarrow>
      \<exists>y. r = Inr y \<and> same x y \<and> view w' = Some (upd (\<lambda>m. m(h_key h x \<mapsto> y)) v)"
    and "api_update (h_api h) x w = (r, w') \<Longrightarrow> look v (h_key h x) = Some z \<Longrightarrow>
      \<exists>y. r = Inr y \<and> same x y \<and> view w' = Some (upd (\<lambda>m. m(h_key h x \<mapsto> y)) v)"
    and "api_delete (h_api h) n policy w = (e, w') \<Longrightarrow> look v n = None \<Longrightarrow>
      e = Some NotFound \<and> view w' = Some v"
    and "api_delete (h_api h) n policy w = (e, w') \<Longrightarrow> look v n = Some z \<Longrightarrow>
      e = None \<and> (view w' = Some (upd (\<lambda>m. m(n := None)) v) \<or> view w' = Some v)"
proof -
  note S = assms(1) [unfolded stores_def, rule_format, OF assms(2)]
  show "api_get (h_api h) n w = (r, w') \<Longrightarrow> view w' = Some v \<and>
      r = (case look v n of None \<Rightarrow> Inl NotFound | Some x \<Rightarrow> Inr x)"
    using S by blast
  show "api_create (h_api h) x w = (r, w') \<Longrightarrow> look v (h_key h x) = Some z \<Longrightarrow>
      r = Inl AlreadyExists \<and> view w' = Some v"
    "api_create (h_api h) x w = (r, w') \<Longrightarrow> look v (h_key h x) = None \<Longrightarrow>
      \<exists>y. r = Inr y \<and> same x y \<and> view w' = Some (upd (\<lambda>m. m(h_key h x \<mapsto> y)) v)"
    using conjunct1 [OF conjunct2 [OF S]] by (fastforce split: option.splits)+
  show "api_update (h_api h) x w = (r, w') \<Longrightarrow> look v (h_key h x) = Some z \<Longrightarrow>
      \<exists>y. r = Inr y \<and> same x y \<and> view w' = Some (upd (\<lambda>m. m(h_key h x \<mapsto> y)) v)"
    using conjunct1 [OF conjunct2 [OF conjunct2 [OF S]]] by (fastforce split: option.splits)
  show "api_delete (h_api h) n policy w = (e, w') \<Longrightarrow> look v n = None \<Longrightarrow>
      e = Some NotFound \<and> view w' = Some v"
    "api_delete (h_api h) n policy w = (e, w') \<Longrightarrow> look v n = Some z \<Longrightarrow>
      e = None \<and> (view w' = Some (upd (\<lambda>m. m(n := None)) v) \<or> view w' = Some v)"
    using conjunct2 [OF conjunct2 [OF conjunct2 [OF S]]] by (fastforce split: option.splits)+
qed

text \<open>What comes back of an object: its key, and of a pod and a monitor what the operator looks at.\<close>

definition same_claim :: "PersistentVolumeClaim \<Rightarrow> PersistentVolumeClaim \<Rightarrow> bool" where
  "same_claim x y \<longleftrightarrow> meta_key (pvc_meta y) = meta_key (pvc_meta x)"

definition same_job :: "Job \<Rightarrow> Job \<Rightarrow> bool" where
  "same_job x y \<longleftrightarrow> meta_key (job_meta y) = meta_key (job_meta x)"

definition same_pod :: "Pod \<Rightarrow> Pod \<Rightarrow> bool" where
  "same_pod x y \<longleftrightarrow> meta_key (pod_meta y) = meta_key (pod_meta x) \<and>
     map ct_image (ps_containers (pod_spec y)) = map ct_image (ps_containers (pod_spec x)) \<and>
     (safe_pod x \<longrightarrow> safe_pod y) \<and> shouldPodGetRecreated y = shouldPodGetRecreated x"

definition same_monitor :: "PodMonitor \<Rightarrow> PodMonitor \<Rightarrow> bool" where
  "same_monitor x y \<longleftrightarrow> meta_key (pm_meta y) = meta_key (pm_meta x) \<and>
     om_labels (pm_meta y) = om_labels (pm_meta x) \<and> pm_spec y = pm_spec x"

text \<open>While the server is responsive, it answers every call as documented, and stays responsive.\<close>

definition responsive :: "'w client \<Rightarrow> ('w \<Rightarrow> cluster option) \<Rightarrow> bool" where
  "responsive k view \<longleftrightarrow> lawful_conditions k \<and>
     stores (pvcs k) same_claim view cl_pvcs cl_pvcs_update \<and>
     stores (jobs k) same_job view cl_jobs cl_jobs_update \<and>
     stores (pods k) same_pod view cl_pods cl_pods_update \<and>
     stores (pod_monitors k) same_monitor view cl_monitors cl_monitors_update \<and>
     (\<forall>w v. view w = Some v \<longrightarrow>
       (\<forall>n r w'. api_rpc_get k n w = (r, w') \<longrightarrow> view w' = Some v \<and>
          r = (case cl_rpcs v n of None \<Rightarrow> Inl NotFound | Some x \<Rightarrow> Inr x)) \<and>
       (\<forall>x r w'. api_status_update k x w = (r, w') \<longrightarrow> (case cl_rpcs v (meta_key (rpc_meta x)) of
          None \<Rightarrow> r = Inl NotFound \<and> view w' = Some v
        | Some _ \<Rightarrow> \<exists>y. r = Inr y \<and> same_resource x y \<and> conditions y = conditions x \<and>
            view w' = Some (cl_rpcs_update (\<lambda>m. m(meta_key (rpc_meta x) \<mapsto> y)) v))) \<and>
       (\<forall>scheme ns n port path. view (snd (api_proxy_get k scheme ns n port path w)) = Some v) \<and>
       (\<forall>ty reason msg. view (api_event k ty reason msg w) = Some v))"

lemma responsiveD:
  assumes "responsive k view"
  shows "lawful_conditions k"
    and "stores (pvcs k) same_claim view cl_pvcs cl_pvcs_update"
    and "stores (jobs k) same_job view cl_jobs cl_jobs_update"
    and "stores (pods k) same_pod view cl_pods cl_pods_update"
    and "stores (pod_monitors k) same_monitor view cl_monitors cl_monitors_update"
  using assms unfolding responsive_def by blast+

lemma responsive_calls:
  assumes "responsive k view" and v: "view w = Some v"
  shows "api_rpc_get k n w = (r, w') \<Longrightarrow> view w' = Some v \<and>
      r = (case cl_rpcs v n of None \<Rightarrow> Inl NotFound | Some x \<Rightarrow> Inr x)"
    and "api_status_update k x w = (r, w') \<Longrightarrow> cl_rpcs v (meta_key (rpc_meta x)) = Some z \<Longrightarrow>
      \<exists>y. r = Inr y \<and> same_resource x y \<and> conditions y = conditions x \<and>
        view w' = Some (cl_rpcs_update (\<lambda>m. m(meta_key (rpc_meta x) \<mapsto> y)) v)"
    and "api_proxy_get k scheme ns nm port path w = (e, w') \<Longrightarrow> view w' = Some v"
    and "view (api_event k ty reason msg w) = Some v"
proof -
  from assms(1) have S: "\<And>w v. view w = Some v \<Longrightarrow>
       (\<forall>n r w'. api_rpc_get k n w = (r, w') \<longrightarrow> view w' = Some v \<and>
          r = (case cl_rpcs v n of None \<Rightarrow> Inl NotFound | Some x \<Rightarrow> Inr x)) \<and>
       (\<forall>x r w'. api_status_update k x w = (r, w') \<longrightarrow> (case cl_rpcs v (meta_key (rpc_meta x)) of
          None \<Rightarrow> r = Inl NotFound \<and> view w' = Some v
        | Some _ \<Rightarrow> \<exists>y. r = Inr y \<and> same_resource x y \<and> conditions y = conditions x \<and>
            view w' = Some (cl_rpcs_update (\<lambda>m. m(meta_key (rpc_meta x) \<mapsto> y)) v))) \<and>
       (\<forall>scheme ns n port path. view (snd (api_proxy_get k scheme ns n port path w)) = Some v) \<and>
       (\<forall>ty reason msg. view (api_event k ty reason msg w) = Some v)"
    unfolding responsive_def by blast
  note S = S [OF v]
  show "api_rpc_get k n w = (r, w') \<Longrightarrow> view w' = Some v \<and>
      r = (case cl_rpcs v n of None \<Rightarrow> Inl NotFound | Some x \<Rightarrow> Inr x)"
    using S by blast
  show "api_status_update k x w = (r, w') \<Longrightarrow> cl_rpcs v (meta_key (rpc_meta x)) = Some z \<Longrightarrow>
      \<exists>y. r = Inr y \<and> same_resource x y \<and> conditions y = conditions x \<and>
        view w' = Some (cl_rpcs_update (\<lambda>m. m(meta_key (rpc_meta x) \<mapsto> y)) v)"
    using conjunct1 [OF conjunct2 [OF S]] by (fastforce split: option.splits)
  show "api_proxy_get k scheme ns nm port path w = (e, w') \<Longrightarrow> view w' = Some v"
    using S by (metis snd_conv)
  show "view (api_event k ty reason msg w) = Some v" using S by blast
qed

section \<open>What an action does to the view\<close>

text \<open>
  \<open>runs view m v c Q\<close>: from every state with view \<open>v\<close> and shared copy \<open>c\<close>, the action returns a
  value and leaves the server responsive, and the value, the view and the copy satisfy \<open>Q\<close>. It
  never panics.
\<close>

definition runs :: "('w \<Rightarrow> cluster option) \<Rightarrow> ('w, 'a) act \<Rightarrow> cluster \<Rightarrow> StarknetRPC \<Rightarrow>
    ('a \<Rightarrow> cluster \<Rightarrow> StarknetRPC \<Rightarrow> bool) \<Rightarrow> bool" where
  "runs view m v c Q \<longleftrightarrow> (\<forall>s. view (world s) = Some v \<longrightarrow> the_rpc s = c \<longrightarrow>
     wp m (\<lambda>q s'. \<exists>x v'. q = Ret x \<and> view (world s') = Some v' \<and> Q x v' (the_rpc s')) s)"

lemma runs_mono: "runs view m v c Q \<Longrightarrow> (\<And>x v c. Q x v c \<Longrightarrow> R x v c) \<Longrightarrow> runs view m v c R"
  unfolding runs_def by (fast elim: wp_mono)

lemma runs_returns: "Q x v c \<Longrightarrow> runs view (returns x) v c Q"
  by (simp add: runs_def wp)

lemma runs_reading: "runs view (f c) v c Q \<Longrightarrow> runs view (seq read_cluster f) v c Q"
  by (simp add: runs_def wp)

lemma runs_seq:
  assumes "runs view m v c P" "\<And>x v' c'. P x v' c' \<Longrightarrow> runs view (f x) v' c' Q"
  shows "runs view (seq m f) v c Q"
  using assms unfolding runs_def wp_seq by (fastforce elim!: wp_mono)

lemma runs_bind: "runs view m v c (\<lambda>x v' c'. runs view (f x) v' c' Q) \<Longrightarrow> runs view (seq m f) v c Q"
  by (rule runs_seq)

lemma runsE:
  assumes "runs view m v (the_rpc s) Q" "view (world s) = Some v"
  obtains x s' v' where "m s = (Ret x, s')" "view (world s') = Some v'" "Q x v' (the_rpc s')"
  using assms unfolding runs_def by (cases "m s") (auto simp: wp_def dest!: spec [of _ s])

lemma runs_Get:
  assumes "stores h same view look upd"
    and "runs view (f (case look v n of None \<Rightarrow> Inl NotFound | Some x \<Rightarrow> Inr x)) v c Q"
  shows "runs view (seq (Get h n) f) v c Q"
  using assms(2) by (auto simp: runs_def wp split: prod.split dest!: storesD(1) [OF assms(1), rotated])

lemma runs_Create_taken:
  assumes "stores h same view look upd" "look v (h_key h x) = Some z"
    and "runs view (f (Inl AlreadyExists)) v c Q"
  shows "runs view (seq (Create h x) f) v c Q"
  using assms(2,3) by (auto simp: runs_def wp split: prod.split dest!: storesD(2) [OF assms(1), rotated])

lemma runs_Create_new:
  assumes "stores h same view look upd" "look v (h_key h x) = None"
    and "\<And>y. same x y \<Longrightarrow> runs view (f (Inr y)) (upd (\<lambda>m. m(h_key h x \<mapsto> y)) v) c Q"
  shows "runs view (seq (Create h x) f) v c Q"
  using assms(2,3) by (fastforce simp: runs_def wp split: prod.split dest!: storesD(3) [OF assms(1), rotated])

lemma runs_Update:
  assumes "stores h same view look upd" "look v (h_key h x) = Some z"
    and "\<And>y. same x y \<Longrightarrow> runs view (f (Inr y)) (upd (\<lambda>m. m(h_key h x \<mapsto> y)) v) c Q"
  shows "runs view (seq (Update h x) f) v c Q"
  using assms(2,3) by (fastforce simp: runs_def wp split: prod.split dest!: storesD(4) [OF assms(1), rotated])

text \<open>After a deletion that is accepted the object is gone, or will be later.\<close>

lemma runs_Delete:
  assumes "stores h same view look upd"
    and "look v (h_key h x) = None \<Longrightarrow> runs view (f (Some NotFound)) v c Q"
    and "\<And>z. look v (h_key h x) = Some z \<Longrightarrow> runs view (f None) (upd (\<lambda>m. m(h_key h x := None)) v) c Q"
    and "\<And>z. look v (h_key h x) = Some z \<Longrightarrow> runs view (f None) v c Q"
  shows "runs view (seq (Delete h x policy) f) v c Q"
proof (cases "look v (h_key h x)")
  case None
  from assms(2) [OF this] None show ?thesis
    by (fastforce simp: runs_def wp split: prod.split dest!: storesD(5) [OF assms(1), rotated])
next
  case (Some z)
  from assms(3,4) [OF this] Some show ?thesis
    by (fastforce simp: runs_def wp split: prod.split dest!: storesD(6) [OF assms(1), rotated])
qed

lemma runs_Event:
  assumes "responsive k view" "runs view (f ()) v c Q"
  shows "runs view (seq (Event k ty reason msg) f) v c Q"
  using assms(2) by (simp add: runs_def wp responsive_calls(4) [OF assms(1)])

end
