(* ===== verification/Cluster_Stages.thy ===== *)
theory Cluster_Stages
  imports Steady Cluster
begin

text \<open>
  One reconciliation while the server is responsive, stage by stage: what each leaves in the cluster,
  for every state it may find. \<open>fit\<close> is what all stages keep.
\<close>

section \<open>The shape of the cluster\<close>

text \<open>What every stage keeps: the stored resource is the shared copy, pods and monitors are well shaped.\<close>

definition fit :: "StarknetRPC \<Rightarrow> cluster \<Rightarrow> StarknetRPC \<Rightarrow> bool" where
  "fit r v c \<longleftrightarrow> cl_rpcs v (meta_key (rpc_meta r)) = Some c \<and> same_resource r c \<and>
     (\<forall>p. cl_pods v (GetPodName r) = Some p \<longrightarrow>
        safe_pod p \<and> \<not> shouldPodGetRecreated p \<and> meta_key (pod_meta p) = GetPodName r) \<and>
     (\<forall>m. cl_monitors v (GetPodMonitorName r) = Some m \<longrightarrow>
        safe_monitor m \<and> meta_key (pm_meta m) = GetPodMonitorName r)"

text \<open>All objects but the resources.\<close>

definition objects :: "cluster \<Rightarrow> cluster" where
  "objects v = v\<lparr>cl_rpcs := (\<lambda>_. None)\<rparr>"

lemma objects_eq: "objects v' = objects v \<longleftrightarrow> cl_pvcs v' = cl_pvcs v \<and> cl_jobs v' = cl_jobs v \<and>
    cl_pods v' = cl_pods v \<and> cl_monitors v' = cl_monitors v"
  by (cases v; cases v') (simp add: objects_def)

lemma fitD:
  assumes "fit r v c"
  shows "cl_rpcs v (meta_key (rpc_meta r)) = Some c" "same_resource r c"
    "meta_key (rpc_meta c) = meta_key (rpc_meta r)"
    "GetStoragePvcName c = GetStoragePvcName r" "GetRestorePvcName c = GetRestorePvcName r"
    "GetRestoreJobName c = GetRestoreJobName r" "GetPodName c = GetPodName r"
    "GetPodMonitorName c = GetPodMonitorName r"
    "cl_pods v (GetPodName r) = Some p \<Longrightarrow> safe_pod p" "cl_pods v (GetPodName r) = Some p \<Longrightarrow> \<not> shouldPodGetRecreated p"
    "cl_pods v (GetPodName r) = Some p \<Longrightarrow> meta_key (pod_meta p) = GetPodName r"
    "cl_monitors v (GetPodMonitorName r) = Some m \<Longrightarrow> safe_monitor m"
    "cl_monitors v (GetPodMonitorName r) = Some m \<Longrightarrow> meta_key (pm_meta m) = GetPodMonitorName r"
  using assms names_same_resource [of r c] by (auto simp: fit_def same_resource_def meta_key_def)

lemma fit_objects:
  "fit r v c \<Longrightarrow> cl_rpcs v' (meta_key (rpc_meta r)) = Some c \<Longrightarrow> cl_pods v' (GetPodName r) = cl_pods v (GetPodName r) \<Longrightarrow>
   cl_monitors v' (GetPodMonitorName r) = cl_monitors v (GetPodMonitorName r) \<Longrightarrow> fit r v' c"
  by (simp add: fit_def)

lemma names_differ: "GetStoragePvcName r \<noteq> GetRestorePvcName r"
  using append_last_neq [of "''-storage''" "''-archive-restore''"] by (simp add: name_defs)

section \<open>The stages\<close>

text \<open>A status update stores what was sent and leaves the objects alone.\<close>

lemma runs_SetPhases:
  assumes server: "responsive k view" and fit: "fit r v c" and ts: "\<forall>t \<in> set ts. status_only t"
    and Q: "\<And>v' y w. fit r v' y \<Longrightarrow> objects v' = objects v \<Longrightarrow>
      restored k y = restored k (with_phases ts w c) \<Longrightarrow> Q None v' y"
  shows "runs view (SetPhases k ts) v c Q"
  unfolding runs_def
proof (intro allI impI)
  fix s :: "'a run_state"
  assume s: "view (world s) = Some v" "the_rpc s = c"
  let ?n = "with_phases ts (world s) c"
  have key: "meta_key (rpc_meta ?n) = meta_key (rpc_meta r)" and same: "same_resource r ?n"
    using same_resource_with_phases [OF ts, of c "world s"] fitD(2) [OF fit]
    by (auto simp: same_resource_def meta_key_def)
  obtain e w' where u: "api_status_update k ?n (world s) = (e, w')" by fastforce
  define v' where "v' y = cl_rpcs_update (\<lambda>m. m(meta_key (rpc_meta r) \<mapsto> y)) v" for y
  from responsive_calls(2) [OF server s(1) u] fitD(1) [OF fit] obtain y where
      y: "e = Inr y" "same_resource ?n y" "conditions y = conditions ?n" "view w' = Some (v' y)"
    unfolding key v'_def by blast
  have "fit r (v' y) y"
    using fit y same by (auto simp: fit_def v'_def intro: same_resource_trans)
  moreover have "objects (v' y) = objects v" by (simp add: v'_def objects_eq)
  ultimately have "Q None (v' y) y"
    by (rule Q [where w = "world s"]) (simp add: restored_def y(3))
  with u y(1,4) s show "wp (SetPhases k ts) (\<lambda>q s'. \<exists>x v'. q = Ret x \<and> view (world s') = Some v' \<and> Q x v' (the_rpc s')) s"
    by (simp add: wp_SetPhases Let_def)
qed

lemma runs_Initialize:
  assumes server: "responsive k view" and fit: "fit r v c"
  shows "runs view (Initialize k) v c (\<lambda>e v' c'. e = None \<and> fit r v' c' \<and> objects v' = objects v \<and>
    restored k c' = restored k c)"
proof -
  note lawful = responsiveD(1) [OF server]
  have "\<not> restored k c" if "conditions c = []"
    using that lawful by (simp add: restored_def lawful_conditions_def condition_of_def)
  then show ?thesis
    unfolding Initialize_def
    by (intro runs_reading)
      (auto simp: fit lawful intro!: runs_returns runs_SetPhases [OF server fit])
qed

lemma runs_ReconcilePvc:
  assumes server: "responsive k view" and fit: "fit r v c"
  shows "runs view (ReconcilePvc k) v c (\<lambda>q v' c'. q = (Some empty_result, None) \<and> fit r v' c' \<and>
    cl_jobs v' = cl_jobs v \<and> cl_pods v' = cl_pods v \<and> cl_monitors v' = cl_monitors v \<and>
    cl_pvcs v' (GetRestorePvcName r) = cl_pvcs v (GetRestorePvcName r) \<and>
    (case cl_pvcs v (GetStoragePvcName r) of
       None \<Rightarrow> cl_pvcs v' (GetStoragePvcName r) \<noteq> None \<and> \<not> restored k c'
     | Some p \<Rightarrow> cl_pvcs v' (GetStoragePvcName r) = Some p \<and> restored k c' = restored k c))"
proof -
  note store = responsiveD(2) [OF server] and lawful = responsiveD(1) [OF server]
  show ?thesis
  proof (cases "cl_pvcs v (GetStoragePvcName r)")
    case (Some p)
    with fit show ?thesis
      unfolding ReconcilePvc_def Let_def
      by (intro runs_reading runs_Create_taken [OF store]) (auto simp: fitD [OF fit] intro: runs_returns)
  next
    case None
    have fit': "fit r (cl_pvcs_update f v) c" for f
      by (rule fit_objects [OF fit]) (simp_all add: fitD [OF fit])
    show ?thesis
      unfolding ReconcilePvc_def Let_def
      apply (intro runs_reading runs_Create_new [OF store])
      using None fit names_differ [of r]
      by (auto simp: fitD [OF fit] objects_eq lawful intro!: runs_returns runs_bind [OF runs_SetPhases [OF server fit']])
  qed
qed

text \<open>The restore stage, when the claim of the database is there.\<close>

lemma runs_restore_cleanup:
  assumes server: "responsive k view" and fit: "fit r v c"
  shows "runs view (restore_cleanup k c) v c (\<lambda>q v' c'. q = (Some empty_result, None) \<and> fit r v' c' \<and> c' = c \<and>
    cl_pods v' = cl_pods v \<and> cl_monitors v' = cl_monitors v \<and>
    cl_pvcs v' (GetStoragePvcName r) = cl_pvcs v (GetStoragePvcName r))" (is "runs _ _ _ _ ?Q")
proof -
  have found: "\<not> still_failed None" "\<not> still_failed (Some NotFound)" by (simp_all add: still_failed_def)
  have second: "runs view (seq (Delete (pvcs k) (GetWantedRestorePvc c) None) (\<lambda>err.
      if still_failed err then returns (None, map_option Api err) else returns (Some empty_result, None))) w c ?Q"
    if "fit r w c" "cl_pods w = cl_pods v" "cl_monitors w = cl_monitors v" "cl_pvcs w = cl_pvcs v" for w
    by (rule runs_Delete [OF responsiveD(2) [OF server]])
      (use that names_differ [of r] in
        \<open>auto simp: fitD [OF that(1)] still_failed_def intro!: runs_returns intro: fit_objects [OF that(1)]\<close>)
  show ?thesis
    unfolding restore_cleanup_def Let_def
    by (rule runs_Delete [OF responsiveD(3) [OF server]])
      (auto simp: fitD [OF fit] fit found intro!: second intro: fit_objects [OF fit])
qed

lemma runs_mark:
  assumes server: "responsive k view" and fit: "fit r v c" and t: "status_only t"
    and Q: "\<And>v' y w. fit r v' y \<Longrightarrow> objects v' = objects v \<Longrightarrow>
      restored k y = restored k (with_phases [t] w c) \<Longrightarrow> Q res v' y"
  shows "runs view (mark_then k t res) v c Q"
  unfolding mark_then_def
  by (intro runs_bind runs_SetPhases [OF server fit])
    (auto simp: t intro!: runs_returns Q)

lemma marks_only [simp]:
  "status_only (markArchiveAsFinished k)" "status_only (markRestoreAsFailed k)"
  "status_only (markRestoreAsSkipped k)" "status_only (markRestoreAsProgressing k)"
  using restore_marks_status_only [of k] by (simp_all add: restore_marks_def)

text \<open>
  How the stage ends while the restore is not done: it asks to be called again, or reports that
  the job has failed.
\<close>

definition comes_again :: "step_result \<Rightarrow> bool" where
  "comes_again q \<longleftrightarrow> (\<exists>res. q = (Some res, Some ErrNextLoop) \<and> asks_again res) \<or> q = (None, Some ErrTerminateLoop)"

text \<open>The job is there and has succeeded.\<close>

definition job_done :: "StarknetRPC \<Rightarrow> cluster \<Rightarrow> bool" where
  "job_done r v \<longleftrightarrow> (\<exists>j. cl_jobs v (GetRestoreJobName r) = Some j \<and> 0 < sint (job_succeeded j))"

lemma runs_restore_create_job:
  assumes server: "responsive k view" and fit: "fit r v c" and restored: "\<not> restored k c"
  shows "runs view (restore_create_job k c) v c (\<lambda>q v' c'. comes_again q \<and> fit r v' c' \<and>
    cl_pvcs v' = cl_pvcs v \<and> cl_pods v' = cl_pods v \<and> cl_monitors v' = cl_monitors v \<and>
    cl_jobs v' (GetRestoreJobName r) \<noteq> None \<and> restored k c' = job_done r v)"
proof -
  note store = responsiveD(3) [OF server] and true = mark_true [OF responsiveD(1) [OF server], folded restored_def]
  note name = fitD(6) [OF fit]
  show ?thesis
  proof (cases "cl_jobs v (GetRestoreJobName r)")
    case None
    have fit': "fit r (cl_jobs_update f v) c" for f
      by (rule fit_objects [OF fit]) (simp_all add: fitD [OF fit])
    show ?thesis
      unfolding restore_create_job_def Let_def
      by (intro runs_Create_new [OF store])
        (auto simp: None name true objects_eq comes_again_def job_done_def intro!: runs_mark [OF server fit'])
  next
    case (Some j)
    have status: "runs view (restore_job_status k (GetWantedRestoreJob c)) v c
        (\<lambda>q v' c'. comes_again q \<and> fit r v' c' \<and> objects v' = objects v \<and> restored k c' = job_done r v)"
      unfolding restore_job_status_def
      by (intro runs_Get [OF store])
        (auto simp: Some name true restored fit comes_again_def job_done_def
          intro!: runs_mark [OF server fit] runs_returns)
    show ?thesis
      unfolding restore_create_job_def Let_def
      by (intro runs_Create_taken [OF store])
        (use status in \<open>auto simp: Some name objects_eq elim!: runs_mono\<close>)
  qed
qed

text \<open>Nothing that the restore needs is missing: the claims that are there are bound, the job, if it
  is there, has succeeded.\<close>

definition prepared :: "StarknetRPC \<Rightarrow> cluster \<Rightarrow> bool" where
  "prepared r v \<longleftrightarrow> (case cl_pvcs v (GetStoragePvcName r) of None \<Rightarrow> True | Some p \<Rightarrow> isReady p) \<and>
     (case cl_pvcs v (GetRestorePvcName r) of None \<Rightarrow> True | Some p \<Rightarrow> isReady p) \<and>
     (case cl_jobs v (GetRestoreJobName r) of None \<Rightarrow> True | Some j \<Rightarrow> 0 < sint (job_succeeded j))"

text \<open>What the restore stage does when the resource is not restored yet.\<close>

definition waits :: "'w client \<Rightarrow> StarknetRPC \<Rightarrow> cluster \<Rightarrow> step_result \<Rightarrow> cluster \<Rightarrow> StarknetRPC \<Rightarrow> bool" where
  "waits k r v q v' c' \<longleftrightarrow> comes_again q \<and> fit r v' c' \<and>
     cl_pods v' = cl_pods v \<and> cl_monitors v' = cl_monitors v \<and>
     cl_pvcs v' (GetStoragePvcName r) = cl_pvcs v (GetStoragePvcName r) \<and>
     cl_pvcs v' (GetRestorePvcName r) \<noteq> None \<and>
     (cl_jobs v (GetRestoreJobName r) \<noteq> None \<longrightarrow> cl_jobs v' (GetRestoreJobName r) \<noteq> None)"

lemma runs_restore_check_claims:
  assumes server: "responsive k view" and fit: "fit r v c" and restored: "\<not> restored k c"
    and claims: "cl_pvcs v (GetStoragePvcName r) = Some p" "cl_pvcs v (GetRestorePvcName r) = Some p'"
    and key: "meta_key (pvc_meta x) = GetRestorePvcName r"
  shows "runs view (restore_check_claims k c x) v c (\<lambda>q v' c'. waits k r v q v' c' \<and>
    (isReady p \<and> isReady p' \<longrightarrow> cl_jobs v' (GetRestoreJobName r) \<noteq> None \<and> restored k c' = job_done r v))"
proof -
  note store = responsiveD(2) [OF server]
  have ensure: "runs view (EnsurePvcReady k) v c (\<lambda>q v' c'. v' = v \<and> c' = c \<and>
      q = (if isReady p then (Some empty_result, None) else (Some (after Second), Some ErrNextLoop)))"
    unfolding EnsurePvcReady_def
    by (intro runs_reading runs_Get [OF store]) (auto simp: fitD [OF fit] claims intro!: runs_returns)
  note create = runs_restore_create_job [OF server fit restored]
  show ?thesis
    unfolding restore_check_claims_def
    by (intro runs_Get [OF store])
      (auto simp: key claims waits_def comes_again_def [of "(Some _, Some ErrNextLoop)"] fit intro!: runs_returns runs_bind [OF runs_mono [OF ensure]]
        runs_mono [OF create] split: if_splits)
qed

lemma runs_ReconcileArchiveRestore:
  assumes server: "responsive k view" and fit: "fit r v c"
    and claim: "cl_pvcs v (GetStoragePvcName r) = Some p"
  shows "runs view (ReconcileArchiveRestore k) v c (\<lambda>q v' c'.
     q = (Some empty_result, None) \<and> fit r v' c' \<and> restored k c' \<and> cl_pods v' = cl_pods v \<and>
       cl_monitors v' = cl_monitors v \<and> cl_pvcs v' (GetStoragePvcName r) = Some p \<and>
       (restored k c \<or> switched_off r) \<or>
     \<not> restored k c \<and> \<not> switched_off r \<and> waits k r v q v' c' \<and>
       (\<forall>p'. cl_pvcs v (GetRestorePvcName r) = Some p' \<longrightarrow> isReady p \<longrightarrow> isReady p' \<longrightarrow>
         cl_jobs v' (GetRestoreJobName r) \<noteq> None \<and> restored k c' = job_done r v))"
proof -
  note store = responsiveD(2) [OF server] and true = mark_true [OF responsiveD(1) [OF server], folded restored_def]
  have off: "switched_off c \<longleftrightarrow> switched_off r" using fitD(2) [OF fit] by (simp add: same_resource_def)
  consider "restored k c" | "\<not> restored k c" "switched_off r" | "\<not> restored k c" "\<not> switched_off r" by blast
  then show ?thesis
  proof cases
    case 1
    then show ?thesis
      unfolding ReconcileArchiveRestore_def
      by (intro runs_reading)
        (auto simp: restored_def claim intro!: runs_mono [OF runs_restore_cleanup [OF server fit]])
  next
    case 2
    then show ?thesis
      unfolding ReconcileArchiveRestore_def
      by (intro runs_reading)
        (auto simp: restored_def [symmetric] off claim true objects_eq intro!: runs_mark [OF server fit])
  next
    case 3
    show ?thesis
    proof (cases "cl_pvcs v (GetRestorePvcName r)")
      case (Some p')
      with 3 show ?thesis
        unfolding ReconcileArchiveRestore_def Let_def
        by (intro runs_reading)
          (auto simp: restored_def [symmetric] off fitD [OF fit] claim
            intro!: runs_Create_taken [OF store]
              runs_mono [OF runs_restore_check_claims [OF server fit 3(1) claim Some]])
    next
      case None
      have "fit r (cl_pvcs_update f v) c" for f
        by (rule fit_objects [OF fit]) (simp_all add: fitD [OF fit])
      note check = runs_restore_check_claims [OF server this 3(1)]
      with 3 None names_differ [of r] claim show ?thesis
        unfolding ReconcileArchiveRestore_def Let_def
        by (intro runs_reading)
          (auto simp: restored_def [symmetric] off fitD [OF fit] same_claim_def waits_def
            intro!: runs_Create_new [OF store] runs_mono [OF check])
    qed
  qed
qed

text \<open>An object is there and up to date after \<open>CreateOrReconcile\<close>.\<close>

lemma runs_CreateOrReconcile:
  assumes store: "stores h same view look upd"
    and rec: "\<And>z. look v (h_key h x) = Some z \<Longrightarrow>
      run_reconcilers rs z False = Ret (None, if good z then z else fix_up z, \<not> good z)"
    and key: "\<And>z. look v (h_key h x) = Some z \<Longrightarrow> h_key h (fix_up z) = h_key h x"
    and new: "\<And>y. look v (h_key h x) = None \<Longrightarrow> same x y \<Longrightarrow> Q (True, None, y) (upd (\<lambda>m. m(h_key h x \<mapsto> y)) v) c"
    and good: "\<And>z. look v (h_key h x) = Some z \<Longrightarrow> good z \<Longrightarrow> Q (False, None, z) v c"
    and bad: "\<And>z y. look v (h_key h x) = Some z \<Longrightarrow> \<not> good z \<Longrightarrow> same (fix_up z) y \<Longrightarrow>
      Q (False, None, y) (upd (\<lambda>m. m(h_key h x \<mapsto> y)) v) c"
  shows "runs view (CreateOrReconcile h x rs) v c Q"
proof (cases "look v (h_key h x)")
  case None
  then show ?thesis
    unfolding CreateOrReconcile_def
    by (intro runs_Create_new [OF store]) (auto intro!: runs_returns new)
next
  case (Some z)
  note known = rec [OF Some] key [OF Some]
  show ?thesis
    unfolding CreateOrReconcile_def
    by (rule runs_Create_taken [OF store Some], simp, rule runs_Get [OF store])
      (auto simp: Some known seq_known intro!: runs_returns good runs_Update [OF store, of _ _ z] bad)
qed

lemma settled_pod_wanted:
  assumes "same_pod x y" "safe_pod x" "\<not> shouldPodGetRecreated x" "good_image r x"
  shows "settled_pod r y"
  using assms by (auto simp: settled_pod_def same_pod_def good_image_def split: list.splits)

lemma GetWantedPod_settled: "safe_pod (GetWantedPod c)" "\<not> shouldPodGetRecreated (GetWantedPod c)"
  "good_image c (GetWantedPod c)"
  by (simp_all add: GetWantedPod_def Let_def safe_pod_def shouldPodGetRecreated_def good_image_def)

lemma set_image_settled:
  assumes "safe_pod p" "\<not> shouldPodGetRecreated p"
  shows "safe_pod (set_image (getPodImage c) p)" "\<not> shouldPodGetRecreated (set_image (getPodImage c) p)"
    "good_image c (set_image (getPodImage c) p)"
  using assms by (auto simp: safe_pod_def shouldPodGetRecreated_def good_image_def set_image_def split: list.splits)

lemma fit_good_image: "fit r v c \<Longrightarrow> good_image c = good_image r"
  by (auto simp: fit_def same_resource_def good_image_def getPodImage_def fun_eq_iff split: list.split option.split)

lemma runs_IsReady:
  assumes server: "responsive k view" and safe: "safe_pod p"
  shows "runs view (IsReady k p) v c (\<lambda>_ v' c'. v' = v \<and> c' = c)"
proof -
  obtain n sch where "getNamedPort p ''management'' = Ret n" "probe_scheme p = Ret sch"
    using safe_pod_ports [OF safe] by blast
  then show ?thesis
    by (auto simp: runs_def IsReady_def wp Let_def split: prod.split option.split
        dest!: responsive_calls(3) [OF server, rotated])
qed

lemma runs_upsert_pod:
  assumes server: "responsive k view" and fit: "fit r v c"
  shows "runs view (CreateOrReconcile (pods k) (GetWantedPod c) [ImageReconciler c]) v c
    (\<lambda>q w d. fst (snd q) = None \<and> settled_pod r (snd (snd q)) \<and> fit r w d \<and> d = c \<and>
      cl_pods w (GetPodName r) = Some (snd (snd q)) \<and> cl_pvcs w = cl_pvcs v \<and> cl_jobs w = cl_jobs v \<and>
      cl_monitors w = cl_monitors v)" (is "runs _ _ _ _ ?Q")
proof -
  have key: "h_key (pods k) (GetWantedPod c) = GetPodName r" by (simp add: fitD [OF fit])
  note wanted = GetWantedPod_settled [of c] and updated = set_image_settled [of _ c]
  have stored: "?Q (b, None, y) (cl_pods_update (\<lambda>m. m(GetPodName r \<mapsto> y)) v) c"
    if "same_pod x y" "safe_pod x" "\<not> shouldPodGetRecreated x" "good_image c x" "h_key (pods k) x = GetPodName r" for b x y
    using settled_pod_wanted [OF that(1-4)] fit that
    by (auto simp: fit_def same_pod_def settled_pod_def fit_good_image [OF fit])
  show ?thesis
  proof (rule runs_CreateOrReconcile [OF responsiveD(4) [OF server], where good = "good_image c" and
        fix_up = "set_image (getPodImage c)"], unfold key)
    fix z
    assume z: "cl_pods v (GetPodName r) = Some z"
    note ok = fitD(9-11) [OF fit z]
    show "run_reconcilers [ImageReconciler c] z False =
        Ret (None, if good_image c z then z else set_image (getPodImage c) z, \<not> good_image c z)"
      by (rule image_rec.run [OF safe_pod_has_container [OF ok(1)]])
    show name: "h_key (pods k) (set_image (getPodImage c) z) = GetPodName r"
      by (simp add: ok(3))
    show "?Q (False, None, z) v c" if "good_image c z"
      using that ok z fit by (simp add: settled_pod_def fit_good_image [OF fit])
    show "?Q (False, None, y) (cl_pods_update (\<lambda>m. m(GetPodName r \<mapsto> y)) v) c"
      if "same_pod (set_image (getPodImage c) z) y" for y
      by (rule stored [OF that updated [OF ok(1,2)] name])
  qed (rule stored [OF _ wanted key])
qed

lemma runs_ReconcilePod:
  assumes server: "responsive k view" and fit: "fit r v c"
  shows "runs view (ReconcilePod k) v c (\<lambda>q v' c'. q = (Some empty_result, None) \<and> fit r v' c' \<and>
    cl_pvcs v' = cl_pvcs v \<and> cl_jobs v' = cl_jobs v \<and> cl_monitors v' = cl_monitors v \<and>
    restored k c' = restored k c \<and> (\<exists>p. cl_pods v' (GetPodName r) = Some p \<and> settled_pod r p))"
proof -
  note lawful = responsiveD(1) [OF server]
  have status: "runs view (SetPhases k [AvailableStatus_Apply k p]) w d (\<lambda>e v' c'. e = None \<and> fit r v' c' \<and>
      objects v' = objects w \<and> restored k c' = restored k d)" if "fit r w d" for p w d
    by (intro runs_SetPhases [OF server that])
      (auto simp: with_phases_def AvailableStatus_Apply_def restored_def lawful_conditions_true [OF lawful]
        available.as_type condition_type_defs)
  have follow: "runs view (pod_followup k created p) w d (\<lambda>q v' c'. q = (Some empty_result, None) \<and> fit r v' c' \<and>
      objects v' = objects w \<and> restored k c' = restored k d)" if "fit r w d" "settled_pod r p" for created p w d
    using that unfolding pod_followup_def
    by (cases created)
      (auto simp: settled_pod_def seq_known intro!: runs_returns runs_bind runs_mono [OF status]
        runs_mono [OF runs_IsReady [OF server]])
  show ?thesis
    unfolding ReconcilePod_unfold
    by (intro runs_reading runs_bind runs_mono [OF runs_upsert_pod [OF server fit]])
      (auto simp: objects_eq intro!: runs_mono [OF follow])
qed

text \<open>The monitor that is wanted is there. A monitor that is not wanted is deleted, but may still be there.\<close>

definition monitor_ok :: "StarknetRPC \<Rightarrow> cluster \<Rightarrow> bool" where
  "monitor_ok r v \<longleftrightarrow> (monitored r \<longrightarrow> (\<exists>m. cl_monitors v (GetPodMonitorName r) = Some m \<and> good_monitor r m))"

lemma fit_good_monitor: "fit r v c \<Longrightarrow> good_monitor c = good_monitor r" "fit r v c \<Longrightarrow> monitored c = monitored r"
  by (auto simp: fit_def same_resource_def good_monitor_def getPodMonitorLabels_def default_labels_def
      monitored_def fun_eq_iff Let_def split: option.split)

lemma good_monitor_same: "same_monitor x y \<Longrightarrow> good_monitor r y = good_monitor r x"
  "same_monitor x y \<Longrightarrow> safe_monitor y = safe_monitor x"
  by (simp_all add: same_monitor_def good_monitor_def safe_monitor_def)

lemma GetWantedPodMonitor_settled: "safe_monitor (GetWantedPodMonitor c)" "good_monitor c (GetWantedPodMonitor c)"
proof -
  have "pm_spec (GetWantedPodMonitor c) = getPodMonitorSpec c"
    "om_labels (pm_meta (GetWantedPodMonitor c)) = Some (getPodMonitorLabels c)"
    by (simp_all add: GetWantedPodMonitor_def Let_def)
  moreover have "labels_match (getPodMonitorLabels c) (Some (getPodMonitorLabels c))"
    using wf_getPodMonitorLabels [of c]
    by (auto simp: labels_match_def map_index_def wf_entries_def)
  ultimately show "safe_monitor (GetWantedPodMonitor c)" "good_monitor c (GetWantedPodMonitor c)"
    by (simp_all add: safe_monitor_def good_monitor_def map_len_def map_index_def)
qed

lemma runs_upsert_monitor:
  assumes server: "responsive k view" and fit: "fit r v c" and on: "monitored r"
  shows "runs view (CreateOrReconcile (pod_monitors k) (GetWantedPodMonitor c) [PodMonitorSpecReconciler c]) v c
    (\<lambda>q w d. fst (snd q) = None \<and> fit r w d \<and> d = c \<and> monitor_ok r w \<and>
      cl_pvcs w = cl_pvcs v \<and> cl_jobs w = cl_jobs v \<and> cl_pods w = cl_pods v)" (is "runs _ _ _ _ ?Q")
proof -
  have key: "h_key (pod_monitors k) (GetWantedPodMonitor c) = GetPodMonitorName r" by (simp add: fitD [OF fit])
  have stored: "?Q (b, None, y) (cl_monitors_update (\<lambda>m. m(GetPodMonitorName r \<mapsto> y)) v) c"
    if "same_monitor x y" "safe_monitor x" "good_monitor c x" "h_key (pod_monitors k) x = GetPodMonitorName r" for b x y
    using that fit on good_monitor_same [OF that(1)]
    by (auto simp: fit_def monitor_ok_def same_monitor_def fit_good_monitor(1) [OF fit])
  show ?thesis
  proof (rule runs_CreateOrReconcile [OF responsiveD(5) [OF server], where good = "good_monitor c" and
        fix_up = "monitor_update c"], unfold key)
    fix z
    assume z: "cl_monitors v (GetPodMonitorName r) = Some z"
    show "run_reconcilers [PodMonitorSpecReconciler c] z False =
        Ret (None, if good_monitor c z then z else monitor_update c z, \<not> good_monitor c z)"
      by (rule monitor_rec.run [OF fitD(12) [OF fit z]])
    show name: "h_key (pod_monitors k) (monitor_update c z) = GetPodMonitorName r"
      by (simp add: fitD(13) [OF fit z])
    show "?Q (False, None, z) v c" if "good_monitor c z"
      using that on fit z by (simp add: monitor_ok_def fit_good_monitor [OF fit])
    show "?Q (False, None, y) (cl_monitors_update (\<lambda>m. m(GetPodMonitorName r \<mapsto> y)) v) c"
      if "same_monitor (monitor_update c z) y" for y
      by (rule stored [OF that _ monitor_update_good name]) (simp add: safe_monitor_def)
  qed (rule stored [OF _ GetWantedPodMonitor_settled key])
qed

lemma runs_ReconcilePodMonitor:
  assumes server: "responsive k view" and fit: "fit r v c" and pod: "cl_pods v (GetPodName r) = Some p"
  shows "runs view (ReconcilePodMonitor k) v c (\<lambda>q v' c'. q = (Some empty_result, None) \<and> fit r v' c' \<and> c' = c \<and>
    cl_pvcs v' = cl_pvcs v \<and> cl_jobs v' = cl_jobs v \<and> cl_pods v' = cl_pods v \<and> monitor_ok r v')"
    (is "runs _ _ _ _ ?Q")
proof -
  note store = responsiveD(5) [OF server]
  have event: "runs view (seq (Event k ty reason msg) (\<lambda>_. returns x)) w c Q" if "Q x w c" for w Q x ty reason msg
    by (rule runs_Event [OF server]) (rule runs_returns, rule that)
  have ensure: "runs view (ensure_monitor k c) v c ?Q" if "monitored r"
    unfolding ensure_monitor_def Let_def
    by (intro runs_bind runs_mono [OF runs_upsert_monitor [OF server fit that]]) (auto intro!: runs_returns event)
  have remove: "runs view (remove_monitor k c) v c ?Q" if off: "\<not> monitored r"
    unfolding remove_monitor_def
    by (rule runs_Get [OF store])
      (use off fit in \<open>auto simp: fitD [OF fit] monitor_ok_def fit_def
        intro!: runs_returns event runs_Delete [OF store] split: option.split\<close>)
  show ?thesis
    unfolding ReconcilePodMonitor_def
    by (intro runs_reading)
      (auto simp: fitD [OF fit] pod fit_good_monitor(2) [OF fit, unfolded monitored_def, symmetric] monitored_def
        intro!: runs_Get [OF responsiveD(4) [OF server]] remove ensure split: option.splits)
qed

end
