(* ===== verification/Convergence.thy ===== *)
theory Convergence
  imports Cluster_Stages
begin

text \<open>
  The operator as a whole, over many reconciliations: when nothing stands in its way, every resource
  gets what it wants. \<open>level\<close> measures how far a resource has come, \<open>rounds\<close> and \<open>work\<close> repeat the
  reconciliation. What stands in its way, or does not, is said of each round: \<open>smooth\<close> at its
  start, \<open>undisturbed\<close> since the round before, \<open>prepared\<close> for progress.
\<close>

section \<open>One round\<close>

text \<open>
  How far the resource has come. Four reconciliations take it from level 4 to level 0: the claims
  are there, the job is there, the restore is done, everything is there.
\<close>

definition level :: "'w client \<Rightarrow> StarknetRPC \<Rightarrow> nat \<Rightarrow> cluster \<Rightarrow> StarknetRPC \<Rightarrow> bool" where
  "level k r n v c \<longleftrightarrow> fit r v c \<and>
     (n < 4 \<longrightarrow> cl_pvcs v (GetStoragePvcName r) \<noteq> None \<and>
        (restored k c \<or> cl_pvcs v (GetRestorePvcName r) \<noteq> None)) \<and>
     (n < 3 \<longrightarrow> restored k c \<or> cl_jobs v (GetRestoreJobName r) \<noteq> None) \<and>
     (n < 2 \<longrightarrow> restored k c) \<and>
     (n < 1 \<longrightarrow> (\<exists>p. cl_pods v (GetPodName r) = Some p \<and> settled_pod r p) \<and> monitor_ok r v)"

text \<open>Everything the resource wants is there.\<close>

definition up :: "'w client \<Rightarrow> StarknetRPC \<Rightarrow> cluster \<Rightarrow> StarknetRPC \<Rightarrow> bool" where
  "up k r v c \<longleftrightarrow> cl_rpcs v (meta_key (rpc_meta r)) = Some c \<and> restored k c \<and>
     cl_pvcs v (GetStoragePvcName r) \<noteq> None \<and>
     (\<exists>p. cl_pods v (GetPodName r) = Some p \<and> settled_pod r p) \<and> monitor_ok r v"

text \<open>The queue tries again after an error and when the result asks for it.\<close>

definition goes_on :: "Result \<times> GoError option \<Rightarrow> bool" where
  "goes_on q \<longleftrightarrow> snd q \<noteq> None \<or> asks_again (fst q)"

text \<open>How a round may end: the queue tries again, or everything is there.\<close>

definition ends :: "'w client \<Rightarrow> StarknetRPC \<Rightarrow> nat \<Rightarrow> Result \<times> GoError option \<Rightarrow> cluster \<Rightarrow> StarknetRPC \<Rightarrow> bool" where
  "ends k r n q v c \<longleftrightarrow> 0 < n \<and> goes_on q \<or> q = (empty_result, None) \<and> up k r v c"

lemma level_mono: "level k r m v c \<Longrightarrow> m \<le> n \<Longrightarrow> level k r n v c"
  by (auto simp: level_def)

lemma ends_mono: "ends k r m q v c \<Longrightarrow> m \<le> n \<Longrightarrow> ends k r n q v c"
  by (auto simp: ends_def)

lemma runs_reconcile_restored:
  assumes server: "responsive k view" and fit: "fit r v c"
  shows "runs view (reconcile_restored k) v c (\<lambda>q v' c'. q = (empty_result, None) \<and> fit r v' c' \<and>
    cl_pvcs v' = cl_pvcs v \<and> cl_jobs v' = cl_jobs v \<and> restored k c' = restored k c \<and>
    (\<exists>p. cl_pods v' (GetPodName r) = Some p \<and> settled_pod r p) \<and> monitor_ok r v')"
  unfolding reconcile_restored_def
  by (intro runs_bind runs_mono [OF runs_ReconcilePod [OF server fit]])
    (auto simp: after_step_ok intro!: runs_bind runs_returns runs_mono [OF runs_ReconcilePodMonitor [OF server]])

lemma runs_gate:
  assumes server: "responsive k view" and fit: "fit r v c"
    and here: "restored k c" "cl_pvcs v (GetStoragePvcName r) \<noteq> None"
  shows "runs view (seq read_cluster (\<lambda>rpc. if \<not> is_status_condition_true k (conditions rpc) ''Restore''
      then returns (after (30 * Second), None) else reconcile_restored k)) v c
    (\<lambda>q v' c'. level k r n v' c' \<and> ends k r n q v' c')"
  using here
  by (intro runs_reading)
    (auto simp: restored_def [symmetric] level_def up_def ends_def fitD(1)
      intro!: runs_mono [OF runs_reconcile_restored [OF server fit]])

lemma runs_restore_then:
  assumes server: "responsive k view" and fit: "fit r v c" and claim: "cl_pvcs v (GetStoragePvcName r) = Some p"
    and stage: "restored k c \<or> 0 < n"
      "n < 3 \<longrightarrow> restored k c \<or> cl_jobs v (GetRestoreJobName r) \<noteq> None \<or>
        isReady p \<and> (\<exists>p'. cl_pvcs v (GetRestorePvcName r) = Some p' \<and> isReady p')"
      "n < 2 \<longrightarrow> restored k c \<or> job_done r v \<and>
        isReady p \<and> (\<exists>p'. cl_pvcs v (GetRestorePvcName r) = Some p' \<and> isReady p')"
  shows "runs view (seq (ReconcileArchiveRestore k) (\<lambda>res. after_step res give_up
      (seq read_cluster (\<lambda>rpc. if \<not> is_status_condition_true k (conditions rpc) ''Restore''
        then returns (after (30 * Second), None) else reconcile_restored k)))) v c
    (\<lambda>q v' c'. level k r n v' c' \<and> ends k r n q v' c')" (is "runs _ ?m _ _ ?Q")
proof (rule runs_bind, rule runs_mono [OF runs_ReconcileArchiveRestore [OF server fit claim]])
  fix q v' c'
  assume "q = (Some empty_result, None) \<and> fit r v' c' \<and> restored k c' \<and> cl_pods v' = cl_pods v \<and>
       cl_monitors v' = cl_monitors v \<and> cl_pvcs v' (GetStoragePvcName r) = Some p \<and>
       (restored k c \<or> switched_off r) \<or>
     \<not> restored k c \<and> \<not> switched_off r \<and> waits k r v q v' c' \<and>
       (\<forall>p'. cl_pvcs v (GetRestorePvcName r) = Some p' \<longrightarrow> isReady p \<longrightarrow> isReady p' \<longrightarrow>
         cl_jobs v' (GetRestoreJobName r) \<noteq> None \<and> restored k c' = job_done r v)"
    (is "?on \<or> ?wait")
  then show "runs view (after_step q give_up (seq read_cluster (\<lambda>rpc.
      if \<not> is_status_condition_true k (conditions rpc) ''Restore'' then returns (after (30 * Second), None)
      else reconcile_restored k))) v' c' ?Q"
  proof
    assume on: ?on
    then show ?thesis
      by (auto simp: after_step_ok intro!: runs_gate [OF server])
  next
    assume wait: ?wait
    then have "level k r n v' c'"
      using stage claim by (auto simp: waits_def level_def)
    with wait stage(1) show ?thesis
      by (auto simp: waits_def comes_again_def after_step_def give_up_def seq_known ends_def goes_on_def
          intro!: runs_returns)
  qed
qed

text \<open>Where a round leads: one level down if it is prepared, and from level 1 in any case.\<close>

definition next_level :: "StarknetRPC \<Rightarrow> cluster \<Rightarrow> nat \<Rightarrow> nat" where
  "next_level r v n = (if prepared r v \<or> n \<le> 1 then n - 1 else n)"

lemma runs_reconcile_fetched:
  assumes server: "responsive k view" and v: "level k r n v c" "0 < n"
  shows "runs view (reconcile_fetched k) v c
    (\<lambda>q v' c'. level k r (next_level r v n) v' c' \<and> ends k r (next_level r v n) q v' c')" (is "runs _ _ _ _ ?Q")
proof -
  have fit: "fit r v c" using v(1) by (simp add: level_def)
  have rest: "runs view (seq (ReconcileArchiveRestore k) (\<lambda>res. after_step res give_up
      (seq read_cluster (\<lambda>rpc. if \<not> is_status_condition_true k (conditions rpc) ''Restore''
        then returns (after (30 * Second), None) else reconcile_restored k)))) v2 c2 ?Q"
    if "fit r v2 c2" "cl_jobs v2 = cl_jobs v" "cl_pvcs v2 (GetRestorePvcName r) = cl_pvcs v (GetRestorePvcName r)"
      "case cl_pvcs v (GetStoragePvcName r) of
       None \<Rightarrow> cl_pvcs v2 (GetStoragePvcName r) \<noteq> None \<and> \<not> restored k c2
     | Some p \<Rightarrow> cl_pvcs v2 (GetStoragePvcName r) = Some p \<and> restored k c2 = restored k c" for v2 c2
  proof -
    note v2 = that
    obtain p where p: "cl_pvcs v2 (GetStoragePvcName r) = Some p"
      using v2(4) by (auto split: option.splits)
    show ?thesis
    proof (cases "cl_pvcs v (GetStoragePvcName r)")
      case None
      with v have n: "\<not> n < 4" by (auto simp: level_def)
      then show ?thesis
        by (intro runs_restore_then [OF server v2(1) p]) (auto simp: next_level_def)
    next
      case (Some p0)
      with v2(4) p have same: "p0 = p" "restored k c2 = restored k c" by simp_all
      have job: "job_done r v2 = job_done r v" by (simp add: job_done_def v2(2))
      show ?thesis
      proof (cases "prepared r v \<or> n \<le> 1")
        case True
        then show ?thesis
          using v Some same p
          by (intro runs_restore_then [OF server v2(1) p])
            (auto simp: next_level_def prepared_def level_def job_done_def v2(2,3))
      next
        case False
        then show ?thesis
          using v Some same p
          by (intro runs_restore_then [OF server v2(1) p])
            (auto simp: next_level_def level_def v2(2,3))
      qed
    qed
  qed
  have claim: "runs view (seq (ReconcilePvc k) (\<lambda>res. after_step res give_up
      (seq (ReconcileArchiveRestore k) (\<lambda>res. after_step res give_up
      (seq read_cluster (\<lambda>rpc. if \<not> is_status_condition_true k (conditions rpc) ''Restore''
        then returns (after (30 * Second), None) else reconcile_restored k)))))) v1 c1 ?Q"
    if "fit r v1 c1" "objects v1 = objects v" "restored k c1 = restored k c" for v1 c1
    by (rule runs_bind, rule runs_mono [OF runs_ReconcilePvc [OF server that(1)]])
      (use that(2,3) in \<open>auto simp: after_step_ok objects_eq intro!: rest split: option.splits\<close>)
  show ?thesis
    unfolding reconcile_fetched_def
    by (rule runs_bind, rule runs_mono [OF runs_Initialize [OF server fit]]) (auto intro!: claim)
qed

section \<open>Rounds\<close>

text \<open>
  What a reconciliation needs of the cluster it finds: the resource is stored, a pod that is there is
  healthy, a pod or monitor that is there has the shape the operator expects and its own name.
\<close>

definition shaped :: "StarknetRPC \<Rightarrow> cluster \<Rightarrow> bool" where
  "shaped r v \<longleftrightarrow> (case cl_rpcs v (meta_key (rpc_meta r)) of None \<Rightarrow> False | Some c \<Rightarrow> same_resource r c) \<and>
     (case cl_pods v (GetPodName r) of None \<Rightarrow> True
      | Some p \<Rightarrow> safe_pod p \<and> \<not> shouldPodGetRecreated p \<and> meta_key (pod_meta p) = GetPodName r) \<and>
     (case cl_monitors v (GetPodMonitorName r) of None \<Rightarrow> True
      | Some m \<Rightarrow> safe_monitor m \<and> meta_key (pm_meta m) = GetPodMonitorName r)"

text \<open>A round starts smoothly if the server is responsive and shows such a cluster.\<close>

definition smooth :: "('w \<Rightarrow> cluster option) \<Rightarrow> StarknetRPC \<Rightarrow> 'w \<Rightarrow> bool" where
  "smooth view r w = (case view w of None \<Rightarrow> False | Some v \<Rightarrow> shaped r v)"

definition progresses :: "('w \<Rightarrow> cluster option) \<Rightarrow> StarknetRPC \<Rightarrow> 'w \<Rightarrow> bool" where
  "progresses view r w = (case view w of None \<Rightarrow> False | Some v \<Rightarrow> prepared r v)"

text \<open>
  What nobody else does between two rounds: write the resource or its status, remove a claim or the
  job. All else may change: claims get bound or not, the job runs, the pod comes and goes.
\<close>

definition kept :: "'a option \<Rightarrow> 'b option \<Rightarrow> bool" where
  "kept a b \<longleftrightarrow> (a = None \<or> b \<noteq> None)"

definition undisturbed :: "StarknetRPC \<Rightarrow> cluster \<Rightarrow> cluster \<Rightarrow> bool" where
  "undisturbed r v v' \<longleftrightarrow> cl_rpcs v' (meta_key (rpc_meta r)) = cl_rpcs v (meta_key (rpc_meta r)) \<and>
     kept (cl_pvcs v (GetStoragePvcName r)) (cl_pvcs v' (GetStoragePvcName r)) \<and>
     kept (cl_pvcs v (GetRestorePvcName r)) (cl_pvcs v' (GetRestorePvcName r)) \<and>
     kept (cl_jobs v (GetRestoreJobName r)) (cl_jobs v' (GetRestoreJobName r))"

text \<open>A round: the world moves on, then the resource is reconciled.\<close>

definition meanwhile :: "('w \<Rightarrow> 'w) \<Rightarrow> 'w run_state \<Rightarrow> 'w run_state" where
  "meanwhile env s = s\<lparr>world := env (world s)\<rparr>"

fun rounds :: "'w client \<Rightarrow> (nat \<Rightarrow> 'w \<Rightarrow> 'w) \<Rightarrow> NamespacedName \<Rightarrow> nat \<Rightarrow> 'w run_state \<Rightarrow> 'w run_state" where
  "rounds k env req 0 s = s"
| "rounds k env req (Suc n) s = snd (Reconcile k req (meanwhile (env n) (rounds k env req n s)))"

text \<open>The state in which round \<open>n\<close> begins.\<close>

abbreviation entry :: "'w client \<Rightarrow> (nat \<Rightarrow> 'w \<Rightarrow> 'w) \<Rightarrow> NamespacedName \<Rightarrow> 'w run_state \<Rightarrow> nat \<Rightarrow> 'w run_state" where
  "entry k env req s n \<equiv> meanwhile (env n) (rounds k env req n s)"

text \<open>
  What the environment does over \<open>n\<close> rounds: each starts smoothly, and after the first nobody has
  disturbed the resource since the round before.
\<close>

definition stretch :: "'w client \<Rightarrow> ('w \<Rightarrow> cluster option) \<Rightarrow> StarknetRPC \<Rightarrow> (nat \<Rightarrow> 'w \<Rightarrow> 'w) \<Rightarrow> 'w run_state \<Rightarrow> nat \<Rightarrow> bool" where
  "stretch k view r env s n \<longleftrightarrow> (let req = meta_key (rpc_meta r) in
     (\<forall>i < n. smooth view r (world (entry k env req s i))) \<and>
     (\<forall>i v v'. 0 < i \<longrightarrow> i < n \<longrightarrow> view (world (rounds k env req i s)) = Some v \<longrightarrow>
        view (world (entry k env req s i)) = Some v' \<longrightarrow> undisturbed r v v'))"

text \<open>How many of them find the claims bound and the job finished, as far as they are there.\<close>

definition steps :: "'w client \<Rightarrow> ('w \<Rightarrow> cluster option) \<Rightarrow> StarknetRPC \<Rightarrow> (nat \<Rightarrow> 'w \<Rightarrow> 'w) \<Rightarrow> 'w run_state \<Rightarrow> nat \<Rightarrow> nat" where
  "steps k view r env s n =
     length (filter (\<lambda>i. progresses view r (world (entry k env (meta_key (rpc_meta r)) s i))) [0..<n])"

lemma steps_Suc:
  "view (world (entry k env (meta_key (rpc_meta r)) s n)) = Some v \<Longrightarrow>
   steps k view r env s (Suc n) = steps k view r env s n + (if prepared r v then 1 else 0)"
  by (simp add: steps_def progresses_def)

lemma shaped_fit:
  assumes "shaped r v" obtains c where "fit r v c"
  using assms by (auto simp: shaped_def fit_def split: option.splits)

lemma level_undisturbed:
  assumes "level k r n v c" "undisturbed r v v'" "shaped r v'"
  shows "level k r (max 1 n) v' c"
proof -
  have rpc: "cl_rpcs v' (meta_key (rpc_meta r)) = Some c"
    using assms(1,2) by (simp add: level_def fit_def undisturbed_def)
  obtain c' where fit: "fit r v' c'" by (rule shaped_fit [OF assms(3)])
  with rpc have "c' = c" by (simp add: fit_def)
  with fit assms(1,2) show ?thesis by (auto simp: level_def undisturbed_def kept_def)
qed

text \<open>One round.\<close>

lemma round_level:
  assumes server: "responsive k view" and req: "req = meta_key (rpc_meta r)"
    and v: "level k r n v c" "0 < n" "view (world s) = Some v"
  obtains q u v' c' where "Reconcile k req s = (Ret q, u)" "view (world u) = Some v'"
    "level k r (next_level r v n) v' c'" "ends k r (next_level r v n) q v' c'"
proof -
  have c: "cl_rpcs v req = Some c" using v(1) req by (simp add: level_def fit_def)
  obtain reply w where get: "api_rpc_get k req (world s) = (reply, w)" by fastforce
  from responsive_calls(1) [OF server v(3) this] have w: "reply = Inr c" "view w = Some v"
    using c by simp_all
  note found = Reconcile_found(1) [OF get [unfolded w(1)]]
  have "runs view (reconcile_fetched k) v (the_rpc (fetched_state s req c w))
      (\<lambda>q v' c'. level k r (next_level r v n) v' c' \<and> ends k r (next_level r v n) q v' c')"
    using runs_reconcile_fetched [OF server v(1,2)] by simp
  then show thesis
    by (rule runsE) (use w(2) that found in auto)
qed

lemma stretch_entry:
  assumes "stretch k view r env s n" "i < n"
  obtains v where "view (world (entry k env (meta_key (rpc_meta r)) s i)) = Some v" "shaped r v"
proof -
  have "smooth view r (world (entry k env (meta_key (rpc_meta r)) s i))"
    using assms by (simp add: stretch_def Let_def)
  then show thesis
    by (cases "view (world (entry k env (meta_key (rpc_meta r)) s i))") (auto simp: smooth_def intro: that)
qed

lemma stretch_undisturbed:
  assumes "stretch k view r env s n" "Suc i < n"
    and "view (world (rounds k env (meta_key (rpc_meta r)) (Suc i) s)) = Some v"
    and "view (world (entry k env (meta_key (rpc_meta r)) s (Suc i))) = Some v'"
  shows "undisturbed r v v'"
  using assms unfolding stretch_def Let_def by blast

text \<open>The rounds of a stretch: each prepared one takes the resource one level down.\<close>

lemma stretch_level:
  assumes server: "responsive k view" and s: "stretch k view r env s n" and i: "i < n"
  defines "req \<equiv> meta_key (rpc_meta r)"
  shows "\<exists>q u v c. Reconcile k req (entry k env req s i) = (Ret q, u) \<and> view (world u) = Some v \<and>
    level k r (4 - steps k view r env s (Suc i)) v c \<and> ends k r (4 - steps k view r env s (Suc i)) q v c"
  using i
proof (induction i)
  case 0
  obtain v where v: "view (world (entry k env req s 0)) = Some v" "shaped r v"
    using stretch_entry [OF s 0] unfolding req_def by blast
  obtain c where "fit r v c" by (rule shaped_fit [OF v(2)])
  then have level: "level k r 4 v c" by (simp add: level_def)
  obtain q u v' c' where "Reconcile k req (entry k env req s 0) = (Ret q, u)" "view (world u) = Some v'"
      "level k r (next_level r v 4) v' c'" "ends k r (next_level r v 4) q v' c'"
    by (rule round_level [OF server req_def [THEN meta_eq_to_obj_eq] level _ v(1)], simp, rule that)
  moreover have "next_level r v 4 = 4 - steps k view r env s (Suc 0)"
    using v(1) by (simp add: next_level_def steps_def progresses_def req_def)
  ultimately show ?case by auto
next
  case (Suc i)
  then obtain q u v c where IH: "Reconcile k req (entry k env req s i) = (Ret q, u)" "view (world u) = Some v"
      "level k r (4 - steps k view r env s (Suc i)) v c"
    by force
  then have u: "rounds k env req (Suc i) s = u" by simp
  obtain v' where v': "view (world (entry k env req s (Suc i))) = Some v'" "shaped r v'"
    using stretch_entry [OF s Suc.prems] unfolding req_def by blast
  have "undisturbed r v v'"
    by (rule stretch_undisturbed [OF s Suc.prems, folded req_def, OF _ v'(1)]) (simp only: u IH(2))
  from level_undisturbed [OF IH(3) this v'(2)]
  have level: "level k r (max 1 (4 - steps k view r env s (Suc i))) v' c" .
  have le: "next_level r v' (max 1 (4 - steps k view r env s (Suc i))) \<le> 4 - steps k view r env s (Suc (Suc i))"
    using steps_Suc [where view = view and k = k and env = env and r = r and s = s and n = "Suc i", OF v'(1) [unfolded req_def]]
    by (auto simp: next_level_def max_def)
  obtain q' u' w d where
    "Reconcile k req (entry k env req s (Suc i)) = (Ret q', u')" "view (world u') = Some w"
    "level k r (next_level r v' (max 1 (4 - steps k view r env s (Suc i)))) w d"
    "ends k r (next_level r v' (max 1 (4 - steps k view r env s (Suc i)))) q' w d"
    by (rule round_level [OF server req_def [THEN meta_eq_to_obj_eq] level _ v'(1)], simp, rule that)
  with level_mono [OF _ le] ends_mono [OF _ le] show ?case by blast
qed

text \<open>An environment that always answers and never disturbs makes a stretch of any length.\<close>

lemma fit_shaped: "fit r v c \<Longrightarrow> shaped r v"
  by (auto simp: fit_def shaped_def split: option.split)

lemma stretch_env:
  assumes server: "responsive k view"
    and env: "\<And>i w v. view w = Some v \<Longrightarrow> shaped r v \<Longrightarrow>
      \<exists>v'. view (env i w) = Some v' \<and> shaped r v' \<and> undisturbed r v v'"
    and start: "view (world s) = Some v" "shaped r v"
  shows "stretch k view r env s n"
proof -
  define req where "req = meta_key (rpc_meta r)"
  have step: "\<exists>v'. view (world (meanwhile (env i) t)) = Some v' \<and> shaped r v' \<and> undisturbed r v v'"
    if "view (world t) = Some v" "shaped r v" for i t v
    using env [OF that] by (simp add: meanwhile_def)
  have at: "\<exists>v. view (world (rounds k env req i s)) = Some v \<and> shaped r v" for i
  proof (induction i)
    case (Suc i)
    then obtain v' where v': "view (world (entry k env req s i)) = Some v'" "shaped r v'"
      using step by blast
    obtain c where "fit r v' c" by (rule shaped_fit [OF v'(2)])
    then have "level k r 4 v' c" by (simp add: level_def)
    then obtain q u w c' where "Reconcile k req (entry k env req s i) = (Ret q, u)" "view (world u) = Some w"
        "level k r (next_level r v' 4) w c'"
      by (rule round_level [OF server req_def _ _ v'(1)]) simp
    then show ?case by (auto simp: level_def intro: fit_shaped)
  qed (use start in simp)
  have "smooth view r (world (entry k env req s i))" for i
  proof -
    obtain v where "view (world (rounds k env req i s)) = Some v" "shaped r v" using at by blast
    from step [OF this, of i] show ?thesis by (auto simp: smooth_def)
  qed
  moreover have "undisturbed r v v'" if "view (world (rounds k env req i s)) = Some v"
      "view (world (entry k env req s i)) = Some v'" for i v v'
    using at [of i] step [of "rounds k env req i s" v i] that by auto
  ultimately show ?thesis by (simp add: stretch_def Let_def req_def)
qed

section \<open>The work loop\<close>

text \<open>
  The queue of controller-runtime: a resource is reconciled again after an error and when the
  result asks for it. \<open>None\<close> is a loop that never ends, or a panic.
\<close>

partial_function (option) work ::
  "'w client \<Rightarrow> (nat \<Rightarrow> 'w \<Rightarrow> 'w) \<Rightarrow> NamespacedName \<Rightarrow> nat \<Rightarrow> 'w run_state \<Rightarrow> 'w run_state option" where
  "work k env req n s = (case Reconcile k req (meanwhile (env n) s) of
     (Panicked _, _) \<Rightarrow> None
   | (Ret (result, err), s') \<Rightarrow>
       if err \<noteq> None \<or> asks_again result then work k env req (Suc n) s' else Some s')"

text \<open>The loop ends at the first round that does not go on, and then everything is there.\<close>

lemma work_stretch:
  assumes server: "responsive k view" and s: "stretch k view r env s n" and all: "4 \<le> steps k view r env s n"
  defines "req \<equiv> meta_key (rpc_meta r)"
  shows "i < n \<Longrightarrow> \<exists>j \<le> n. work k env req i (rounds k env req i s) = Some (rounds k env req j s) \<and>
    (\<exists>v c. view (world (rounds k env req j s)) = Some v \<and> up k r v c)"
proof (induction "n - i" arbitrary: i rule: less_induct)
  case less
  obtain result err u v c where q: "Reconcile k req (entry k env req s i) = (Ret (result, err), u)" "view (world u) = Some v"
      "ends k r (4 - steps k view r env s (Suc i)) (result, err) v c"
    using stretch_level [OF server s less.prems] unfolding req_def by (metis surj_pair)
  have u: "rounds k env req (Suc i) s = u" using q(1) by simp
  have step: "work k env req i (rounds k env req i s) =
      (if err \<noteq> None \<or> asks_again result then work k env req (Suc i) u else Some u)"
    by (subst work.simps) (simp add: q(1))
  show ?case
  proof (cases "goes_on (result, err)")
    case False
    with q(3) have "up k r v c" by (simp add: ends_def)
    moreover have "work k env req i (rounds k env req i s) = Some (rounds k env req (Suc i) s)"
      using step False u by (simp add: goes_on_def)
    ultimately show ?thesis using u q(2) less.prems by (intro exI [where x = "Suc i"]) auto
  next
    case True
    have "\<not> goes_on (empty_result, None)" by (simp add: goes_on_def asks_again_def empty_result_def)
    with True q(3) have "steps k view r env s (Suc i) < 4" by (auto simp: ends_def)
    with all less.prems have "Suc i < n" by (metis Suc_lessI linorder_not_le)
    from less.hyps [OF diff_less_mono2 [OF lessI less.prems] this] obtain j where
      "j \<le> n" "work k env req (Suc i) (rounds k env req (Suc i) s) = Some (rounds k env req j s)"
      "\<exists>v c. view (world (rounds k env req j s)) = Some v \<and> up k r v c" by auto
    moreover from True have "work k env req i (rounds k env req i s) = work k env req (Suc i) (rounds k env req (Suc i) s)"
      using step u by (simp add: goes_on_def)
    ultimately show ?thesis by auto
  qed
qed

section \<open>Properties\<close>



section \<open>A cluster in memory\<close>

text \<open>For the witness: the cluster itself as the world; its server always answers.\<close>

definition cluster_api :: "(cluster \<Rightarrow> NamespacedName \<Rightarrow> 'a option) \<Rightarrow>
    (((NamespacedName \<Rightarrow> 'a option) \<Rightarrow> NamespacedName \<Rightarrow> 'a option) \<Rightarrow> cluster \<Rightarrow> cluster) \<Rightarrow>
    ('a \<Rightarrow> NamespacedName) \<Rightarrow> (cluster, 'a) kind_api" where
  "cluster_api look upd key =
    \<lparr>api_get = (\<lambda>n v. (case look v n of None \<Rightarrow> Inl NotFound | Some x \<Rightarrow> Inr x, v)),
     api_create = (\<lambda>x v. case look v (key x) of
        None \<Rightarrow> (Inr x, upd (\<lambda>m. m(key x \<mapsto> x)) v) | Some _ \<Rightarrow> (Inl AlreadyExists, v)),
     api_update = (\<lambda>x v. case look v (key x) of
        None \<Rightarrow> (Inl NotFound, v) | Some _ \<Rightarrow> (Inr x, upd (\<lambda>m. m(key x \<mapsto> x)) v)),
     api_delete = (\<lambda>n _ v. case look v n of
        None \<Rightarrow> (Some NotFound, v) | Some _ \<Rightarrow> (None, upd (\<lambda>m. m(n := None)) v))\<rparr>"

definition cluster_client :: "cluster client" where
  "cluster_client =
    \<lparr>api_pvcs = cluster_api cl_pvcs cl_pvcs_update (\<lambda>x. meta_key (pvc_meta x)),
     api_jobs = cluster_api cl_jobs cl_jobs_update (\<lambda>x. meta_key (job_meta x)),
     api_pods = cluster_api cl_pods cl_pods_update (\<lambda>x. meta_key (pod_meta x)),
     api_pod_monitors = cluster_api cl_monitors cl_monitors_update (\<lambda>x. meta_key (pm_meta x)),
     api_rpc_get = (\<lambda>n v. (case cl_rpcs v n of None \<Rightarrow> Inl NotFound | Some x \<Rightarrow> Inr x, v)),
     api_status_update = (\<lambda>x v. case cl_rpcs v (meta_key (rpc_meta x)) of None \<Rightarrow> (Inl NotFound, v)
        | Some _ \<Rightarrow> (Inr x, cl_rpcs_update (\<lambda>m. m(meta_key (rpc_meta x) \<mapsto> x)) v)),
     api_proxy_get = (\<lambda>_ _ _ _ _ v. (None, v)),
     api_event = (\<lambda>_ _ _ v. v),
     set_status_condition = (\<lambda>_. mem_set_condition empty_mem),
     is_status_condition_true = mem_condition_true\<rparr>"

lemma cluster_stores:
  "h_api h = cluster_api look upd (h_key h) \<Longrightarrow> (\<And>x. same x x) \<Longrightarrow> stores h same Some look upd"
  by (auto simp: stores_def cluster_api_def split: option.splits)

lemma cluster_client_responsive: "responsive cluster_client Some"
proof -
  have "lawful_conditions cluster_client"
    using lawful_conditions_mem unfolding lawful_conditions_def mem_client_sel
    by (simp add: cluster_client_def)
  then show ?thesis
    unfolding responsive_def
    by (intro conjI cluster_stores)
      (auto simp: pvcs_def jobs_def pods_def pod_monitors_def cluster_client_def
        same_claim_def same_job_def same_pod_def same_monitor_def split: option.splits)
qed

text \<open>Claims get bound and pods run; the job finishes, or is still running.\<close>

definition kubelet :: "bool \<Rightarrow> cluster \<Rightarrow> cluster" where
  "kubelet finished v = v\<lparr>cl_pvcs := (\<lambda>n. map_option bound_claim (cl_pvcs v n)),
     cl_jobs := (\<lambda>n. map_option (job_succeeded_update (\<lambda>_. if finished then 1 else 0)) (cl_jobs v n)),
     cl_pods := (\<lambda>n. map_option (\<lambda>p. p\<lparr>pod_phase := ''Running'', pod_reason := '''', pod_container_statuses := []\<rparr>)
       (cl_pods v n))\<rparr>"

text \<open>Only the resource is there, without a status.\<close>

definition fresh_cluster :: cluster where
  "fresh_cluster = \<lparr>cl_rpcs = [sample_key \<mapsto> sample_rpc], cl_pvcs = (\<lambda>_. None), cl_jobs = (\<lambda>_. None),
     cl_pods = (\<lambda>_. None), cl_monitors = (\<lambda>_. None)\<rparr>"

text \<open>Five rounds, in one of which the job is still running.\<close>

definition daily :: "nat \<Rightarrow> cluster \<Rightarrow> cluster" where
  "daily i = kubelet (i \<noteq> 2)"

lemma kubelet_shaped: "shaped r v \<Longrightarrow> shaped r (kubelet b v) \<and> undisturbed r v (kubelet b v)"
  by (auto simp: shaped_def undisturbed_def kept_def kubelet_def safe_pod_def shouldPodGetRecreated_def
      split: option.splits)

lemma kubelet_prepared: "prepared r (kubelet True v)"
  by (auto simp: prepared_def kubelet_def isReady_def bound_claim_def split: option.splits)

lemma fresh_stretch:
  "stretch cluster_client Some sample_rpc daily (run_from fresh_cluster zero_rpc) 5"
  "4 \<le> steps cluster_client Some sample_rpc daily (run_from fresh_cluster zero_rpc) 5"
proof -
  have "shaped sample_rpc fresh_cluster"
    by (simp add: shaped_def fresh_cluster_def sample_key)
  then show "stretch cluster_client Some sample_rpc daily (run_from fresh_cluster zero_rpc) 5"
    using kubelet_shaped
    by (intro stretch_env [OF cluster_client_responsive]) (simp_all add: daily_def)
  define Q where "Q i = progresses Some sample_rpc (world (entry cluster_client daily sample_key
    (run_from fresh_cluster zero_rpc) i))" for i
  have "Q i" if "i \<noteq> 2" for i
    using that kubelet_prepared by (simp add: Q_def progresses_def daily_def meanwhile_def)
  moreover have "[0..<5] = [0, 1, 2, 3, 4 :: nat]" by (simp add: upt_rec)
  ultimately have "4 \<le> length (filter Q [0..<5])" by simp
  then show "4 \<le> steps cluster_client Some sample_rpc daily (run_from fresh_cluster zero_rpc) 5"
    unfolding steps_def sample_key Q_def .
qed



end
