(* ===== verification/Failed_Job.thy ===== *)
theory Failed_Job
  imports Convergence
begin

text \<open>
  The other end of a restore: the job has failed. Nothing in the operator removes a failed job or
  creates it again, so as long as it stays failed the resource stays where it is.
\<close>

definition blocked :: "'w client \<Rightarrow> StarknetRPC \<Rightarrow> cluster \<Rightarrow> StarknetRPC \<Rightarrow> bool" where
  "blocked k r v c \<longleftrightarrow> fit r v c \<and> \<not> restored k c \<and> \<not> switched_off r \<and>
     (\<exists>p. cl_pvcs v (GetStoragePvcName r) = Some p \<and> isReady p) \<and>
     (\<exists>p. cl_pvcs v (GetRestorePvcName r) = Some p \<and> isReady p) \<and>
     (\<exists>j. cl_jobs v (GetRestoreJobName r) = Some j \<and> sint (job_succeeded j) \<le> 0 \<and> 0 < sint (job_failed j))"

lemma blockedD:
  assumes "blocked k r v c"
  obtains p p' j where "fit r v c" "\<not> restored k c" "\<not> switched_off r"
    "cl_pvcs v (GetStoragePvcName r) = Some p" "isReady p"
    "cl_pvcs v (GetRestorePvcName r) = Some p'" "isReady p'"
    "cl_jobs v (GetRestoreJobName r) = Some j" "sint (job_succeeded j) \<le> 0" "0 < sint (job_failed j)"
  using assms unfolding blocked_def by blast

lemma blocked_objects:
  "blocked k r v c \<Longrightarrow> fit r v' c' \<Longrightarrow> objects v' = objects v \<Longrightarrow> \<not> restored k c' \<Longrightarrow> blocked k r v' c'"
  by (simp add: blocked_def objects_eq)

lemma runs_failed_job:
  assumes server: "responsive k view" and v: "blocked k r v c"
  shows "runs view (ReconcileArchiveRestore k) v c (\<lambda>q v' c'. q = (None, Some ErrTerminateLoop) \<and>
    blocked k r v' c' \<and> objects v' = objects v)"
proof -
  obtain p p' j where here: "fit r v c" "\<not> restored k c" "\<not> switched_off r"
    "cl_pvcs v (GetStoragePvcName r) = Some p" "isReady p"
    "cl_pvcs v (GetRestorePvcName r) = Some p'" "isReady p'"
    "cl_jobs v (GetRestoreJobName r) = Some j" "sint (job_succeeded j) \<le> 0" "0 < sint (job_failed j)"
    using v by (rule blockedD)
  note fit = here(1) and pvc = responsiveD(2) [OF server] and job = responsiveD(3) [OF server]
    and true = mark_true [OF responsiveD(1) [OF server], folded restored_def]
  have off: "switched_off c \<longleftrightarrow> switched_off r" using fitD(2) [OF fit] by (simp add: same_resource_def)
  have mark: "runs view (mark_then k (markRestoreAsFailed k) (None, Some ErrTerminateLoop)) v c
      (\<lambda>q v' c'. q = (None, Some ErrTerminateLoop) \<and> blocked k r v' c' \<and> objects v' = objects v)"
    by (rule runs_mark [OF server fit]) (auto simp: true intro: blocked_objects [OF v])
  have status: "runs view (restore_create_job k c) v c
      (\<lambda>q v' c'. q = (None, Some ErrTerminateLoop) \<and> blocked k r v' c' \<and> objects v' = objects v)"
    unfolding restore_create_job_def restore_job_status_def Let_def
    by (rule runs_Create_taken [OF job, where z = j], simp add: here fitD [OF fit], simp,
        rule runs_Get [OF job]) (use here mark in \<open>simp add: fitD [OF fit]\<close>)
  have ensure: "runs view (EnsurePvcReady k) v c (\<lambda>q v' c'. v' = v \<and> c' = c \<and> q = (Some empty_result, None))"
    unfolding EnsurePvcReady_def
    by (intro runs_reading runs_Get [OF pvc]) (auto simp: fitD [OF fit] here intro!: runs_returns)
  have check: "runs view (restore_check_claims k c (GetWantedRestorePvc c)) v c
      (\<lambda>q v' c'. q = (None, Some ErrTerminateLoop) \<and> blocked k r v' c' \<and> objects v' = objects v)"
    unfolding restore_check_claims_def
    by (intro runs_Get [OF pvc]) (auto simp: here fitD [OF fit] status intro!: runs_bind [OF runs_mono [OF ensure]])
  show ?thesis
    unfolding ReconcileArchiveRestore_def Let_def
    using here check
    by (intro runs_reading)
      (auto simp: restored_def [symmetric] off fitD [OF fit] intro!: runs_Create_taken [OF pvc])
qed

lemma runs_blocked:
  assumes server: "responsive k view" and v: "blocked k r v c"
  shows "runs view (reconcile_fetched k) v c (\<lambda>q v' c'. q = (empty_result, Some ErrTerminateLoop) \<and>
    blocked k r v' c' \<and> objects v' = objects v)"
proof -
  obtain p where fit: "fit r v c" and here: "\<not> restored k c" "cl_pvcs v (GetStoragePvcName r) = Some p"
    using v by (rule blockedD)
  have restore: "runs view (seq (ReconcileArchiveRestore k) (\<lambda>res. after_step res give_up m)) v2 c2
      (\<lambda>q v' c'. q = (empty_result, Some ErrTerminateLoop) \<and> blocked k r v' c' \<and> objects v' = objects v)"
    if "blocked k r v2 c2" "objects v2 = objects v" for v2 c2 m
    by (rule runs_bind, rule runs_mono [OF runs_failed_job [OF server that(1)]])
      (use that(2) in \<open>auto simp: after_step_def give_up_def intro: runs_returns\<close>)
  have claim: "runs view (seq (ReconcilePvc k) (\<lambda>res. after_step res give_up
      (seq (ReconcileArchiveRestore k) (\<lambda>res. after_step res give_up m)))) v1 c1
      (\<lambda>q v' c'. q = (empty_result, Some ErrTerminateLoop) \<and> blocked k r v' c' \<and> objects v' = objects v)"
    if "fit r v1 c1" "objects v1 = objects v" "\<not> restored k c1" for v1 c1 m
  proof -
    have "cl_pvcs v1 (GetStoragePvcName r) = Some p" using that(2) here(2) by (simp add: objects_eq)
    then have "runs view (ReconcilePvc k) v1 c1 (\<lambda>q v' c'. q = (Some empty_result, None) \<and> v' = v1 \<and> c' = c1)"
      unfolding ReconcilePvc_def Let_def
      by (intro runs_reading runs_Create_taken [OF responsiveD(2) [OF server]])
        (auto simp: fitD [OF that(1)] intro: runs_returns)
    then show ?thesis
      by (rule runs_bind [OF runs_mono])
        (use blocked_objects [OF v that(1,2,3)] that(2) restore in \<open>auto simp: after_step_ok\<close>)
  qed
  show ?thesis
    unfolding reconcile_fetched_def
    by (rule runs_bind, rule runs_mono [OF runs_Initialize [OF server fit]]) (use here in \<open>auto intro!: claim\<close>)
qed

lemma Reconcile_blocked:
  assumes server: "responsive k view" and req: "req = meta_key (rpc_meta r)"
    and v: "view (world s) = Some v" "blocked k r v c"
  obtains s' v' c' where "Reconcile k req s = (Ret (empty_result, Some ErrTerminateLoop), s')"
    "view (world s') = Some v'" "blocked k r v' c'" "objects v' = objects v"
proof -
  have c: "cl_rpcs v req = Some c" using v(2) req by (simp add: blocked_def fit_def)
  obtain reply w where get: "api_rpc_get k req (world s) = (reply, w)" by fastforce
  from responsive_calls(1) [OF server v(1) this] have w: "reply = Inr c" "view w = Some v" using c by simp_all
  have "runs view (reconcile_fetched k) v (the_rpc (fetched_state s req c w))
      (\<lambda>q v' c'. q = (empty_result, Some ErrTerminateLoop) \<and> blocked k r v' c' \<and> objects v' = objects v)"
    using runs_blocked [OF server v(2)] by simp
  then show thesis
    by (rule runsE) (use that w(2) Reconcile_found(1) [OF get [unfolded w(1)]] in auto)
qed

lemma meanwhile_still [simp]: "meanwhile (\<lambda>v. v) s = s"
  by (simp add: meanwhile_def)

text \<open>The job stays failed, and the server goes on to answer.\<close>

definition stays_blocked :: "'w client \<Rightarrow> ('w \<Rightarrow> cluster option) \<Rightarrow> StarknetRPC \<Rightarrow> (nat \<Rightarrow> 'w \<Rightarrow> 'w) \<Rightarrow> bool" where
  "stays_blocked k view r env \<longleftrightarrow> (\<forall>n w v c. view w = Some v \<longrightarrow> blocked k r v c \<longrightarrow>
     (\<exists>v'. view (env n w) = Some v' \<and> blocked k r v' c))"

lemma blocked_meanwhile:
  "stays_blocked k view r env \<Longrightarrow> view (world s) = Some v \<Longrightarrow> blocked k r v c \<Longrightarrow>
   \<exists>v'. view (world (meanwhile (env n) s)) = Some v' \<and> blocked k r v' c"
  by (simp add: stays_blocked_def meanwhile_def)

lemma blocked_rounds:
  assumes server: "responsive k view" and req: "req = meta_key (rpc_meta r)"
    and env: "stays_blocked k view r env"
    and start: "view (world s) = Some v" "blocked k r v c"
  shows "\<exists>v c. view (world (rounds k env req n s)) = Some v \<and> blocked k r v c"
proof (induction n)
  case (Suc n)
  then obtain v c where "view (world (meanwhile (env n) (rounds k env req n s))) = Some v" "blocked k r v c"
    using blocked_meanwhile [OF env] by blast
  then show ?case by (rule Reconcile_blocked [OF server req]) auto
qed (use start in auto)

text \<open>The work loop never ends: a run that ends did not start from a blocked resource.\<close>

lemma work_blocked:
  assumes "work k env req n s = Some y"
  shows "responsive k view \<Longrightarrow> req = meta_key (rpc_meta r) \<Longrightarrow> stays_blocked k view r env \<Longrightarrow>
    view (world s) = Some v \<Longrightarrow> \<not> blocked k r v c"
  using assms
proof (induction arbitrary: v c rule: work.raw_induct [rotated, consumes 1, case_names step])
  case (step loop k env req n s y)
  show ?case
  proof
    assume "blocked k r v c"
    then obtain v' where "view (world (meanwhile (env n) s)) = Some v'" "blocked k r v' c"
      using blocked_meanwhile [OF step(5,6)] by blast
    then obtain s' w c' where run: "Reconcile k req (meanwhile (env n) s) = (Ret (empty_result, Some ErrTerminateLoop), s')"
      "view (world s') = Some w" "blocked k r w c'"
      by (rule Reconcile_blocked [OF step(3,4)])
    then have "loop k env req (Suc n) s' = Some y" using step(2) by simp
    then have "\<not> blocked k r w c'"
      by (rule step(1) [OF _ step(3,4,5) run(2)])
    with run(3) show False by blast
  qed
qed

section \<open>Properties\<close>

text \<open>C11. A job that has failed is never tried again. While it stays failed, every reconciliation ends
  with the error \<open>ErrTerminateLoop\<close> and changes no object: the job is not replaced, no pod is created.
  Since an error makes the queue try again, the work loop never ends. So the loop of C5 ends only
  because its stretch has a job that succeeds. All this is for a server that answers.\<close>

theorem failed_job_blocks:
  assumes "responsive k view" and "req = meta_key (rpc_meta r)" and "stays_blocked k view r env"
    and "view (world s) = Some v" and "blocked k r v c"
  shows "\<exists>v'. view (world (entry k env req s n)) = Some v' \<and>
    fst (Reconcile k req (entry k env req s n)) = Ret (empty_result, Some ErrTerminateLoop) \<and>
    map_option objects (view (world (snd (Reconcile k req (entry k env req s n))))) = Some (objects v') \<and>
    work k env req 0 s = None"
proof -
  obtain v' c' where v': "view (world (entry k env req s n)) = Some v'" "blocked k r v' c'"
    using blocked_rounds [OF assms] blocked_meanwhile [OF assms(3)] by blast
  then have "fst (Reconcile k req (entry k env req s n)) = Ret (empty_result, Some ErrTerminateLoop) \<and>
      map_option objects (view (world (snd (Reconcile k req (entry k env req s n))))) = Some (objects v')"
    by (rule Reconcile_blocked [OF assms(1,2)]) simp
  moreover have "work k env req 0 s = None"
    using work_blocked [OF _ assms(1-4)] assms(5) by (cases "work k env req 0 s") auto
  ultimately show ?thesis using v'(1) by blast
qed

text \<open>The job of the sample has failed once.\<close>

definition failed_cluster :: cluster where
  "failed_cluster = fresh_cluster\<lparr>
     cl_pvcs := [GetStoragePvcName sample_rpc \<mapsto> bound_claim (GetWantedPvc sample_rpc),
       GetRestorePvcName sample_rpc \<mapsto> bound_claim (GetWantedRestorePvc sample_rpc)],
     cl_jobs := [GetRestoreJobName sample_rpc \<mapsto> (GetWantedRestoreJob sample_rpc)\<lparr>job_failed := 1\<rparr>]\<rparr>"

theorem failed_job_blocks_witness:
  "fst (Reconcile cluster_client sample_key (run_from failed_cluster zero_rpc)) = Ret (empty_result, Some ErrTerminateLoop) \<and>
   work cluster_client (\<lambda>_ v. v) sample_key 0 (run_from failed_cluster zero_rpc) = None"
proof -
  have job: "sint (job_succeeded (GetWantedRestoreJob sample_rpc)) = 0"
    by (simp add: GetWantedRestoreJob_def Let_def)
  have "\<not> restored cluster_client sample_rpc"
    by (simp add: restored_def cluster_client_def mem_condition_true_def condition_of_def)
  moreover have "\<not> switched_off sample_rpc" by (simp add: sample_rpc_def)
  ultimately have "blocked cluster_client sample_rpc failed_cluster sample_rpc"
    using job names_differ [of sample_rpc]
    by (auto simp: blocked_def fit_def failed_cluster_def fresh_cluster_def sample_key isReady_def bound_claim_def)
  moreover have "stays_blocked cluster_client Some sample_rpc (\<lambda>_ v. v)"
    by (simp add: stays_blocked_def)
  ultimately show ?thesis
    using failed_job_blocks [OF cluster_client_responsive sample_key(1) [symmetric], of "\<lambda>_ v. v"
        "run_from failed_cluster zero_rpc" failed_cluster sample_rpc 0] by simp
qed

end
