(* ===== verification/Flags.thy ===== *)
theory Flags
  imports Prelude
begin

text \<open>
  The command line of cmd/main.go: the flags it declares, their defaults, and how Go's package
  flag reads the arguments into them. Libraries declare flags of their own on the same command
  line (zap's options, the kubeconfig of controller-runtime); which ones, of what kind and what
  they accept is the parameter \<open>library_flags\<close>.
\<close>

section \<open>The flags\<close>

record Flags =
  metricsAddr :: string
  probeAddr :: string
  enableLeaderElection :: bool
  secureMetrics :: bool
  webhookCertPath :: string
  webhookCertName :: string
  webhookCertKey :: string
  metricsCertPath :: string
  metricsCertName :: string
  metricsCertKey :: string
  enableHTTP2 :: bool

definition default_flags :: Flags where
  "default_flags =
    \<lparr>metricsAddr = ''0'', probeAddr = '':8081'', enableLeaderElection = False, secureMetrics = True,
     webhookCertPath = '''', webhookCertName = ''tls.crt'', webhookCertKey = ''tls.key'',
     metricsCertPath = '''', metricsCertName = ''tls.crt'', metricsCertKey = ''tls.key'',
     enableHTTP2 = False\<rparr>"

text \<open>A flag is a boolean or a string; its setter stores the value.\<close>

datatype FlagVar = BoolVar "bool \<Rightarrow> Flags \<Rightarrow> Flags" | StringVar "string \<Rightarrow> Flags \<Rightarrow> Flags"

definition flag_table :: "(string \<times> FlagVar) list" where
  "flag_table =
    [(''metrics-bind-address'', StringVar (\<lambda>v. metricsAddr_update (\<lambda>_. v))),
     (''health-probe-bind-address'', StringVar (\<lambda>v. probeAddr_update (\<lambda>_. v))),
     (''leader-elect'', BoolVar (\<lambda>v. enableLeaderElection_update (\<lambda>_. v))),
     (''metrics-secure'', BoolVar (\<lambda>v. secureMetrics_update (\<lambda>_. v))),
     (''webhook-cert-path'', StringVar (\<lambda>v. webhookCertPath_update (\<lambda>_. v))),
     (''webhook-cert-name'', StringVar (\<lambda>v. webhookCertName_update (\<lambda>_. v))),
     (''webhook-cert-key'', StringVar (\<lambda>v. webhookCertKey_update (\<lambda>_. v))),
     (''metrics-cert-path'', StringVar (\<lambda>v. metricsCertPath_update (\<lambda>_. v))),
     (''metrics-cert-name'', StringVar (\<lambda>v. metricsCertName_update (\<lambda>_. v))),
     (''metrics-cert-key'', StringVar (\<lambda>v. metricsCertKey_update (\<lambda>_. v))),
     (''enable-http2'', BoolVar (\<lambda>v. enableHTTP2_update (\<lambda>_. v)))]"

section \<open>Package flag\<close>

text \<open>\<open>strconv.ParseBool\<close>.\<close>

definition ParseBool :: "string \<Rightarrow> bool option" where
  "ParseBool v =
    (if v \<in> {''1'', ''t'', ''T'', ''true'', ''TRUE'', ''True''} then Some True
     else if v \<in> {''0'', ''f'', ''F'', ''false'', ''FALSE'', ''False''} then Some False
     else None)"

text \<open>The flags of the libraries: whether a name is one, and takes no argument; what it accepts.\<close>

record library_flags =
  lib_is_bool :: "string \<Rightarrow> bool option"
  lib_accepts :: "string \<Rightarrow> string \<Rightarrow> bool"

text \<open>\<open>flag.Value.Set\<close>; \<open>None\<close> is an error.\<close>

definition set_flag :: "library_flags \<Rightarrow> string \<Rightarrow> string \<Rightarrow> Flags \<Rightarrow> Flags option" where
  "set_flag lib name v flags =
    (case map_of flag_table name of
       Some (BoolVar upd) \<Rightarrow> map_option (\<lambda>b. upd b flags) (ParseBool v)
     | Some (StringVar upd) \<Rightarrow> Some (upd v flags)
     | None \<Rightarrow> if lib_accepts lib name v then Some flags else None)"

definition is_bool_flag :: "library_flags \<Rightarrow> string \<Rightarrow> bool option" where
  "is_bool_flag lib name =
    (case map_of flag_table name of
       Some (BoolVar _) \<Rightarrow> Some True | Some (StringVar _) \<Rightarrow> Some False
     | None \<Rightarrow> lib_is_bool lib name)"

text \<open>
  \<open>parseOne\<close>: the arguments stop being flags at the first one that does not start with a
  dash, or after two dashes alone. The value follows the first equals sign, which is not the
  first character, or is the next argument. A bad flag ends the program with status 2, a
  request for help with status 0.
\<close>

datatype parsed_one = NoMore "string list" | BadFlag | HelpFlag | OneFlag Flags "string list"

definition split_flag :: "string \<Rightarrow> string \<times> string option" where
  "split_flag arg = (case arg of [] \<Rightarrow> ([], None)
     | c # cs \<Rightarrow>
         (c # takeWhile (\<lambda>x. x \<noteq> CHR ''='') cs,
          case dropWhile (\<lambda>x. x \<noteq> CHR ''='') cs of [] \<Rightarrow> None | _ # v \<Rightarrow> Some v))"

definition set_one :: "library_flags \<Rightarrow> string \<Rightarrow> string option \<Rightarrow> string list \<Rightarrow> Flags \<Rightarrow> parsed_one" where
  "set_one lib name given rest flags =
    (case is_bool_flag lib name of
       None \<Rightarrow> if name = ''help'' \<or> name = ''h'' then HelpFlag else BadFlag
     | Some True \<Rightarrow>
         (case set_flag lib name (case given of Some v \<Rightarrow> v | None \<Rightarrow> ''true'') flags of
            None \<Rightarrow> BadFlag | Some flags' \<Rightarrow> OneFlag flags' rest)
     | Some False \<Rightarrow>
         (case (given, rest) of
            (Some v, _) \<Rightarrow> (case set_flag lib name v flags of None \<Rightarrow> BadFlag | Some flags' \<Rightarrow> OneFlag flags' rest)
          | (None, v # rest') \<Rightarrow> (case set_flag lib name v flags of None \<Rightarrow> BadFlag | Some flags' \<Rightarrow> OneFlag flags' rest')
          | (None, []) \<Rightarrow> BadFlag))"

definition parse_one :: "library_flags \<Rightarrow> string \<Rightarrow> string list \<Rightarrow> Flags \<Rightarrow> parsed_one" where
  "parse_one lib arg rest flags =
    (if length arg < 2 \<or> hd arg \<noteq> CHR ''-'' then NoMore (arg # rest)
     else if arg = ''--'' then NoMore rest
     else
       let body = (if arg ! 1 = CHR ''-'' then drop 2 arg else drop 1 arg) in
       if body = [] \<or> hd body = CHR ''-'' \<or> hd body = CHR ''='' then BadFlag
       else case split_flag body of (name, given) \<Rightarrow> set_one lib name given rest flags)"

datatype ParseResult = Parsed Flags "string list" | ExitUsage int

lemma set_one_shorter: "set_one lib name given rest flags = OneFlag flags' rest' \<Longrightarrow> length rest' \<le> length rest"
  by (auto simp: set_one_def split: option.splits bool.splits list.splits prod.splits if_splits)

lemma parse_one_shorter: "parse_one lib arg rest flags = OneFlag flags' rest' \<Longrightarrow> length rest' \<le> length rest"
  by (auto simp: parse_one_def Let_def split_def split: if_splits dest: set_one_shorter)

function parse_flags :: "library_flags \<Rightarrow> string list \<Rightarrow> Flags \<Rightarrow> ParseResult" where
  "parse_flags lib [] flags = Parsed flags []"
| "parse_flags lib (arg # rest) flags =
    (case parse_one lib arg rest flags of
       NoMore args \<Rightarrow> Parsed flags args
     | BadFlag \<Rightarrow> ExitUsage 2
     | HelpFlag \<Rightarrow> ExitUsage 0
     | OneFlag flags' rest' \<Rightarrow> parse_flags lib rest' flags')"
  by pat_completeness auto

termination
  by (relation "measure (\<lambda>(lib, args, flags). length args)") (auto dest: parse_one_shorter)

section \<open>Properties\<close>

text \<open>The canonical command line of given flags.\<close>

definition show_bool :: "bool \<Rightarrow> string" where
  "show_bool b = (if b then ''true'' else ''false'')"

definition render :: "Flags \<Rightarrow> string list" where
  "render f =
    [''--metrics-bind-address='' @ metricsAddr f, ''--health-probe-bind-address='' @ probeAddr f,
     ''--leader-elect='' @ show_bool (enableLeaderElection f), ''--metrics-secure='' @ show_bool (secureMetrics f),
     ''--webhook-cert-path='' @ webhookCertPath f, ''--webhook-cert-name='' @ webhookCertName f,
     ''--webhook-cert-key='' @ webhookCertKey f, ''--metrics-cert-path='' @ metricsCertPath f,
     ''--metrics-cert-name='' @ metricsCertName f, ''--metrics-cert-key='' @ metricsCertKey f,
     ''--enable-http2='' @ show_bool (enableHTTP2 f)]"

lemma ParseBool_show [simp]: "ParseBool (show_bool b) = Some b"
  by (simp add: ParseBool_def show_bool_def)

lemma render_parse: "parse_flags lib (render f @ args) g = parse_flags lib args f"
  by (cases f; cases g) (simp add: render_def parse_one_def split_flag_def set_one_def set_flag_def is_bool_flag_def flag_table_def)

text \<open>C33. Every setting of the flags can be given on the command line: the canonical arguments
  are read back as exactly that setting, whatever characters the values contain and whatever
  was set before, and nothing but them is consumed.\<close>

theorem flags_roundtrip:
  "parse_flags lib (render f) g = Parsed f [] \<and> parse_flags lib (render f @ [''--'', x]) g = Parsed f [x] \<and>
   parse_flags lib [] default_flags = Parsed default_flags []"
  using render_parse [of lib f "[]" g] render_parse [of lib f "[''--'', x]" g] by (simp add: parse_one_def)

text \<open>A flag that is given twice has its last value; a boolean flag takes no argument, so a
  value after a space ends the flags; a value that is no boolean, a flag nobody declared and a
  missing argument end the program.\<close>

theorem flags_edge_cases:
  "parse_flags lib [''--enable-http2'', ''--enable-http2=false''] default_flags = Parsed default_flags [] \<and>
   parse_flags lib [''-metrics-secure'', ''false''] default_flags = Parsed default_flags [''false''] \<and>
   parse_flags lib [''--leader-elect=yes''] default_flags = ExitUsage 2 \<and>
   parse_flags lib [''--webhook-cert-path''] default_flags = ExitUsage 2 \<and>
   parse_flags \<lparr>lib_is_bool = \<lambda>_. None, lib_accepts = \<lambda>_ _. False\<rparr> [''--typo=1''] default_flags = ExitUsage 2"
  by (simp add: parse_one_def split_flag_def set_one_def set_flag_def is_bool_flag_def flag_table_def
      default_flags_def ParseBool_def)

end
