(* ===== verification/Manager.thy ===== *)
theory Manager
  imports Controller Flags
begin

text \<open>
  cmd/main.go: the start of the manager. Everything that is called in another package is a step
  of the start-up; whether it succeeds is decided by the parameter \<open>perform\<close>. The TLS options
  of the two servers are Go slices that share an array at first, so slices are modelled with
  their array and their capacity; how much \<open>append\<close> allocates is the parameter \<open>grow\<close>.
\<close>

section \<open>Slices\<close>

text \<open>An option is a closure that changes a TLS configuration; here is which one, and what it does.\<close>

datatype TLSOpt = DisableHTTP2 | UseCertificate string string

record tls_config =
  NextProtos :: "string list"
  GetCertificate :: "(string \<times> string) option"

fun apply_tls :: "TLSOpt \<Rightarrow> tls_config \<Rightarrow> tls_config" where
  "apply_tls DisableHTTP2 c = c\<lparr>NextProtos := [''http/1.1'']\<rparr>"
| "apply_tls (UseCertificate cert key) c = c\<lparr>GetCertificate := Some (cert, key)\<rparr>"

record slice =
  sl_array :: nat
  sl_len :: nat
  sl_cap :: nat

record arrays =
  array_cells :: "nat \<Rightarrow> nat \<Rightarrow> TLSOpt option"
  next_array :: nat

definition nil_slice :: slice where
  "nil_slice = \<lparr>sl_array = 0, sl_len = 0, sl_cap = 0\<rparr>"

definition elements :: "arrays \<Rightarrow> slice \<Rightarrow> TLSOpt option list" where
  "elements m s = map (array_cells m (sl_array s)) [0..<sl_len s]"

text \<open>
  \<open>append(s, x)\<close>: into the array of \<open>s\<close> while its capacity lasts, else into a new array
  that the elements are copied to.
\<close>

definition append_slice :: "(nat \<Rightarrow> nat) \<Rightarrow> slice \<Rightarrow> TLSOpt \<Rightarrow> arrays \<Rightarrow> slice \<times> arrays" where
  "append_slice grow s x m =
    (if sl_len s < sl_cap s then
       (s\<lparr>sl_len := sl_len s + 1\<rparr>,
        m\<lparr>array_cells := (array_cells m)(sl_array s := (array_cells m (sl_array s))(sl_len s := Some x))\<rparr>)
     else
       (\<lparr>sl_array = next_array m, sl_len = sl_len s + 1, sl_cap = grow (sl_len s + 1)\<rparr>,
        m\<lparr>array_cells := (array_cells m)(next_array m := (array_cells m (sl_array s))(sl_len s := Some x)),
          next_array := next_array m + 1\<rparr>))"

section \<open>Paths\<close>

text \<open>\<open>filepath.Join\<close> of two elements, with \<open>filepath.Clean\<close>.\<close>

fun split_path :: "string \<Rightarrow> string list" where
  "split_path [] = [[]]"
| "split_path (c # cs) =
    (if c = CHR ''/'' then [] # split_path cs
     else case split_path cs of [] \<Rightarrow> [[c]] | p # ps \<Rightarrow> (c # p) # ps)"

text \<open>The components kept so far, the last one first.\<close>

fun clean_parts :: "bool \<Rightarrow> string list \<Rightarrow> string list \<Rightarrow> string list" where
  "clean_parts rooted [] kept = rev kept"
| "clean_parts rooted (p # ps) kept =
    (if p = [] \<or> p = ''.'' then clean_parts rooted ps kept
     else if p = ''..'' then
       (case kept of
          [] \<Rightarrow> if rooted then clean_parts rooted ps [] else clean_parts rooted ps [p]
        | q # rest \<Rightarrow> if q = ''..'' then clean_parts rooted ps (p # kept) else clean_parts rooted ps rest)
     else clean_parts rooted ps (p # kept))"

fun join_parts :: "string list \<Rightarrow> string" where
  "join_parts [] = []"
| "join_parts [p] = p"
| "join_parts (p # ps) = p @ ''/'' @ join_parts ps"

definition Clean :: "string \<Rightarrow> string" where
  "Clean path =
    (let rooted = (path \<noteq> [] \<and> hd path = CHR ''/'');
         joined = join_parts (clean_parts rooted (split_path path) []) in
     if path = [] then ''.'' else if rooted then ''/'' @ joined
     else if joined = [] then ''.'' else joined)"

definition Join :: "string \<Rightarrow> string \<Rightarrow> string" where
  "Join dir file =
    (if dir \<noteq> [] then Clean (dir @ ''/'' @ file) else if file \<noteq> [] then Clean file else [])"

section \<open>The start-up\<close>

record MetricsOptions =
  BindAddress :: string
  SecureServing :: bool
  MetricsTLSOpts :: "TLSOpt option list"
  FilterProvider :: bool \<comment> \<open>authentication and authorization of the requests\<close>

record ManagerOptions =
  Metrics :: MetricsOptions
  WebhookTLSOpts :: "TLSOpt option list"
  HealthProbeBindAddress :: string
  LeaderElection :: bool
  LeaderElectionID :: string

datatype Step =
    AddToScheme string
  | NewCertWatcher string string
  | GetConfig
  | NewManager ManagerOptions
  | NewClientset
  | SetupReconciler "Kind \<times> Kind list"
  | AddCertWatcher string string
  | AddHealthzCheck string
  | AddReadyzCheck string
  | StartManager

text \<open>How the program ends: with a status, by a panic, or by returning from \<open>main\<close>.\<close>

datatype Exit = Status int | Crashed | Returned

record 'w startup_env =
  perform :: "Step \<Rightarrow> 'w \<Rightarrow> bool \<times> 'w"
  env_flags :: library_flags
  env_grow :: "nat \<Rightarrow> nat"

text \<open>Each step is recorded with whether it succeeded.\<close>

record 'w boot =
  boot_world :: 'w
  boot_steps :: "(Step \<times> bool) list"
  boot_arrays :: arrays

type_synonym ('w, 'a) boot_act = "'w boot \<Rightarrow> (Exit + 'a) \<times> 'w boot"

definition give :: "'a \<Rightarrow> ('w, 'a) boot_act" where
  "give x = (\<lambda>b. (Inr x, b))"

definition stop :: "Exit \<Rightarrow> ('w, 'a) boot_act" where
  "stop e = (\<lambda>b. (Inl e, b))"

definition boot_seq :: "('w, 'a) boot_act \<Rightarrow> ('a \<Rightarrow> ('w, 'b) boot_act) \<Rightarrow> ('w, 'b) boot_act" where
  "boot_seq m f = (\<lambda>b. case m b of (Inl e, b') \<Rightarrow> (Inl e, b') | (Inr x, b') \<Rightarrow> f x b')"

definition try_step :: "'w startup_env \<Rightarrow> Step \<Rightarrow> ('w, bool) boot_act" where
  "try_step env st = (\<lambda>b. case perform env st (boot_world b) of (ok, w) \<Rightarrow>
     (Inr ok, b\<lparr>boot_world := w, boot_steps := boot_steps b @ [(st, ok)]\<rparr>))"

text \<open>A step after whose failure the program ends.\<close>

definition must :: "'w startup_env \<Rightarrow> Step \<Rightarrow> Exit \<Rightarrow> ('w, unit) boot_act" where
  "must env st e = boot_seq (try_step env st) (\<lambda>ok. if ok then give () else stop e)"

definition append_opt :: "'w startup_env \<Rightarrow> slice \<Rightarrow> TLSOpt \<Rightarrow> ('w, slice) boot_act" where
  "append_opt env s x = (\<lambda>b. case append_slice (env_grow env) s x (boot_arrays b) of (s', m) \<Rightarrow>
     (Inr s', b\<lparr>boot_arrays := m\<rparr>))"

definition read_slice :: "slice \<Rightarrow> ('w, TLSOpt option list) boot_act" where
  "read_slice s = (\<lambda>b. (Inr (elements (boot_arrays b) s), b))"

text \<open>\<open>init\<close>: the third registration may fail.\<close>

definition init :: "'w startup_env \<Rightarrow> ('w, bool) boot_act" where
  "init env =
     boot_seq (must env (AddToScheme ''client-go'') Crashed) (\<lambda>_.
     boot_seq (must env (AddToScheme ''pathfinder'') Crashed) (\<lambda>_.
     try_step env (AddToScheme ''monitoring'')))"

text \<open>Lines 113 to 189: the options of the servers, and the two certificate watchers.\<close>

definition servers :: "'w startup_env \<Rightarrow> Flags \<Rightarrow> ('w, slice \<times> slice) boot_act" where
  "servers env f =
     boot_seq (if \<not> enableHTTP2 f then append_opt env nil_slice DisableHTTP2 else give nil_slice) (\<lambda>tlsOpts.
     boot_seq
       (if webhookCertPath f \<noteq> [] then
          let cert = Join (webhookCertPath f) (webhookCertName f);
              key = Join (webhookCertPath f) (webhookCertKey f) in
          boot_seq (must env (NewCertWatcher cert key) (Status 1)) (\<lambda>_.
          append_opt env tlsOpts (UseCertificate cert key))
        else give tlsOpts) (\<lambda>webhookTLSOpts.
     boot_seq
       (if metricsCertPath f \<noteq> [] then
          let cert = Join (metricsCertPath f) (metricsCertName f);
              key = Join (metricsCertPath f) (metricsCertKey f) in
          boot_seq (must env (NewCertWatcher cert key) (Status 1)) (\<lambda>_.
          append_opt env tlsOpts (UseCertificate cert key))
        else give tlsOpts) (\<lambda>metricsTLSOpts.
     give (webhookTLSOpts, metricsTLSOpts))))"

definition manager_options :: "Flags \<Rightarrow> TLSOpt option list \<Rightarrow> TLSOpt option list \<Rightarrow> ManagerOptions" where
  "manager_options f webhook metrics =
    \<lparr>Metrics = \<lparr>BindAddress = metricsAddr f, SecureServing = secureMetrics f, MetricsTLSOpts = metrics,
       FilterProvider = secureMetrics f\<rparr>,
     WebhookTLSOpts = webhook, HealthProbeBindAddress = probeAddr f,
     LeaderElection = enableLeaderElection f, LeaderElectionID = ''2d983c81.runelabs.xyz''\<rparr>"

text \<open>Lines 191 to 255. The servers read their options once the manager exists.\<close>

definition run_manager :: "'w startup_env \<Rightarrow> bool \<Rightarrow> Flags \<Rightarrow> slice \<times> slice \<Rightarrow> ('w, unit) boot_act" where
  "run_manager env monitoring f servers_tls =
     boot_seq (must env GetConfig (Status 1)) (\<lambda>_.
     boot_seq (read_slice (fst servers_tls)) (\<lambda>webhook.
     boot_seq (read_slice (snd servers_tls)) (\<lambda>metrics.
     boot_seq (must env (NewManager (manager_options f webhook metrics)) (Status 1)) (\<lambda>_.
     boot_seq (must env NewClientset Crashed) (\<lambda>_.
     boot_seq (must env (SetupReconciler (SetupWithManager monitoring)) (Status 1)) (\<lambda>_.
     boot_seq (if metricsCertPath f \<noteq> [] then
         must env (AddCertWatcher (Join (metricsCertPath f) (metricsCertName f))
           (Join (metricsCertPath f) (metricsCertKey f))) (Status 1) else give ()) (\<lambda>_.
     boot_seq (if webhookCertPath f \<noteq> [] then
         must env (AddCertWatcher (Join (webhookCertPath f) (webhookCertName f))
           (Join (webhookCertPath f) (webhookCertKey f))) (Status 1) else give ()) (\<lambda>_.
     boot_seq (must env (AddHealthzCheck ''healthz'') (Status 1)) (\<lambda>_.
     boot_seq (must env (AddReadyzCheck ''readyz'') (Status 1)) (\<lambda>_.
     must env StartManager (Status 1)))))))))))"

definition main :: "'w startup_env \<Rightarrow> string list \<Rightarrow> ('w, unit) boot_act" where
  "main env args =
     boot_seq (init env) (\<lambda>monitoring.
     case parse_flags (env_flags env) args default_flags of
       ExitUsage n \<Rightarrow> stop (Status n)
     | Parsed f _ \<Rightarrow>
         boot_seq (servers env f) (\<lambda>servers_tls.
         run_manager env monitoring f servers_tls))"

definition start_program :: "'w startup_env \<Rightarrow> string list \<Rightarrow> 'w \<Rightarrow> Exit \<times> (Step \<times> bool) list" where
  "start_program env args w =
    (case main env args \<lparr>boot_world = w, boot_steps = [],
        boot_arrays = \<lparr>array_cells = (\<lambda>_ _. None), next_array = 1\<rparr>\<rparr> of
       (Inl e, b) \<Rightarrow> (e, boot_steps b)
     | (Inr _, b) \<Rightarrow> (Returned, boot_steps b))"

section \<open>The plan of the start-up\<close>

text \<open>
  \<open>follows m b ps Q\<close>: from \<open>b\<close>, the action performs the steps of the plan \<open>ps\<close> in order,
  either all of them, or up to the first one that fails and that the program does not survive.
  An entry of a plan is a step, its expected outcome and the exit on its failure, if any.
\<close>

type_synonym plan = "(Step \<times> bool \<times> Exit option) list"

definition log_of :: "plan \<Rightarrow> (Step \<times> bool) list" where
  "log_of = map (\<lambda>(st, ok, _). (st, ok))"

definition fails_at :: "plan \<Rightarrow> nat \<Rightarrow> Exit \<Rightarrow> (Step \<times> bool) list \<Rightarrow> bool" where
  "fails_at ps i e l \<longleftrightarrow> i < length ps \<and> snd (snd (ps ! i)) = Some e \<and>
     l = log_of (take i ps) @ [(fst (ps ! i), False)]"

definition follows :: "('w, 'a) boot_act \<Rightarrow> 'w boot \<Rightarrow> plan \<Rightarrow> ('a \<Rightarrow> 'w boot \<Rightarrow> bool) \<Rightarrow> bool" where
  "follows m b ps Q = (case m b of (r, b') \<Rightarrow> \<exists>l. boot_steps b' = boot_steps b @ l \<and>
     (case r of Inr x \<Rightarrow> l = log_of ps \<and> Q x b' | Inl e \<Rightarrow> \<exists>i. fails_at ps i e l))"

lemma log_of_simps [simp]:
  "log_of [] = []" "log_of ((st, ok, e) # ps) = (st, ok) # log_of ps" "log_of (ps @ qs) = log_of ps @ log_of qs"
  by (simp_all add: log_of_def)

lemma follows_seq:
  assumes m: "follows m b ps Q" and f: "\<And>x b'. Q x b' \<Longrightarrow> follows (f x) b' qs R"
  shows "follows (boot_seq m f) b (ps @ qs) R"
proof (cases "m b")
  case (Pair r b')
  with m obtain l where l: "boot_steps b' = boot_steps b @ l"
    and r: "case r of Inr x \<Rightarrow> l = log_of ps \<and> Q x b' | Inl e \<Rightarrow> \<exists>i. fails_at ps i e l"
    by (auto simp: follows_def)
  show ?thesis
  proof (cases r)
    case (Inl e)
    with r obtain i where "fails_at ps i e l" by auto
    then have "fails_at (ps @ qs) i e l" by (auto simp: fails_at_def nth_append)
    with Pair Inl l show ?thesis by (auto simp: follows_def boot_seq_def)
  next
    case (Inr x)
    with r have x: "l = log_of ps" "Q x b'" by auto
    obtain r' b'' where run: "f x b' = (r', b'')" by (cases "f x b'")
    with f [OF x(2)] obtain l' where l': "boot_steps b'' = boot_steps b' @ l'"
      and r': "case r' of Inr y \<Rightarrow> l' = log_of qs \<and> R y b'' | Inl e \<Rightarrow> \<exists>i. fails_at qs i e l'"
      by (auto simp: follows_def)
    have "fails_at (ps @ qs) (length ps + i) e (l @ l')" if "fails_at qs i e l'" for i e
      using that x(1) by (auto simp: fails_at_def nth_append)
    with Pair Inr run l l' r' x(1) show ?thesis
      by (auto simp: follows_def boot_seq_def split: sum.splits)
  qed
qed

lemma follows_give: "Q x b \<Longrightarrow> follows (give x) b [] Q"
  by (simp add: follows_def give_def)

lemma follows_must:
  assumes "\<And>b'. boot_arrays b' = boot_arrays b \<Longrightarrow> Q () b'"
  shows "follows (must env st e) b [(st, True, Some e)] Q"
  using assms
  by (auto simp: follows_def must_def boot_seq_def try_step_def give_def stop_def fails_at_def
      split: prod.split)

text \<open>The same in the middle of a sequence.\<close>

lemma follows_then:
  "(\<And>b'. boot_arrays b' = boot_arrays b \<Longrightarrow> follows (f ()) b' ps Q) \<Longrightarrow>
   follows (boot_seq (must env st e) f) b ((st, True, Some e) # ps) Q"
  using follows_seq [OF follows_must [where Q = "\<lambda>_ b'. boot_arrays b' = boot_arrays b"], where qs = ps] by fastforce

lemma follows_then_if:
  "(\<And>b'. boot_arrays b' = boot_arrays b \<Longrightarrow> follows (f ()) b' ps Q) \<Longrightarrow>
   follows (boot_seq (if c then must env st e else give ()) f) b ((if c then [(st, True, Some e)] else []) @ ps) Q"
  by (cases c) (simp_all add: follows_then, simp add: boot_seq_def give_def)

text \<open>A plan may depend on what happens while it is followed.\<close>

lemma follows_then_ex:
  assumes "\<And>b'. boot_arrays b' = boot_arrays b \<Longrightarrow> \<exists>x. follows (f ()) b' (ps x) Q"
  shows "\<exists>x. follows (boot_seq (must env st e) f) b ((st, True, Some e) # ps x) Q"
proof -
  define b' where "b' = b\<lparr>boot_world := snd (perform env st (boot_world b)),
    boot_steps := boot_steps b @ [(st, fst (perform env st (boot_world b)))]\<rparr>"
  obtain x where x: "follows (f ()) b' (ps x) Q"
    using assms [of b'] by (auto simp: b'_def)
  have "follows (boot_seq (must env st e) f) b ((st, True, Some e) # ps x) Q"
  proof (cases "fst (perform env st (boot_world b))")
    case True
    then have "follows (must env st e) b [(st, True, Some e)] (\<lambda>_ b''. b'' = b')"
      by (simp add: follows_def must_def boot_seq_def try_step_def give_def b'_def split_beta)
    from follows_seq [OF this, of f "ps x" Q] x show ?thesis by simp
  next
    case False
    then have "fails_at ((st, True, Some e) # ps x) 0 e [(st, False)]" by (simp add: fails_at_def)
    with False show ?thesis
      by (auto simp: follows_def must_def boot_seq_def try_step_def stop_def split_beta)
  qed
  then show ?thesis ..
qed

lemma follows_reading:
  "follows (f (elements (boot_arrays b) s)) b ps Q \<Longrightarrow> follows (boot_seq (read_slice s) f) b ps Q"
  by (simp add: follows_def boot_seq_def read_slice_def)

lemma follows_appending:
  "follows (f (fst (append_slice (env_grow env) s x (boot_arrays b))))
     (b\<lparr>boot_arrays := snd (append_slice (env_grow env) s x (boot_arrays b))\<rparr>) ps Q \<Longrightarrow>
   follows (boot_seq (append_opt env s x) f) b ps Q"
  by (simp add: follows_def boot_seq_def append_opt_def split_beta)

lemma boot_seq_assoc: "boot_seq (boot_seq m f) g = boot_seq m (\<lambda>x. boot_seq (f x) g)"
  by (auto simp: fun_eq_iff boot_seq_def split: prod.splits sum.splits)

lemma boot_seq_give: "boot_seq (give x) f = f x"
  by (simp add: fun_eq_iff boot_seq_def give_def)

lemma follows_try:
  assumes "\<And>b' ok. boot_arrays b' = boot_arrays b \<Longrightarrow> follows (f ok) b' (ps ok) (Q ok)"
  shows "\<exists>ok. follows (boot_seq (try_step env st) f) b ((st, ok, None) # ps ok) (Q ok)"
proof (cases "perform env st (boot_world b)")
  case (Pair ok w)
  have first: "follows (try_step env st) b [(st, ok, None)] (\<lambda>x b'. x = ok \<and> boot_arrays b' = boot_arrays b)"
    using Pair by (simp add: follows_def try_step_def)
  have "follows (boot_seq (try_step env st) f) b ([(st, ok, None)] @ ps ok) (Q ok)"
    by (rule follows_seq [OF first]) (use assms in blast)
  then show ?thesis by auto
qed

text \<open>The options of the servers, declaratively.\<close>

definition webhook_cert :: "Flags \<Rightarrow> string \<times> string" where
  "webhook_cert f = (Join (webhookCertPath f) (webhookCertName f), Join (webhookCertPath f) (webhookCertKey f))"

definition metrics_cert :: "Flags \<Rightarrow> string \<times> string" where
  "metrics_cert f = (Join (metricsCertPath f) (metricsCertName f), Join (metricsCertPath f) (metricsCertKey f))"

definition base_tls :: "Flags \<Rightarrow> TLSOpt option list" where
  "base_tls f = (if enableHTTP2 f then [] else [Some DisableHTTP2])"

definition metrics_tls :: "Flags \<Rightarrow> TLSOpt option list" where
  "metrics_tls f = base_tls f @
     (if metricsCertPath f \<noteq> [] then [Some (UseCertificate (fst (metrics_cert f)) (snd (metrics_cert f)))] else [])"

text \<open>The two appends write the same cell if the first one left room for it.\<close>

definition shared_cell :: "(nat \<Rightarrow> nat) \<Rightarrow> Flags \<Rightarrow> bool" where
  "shared_cell grow f \<longleftrightarrow> \<not> enableHTTP2 f \<and> 1 < grow 1 \<and> metricsCertPath f \<noteq> []"

definition webhook_tls :: "(nat \<Rightarrow> nat) \<Rightarrow> Flags \<Rightarrow> TLSOpt option list" where
  "webhook_tls grow f = base_tls f @
     (if webhookCertPath f \<noteq> [] then
        let c = (if shared_cell grow f then metrics_cert f else webhook_cert f) in
        [Some (UseCertificate (fst c) (snd c))]
      else [])"

definition cert_plan :: "Flags \<Rightarrow> plan" where
  "cert_plan f =
     (if webhookCertPath f \<noteq> [] then [(NewCertWatcher (fst (webhook_cert f)) (snd (webhook_cert f)), True, Some (Status 1))] else []) @
     (if metricsCertPath f \<noteq> [] then [(NewCertWatcher (fst (metrics_cert f)) (snd (metrics_cert f)), True, Some (Status 1))] else [])"

definition manager_plan :: "(nat \<Rightarrow> nat) \<Rightarrow> bool \<Rightarrow> Flags \<Rightarrow> plan" where
  "manager_plan grow monitoring f =
     (GetConfig, True, Some (Status 1)) #
     (NewManager (manager_options f (webhook_tls grow f) (metrics_tls f)), True, Some (Status 1)) #
     (NewClientset, True, Some Crashed) #
     (SetupReconciler (SetupWithManager monitoring), True, Some (Status 1)) #
     (if metricsCertPath f \<noteq> [] then [(AddCertWatcher (fst (metrics_cert f)) (snd (metrics_cert f)), True, Some (Status 1))] else []) @
     (if webhookCertPath f \<noteq> [] then [(AddCertWatcher (fst (webhook_cert f)) (snd (webhook_cert f)), True, Some (Status 1))] else []) @
     (AddHealthzCheck ''healthz'', True, Some (Status 1)) #
     (AddReadyzCheck ''readyz'', True, Some (Status 1)) #
     [(StartManager, True, Some (Status 1))]"

definition startup_plan :: "(nat \<Rightarrow> nat) \<Rightarrow> bool \<Rightarrow> Flags \<Rightarrow> plan" where
  "startup_plan grow monitoring f =
     [(AddToScheme ''client-go'', True, Some Crashed), (AddToScheme ''pathfinder'', True, Some Crashed),
      (AddToScheme ''monitoring'', monitoring, None)] @ cert_plan f @ manager_plan grow monitoring f"

definition first_arrays :: arrays where
  "first_arrays = \<lparr>array_cells = (\<lambda>_ _. None), next_array = 1\<rparr>"

lemma follows_run_manager:
  assumes "elements (boot_arrays b) s1 = webhook_tls grow f" "elements (boot_arrays b) s2 = metrics_tls f"
  shows "follows (run_manager env monitoring f (s1, s2)) b (manager_plan grow monitoring f) (\<lambda>_ _. True)"
  unfolding run_manager_def manager_plan_def fst_conv snd_conv assms(1,2) [symmetric]
  unfolding metrics_cert_def webhook_cert_def fst_conv snd_conv
  by (rule follows_then, (rule follows_reading)+, simp only:)
    (intro follows_then follows_then_if follows_must TrueI)

lemma follows_servers:
  assumes "boot_arrays b = first_arrays"
  shows "follows (servers env f) b (cert_plan f) (\<lambda>(s1, s2) b'.
    elements (boot_arrays b') s1 = webhook_tls (env_grow env) f \<and> elements (boot_arrays b') s2 = metrics_tls f)"
  using assms unfolding servers_def cert_plan_def Let_def
  by (cases "enableHTTP2 f"; cases "webhookCertPath f = []"; cases "metricsCertPath f = []";
      simp add: boot_seq_assoc boot_seq_give webhook_cert_def metrics_cert_def)
    (intro follows_appending follows_then follows_give;
      simp add: append_slice_def first_arrays_def nil_slice_def elements_def webhook_tls_def metrics_tls_def
        base_tls_def webhook_cert_def metrics_cert_def shared_cell_def Let_def)+

lemma follows_main:
  assumes "parse_flags (env_flags env) args default_flags = Parsed f rest" and "boot_arrays b = first_arrays"
  shows "\<exists>monitoring. follows (main env args) b (startup_plan (env_grow env) monitoring f) (\<lambda>_ _. True)"
proof -
  have body: "follows (boot_seq (servers env f) (run_manager env monitoring f)) b'
      (cert_plan f @ manager_plan (env_grow env) monitoring f) (\<lambda>_ _. True)"
    if "boot_arrays b' = first_arrays" for b' monitoring
    by (rule follows_seq [OF follows_servers [OF that]]) (auto intro: follows_run_manager)
  have tried: "\<exists>monitoring. follows (boot_seq (try_step env (AddToScheme ''monitoring''))
      (\<lambda>monitoring. boot_seq (servers env f) (run_manager env monitoring f))) b'
      ((AddToScheme ''monitoring'', monitoring, None) # cert_plan f @ manager_plan (env_grow env) monitoring f)
      (\<lambda>_ _. True)" if "boot_arrays b' = first_arrays" for b'
    by (rule follows_try) (use that body in simp)
  define m where "m = boot_seq (must env (AddToScheme ''pathfinder'') Crashed) (\<lambda>_.
    boot_seq (try_step env (AddToScheme ''monitoring''))
      (\<lambda>monitoring. boot_seq (servers env f) (run_manager env monitoring f)))"
  have main: "main env args = boot_seq (must env (AddToScheme ''client-go'') Crashed) (\<lambda>_. m)"
    using assms(1) by (simp add: main_def init_def boot_seq_assoc m_def)
  have "\<exists>monitoring. follows m b' ((AddToScheme ''pathfinder'', True, Some Crashed) #
      (AddToScheme ''monitoring'', monitoring, None) # cert_plan f @ manager_plan (env_grow env) monitoring f)
      (\<lambda>_ _. True)" if "boot_arrays b' = first_arrays" for b'
    unfolding m_def by (rule follows_then_ex) (use tried that in simp)
  then have "\<exists>monitoring. follows (boot_seq (must env (AddToScheme ''client-go'') Crashed) (\<lambda>_. m)) b
      ((AddToScheme ''client-go'', True, Some Crashed) # (AddToScheme ''pathfinder'', True, Some Crashed) #
      (AddToScheme ''monitoring'', monitoring, None) # cert_plan f @ manager_plan (env_grow env) monitoring f)
      (\<lambda>_ _. True)"
    by (intro follows_then_ex) (use assms(2) in simp)
  then show ?thesis by (simp add: main startup_plan_def)
qed

lemma start_program_follows:
  assumes "parse_flags (env_flags env) args default_flags = Parsed f rest"
    and "start_program env args w = (e, l)"
  shows "\<exists>monitoring. e = Returned \<and> l = log_of (startup_plan (env_grow env) monitoring f) \<or>
    (\<exists>i. fails_at (startup_plan (env_grow env) monitoring f) i e l)"
proof -
  let ?b = "\<lparr>boot_world = w, boot_steps = [], boot_arrays = first_arrays\<rparr>"
  obtain monitoring where "follows (main env args) ?b (startup_plan (env_grow env) monitoring f) (\<lambda>_ _. True)"
    using follows_main [OF assms(1), of ?b] by auto
  with assms(2) show ?thesis
    by (intro exI [of _ monitoring])
      (auto simp: follows_def start_program_def first_arrays_def split: prod.splits sum.splits)
qed

lemma start_program_manager:
  assumes "parse_flags (env_flags env) args default_flags = Parsed f rest"
    and "start_program env args w = (e, l)" and "(NewManager opts, ok) \<in> set l"
  shows "opts = manager_options f (webhook_tls (env_grow env) f) (metrics_tls f)"
proof -
  obtain monitoring where "NewManager opts \<in> fst ` set (startup_plan (env_grow env) monitoring f)"
    using start_program_follows [OF assms(1,2)] assms(3)
    by (force simp: log_of_def fails_at_def dest: in_set_takeD)
  then show ?thesis
    by (auto simp: startup_plan_def cert_plan_def manager_plan_def split: if_splits)
qed

section \<open>Properties\<close>

text \<open>C15. The program performs the steps of its plan in order and ends at the first one that fails,
  with the exit that belongs to it; only the registration of the monitoring types may fail
  without consequence, and decides whether PodMonitors are watched. It returns from \<open>main\<close>
  only if the manager was started, last of all, and stopped without an error.\<close>

theorem startup_follows_plan:
  assumes "parse_flags (env_flags env) args default_flags = Parsed f rest"
  shows "\<exists>monitoring. let ps = startup_plan (env_grow env) monitoring f;
      (e, l) = start_program env args w in
    e = Returned \<and> l = map (\<lambda>(st, ok, _). (st, ok)) ps \<or>
    (\<exists>i < length ps. snd (snd (ps ! i)) = Some e \<and>
       l = map (\<lambda>(st, ok, _). (st, ok)) (take i ps) @ [(fst (ps ! i), False)])"
proof (cases "start_program env args w")
  case (Pair e l)
  from start_program_follows [OF assms Pair] obtain monitoring where
    "e = Returned \<and> l = log_of (startup_plan (env_grow env) monitoring f) \<or>
      (\<exists>i. fails_at (startup_plan (env_grow env) monitoring f) i e l)" by blast
  then show ?thesis
    unfolding Pair Let_def fails_at_def log_of_def by (intro exI [of _ monitoring]) auto
qed

text \<open>C16. Whatever happens during the start-up, a manager that is created has these servers: HTTP/2
  is switched off on both unless the flag allows it, the metrics server presents its own
  certificate and protects its requests whenever it serves securely, and the webhook server
  presents its own certificate, too, as long as the array of the shared options has no room for a second
  one; if it had, the certificate of the metrics server would take its place.\<close>

theorem manager_servers:
  assumes "parse_flags (env_flags env) args default_flags = Parsed f rest"
    and "start_program env args w = (e, l)" and "(NewManager opts, ok) \<in> set l"
  shows "(\<not> enableHTTP2 f \<longrightarrow>
      NextProtos (fold apply_tls (map the (WebhookTLSOpts opts)) c) = [''http/1.1''] \<and>
      NextProtos (fold apply_tls (map the (MetricsTLSOpts (Metrics opts))) c) = [''http/1.1'']) \<and>
    FilterProvider (Metrics opts) = SecureServing (Metrics opts) \<and>
    (metricsCertPath f \<noteq> [] \<longrightarrow>
      GetCertificate (fold apply_tls (map the (MetricsTLSOpts (Metrics opts))) c) =
        Some (Join (metricsCertPath f) (metricsCertName f), Join (metricsCertPath f) (metricsCertKey f))) \<and>
    (webhookCertPath f \<noteq> [] \<longrightarrow>
      GetCertificate (fold apply_tls (map the (WebhookTLSOpts opts)) c) =
        (if 1 < env_grow env 1 \<and> \<not> enableHTTP2 f \<and> metricsCertPath f \<noteq> []
         then Some (Join (metricsCertPath f) (metricsCertName f), Join (metricsCertPath f) (metricsCertKey f))
         else Some (Join (webhookCertPath f) (webhookCertName f), Join (webhookCertPath f) (webhookCertKey f))))"
  unfolding start_program_manager [OF assms]
  by (cases "enableHTTP2 f")
    (simp_all add: manager_options_def webhook_tls_def metrics_tls_def base_tls_def metrics_cert_def
      webhook_cert_def shared_cell_def Let_def)

section \<open>Witnesses\<close>

text \<open>Everything succeeds; the libraries declare no flags, and arrays have no room to spare.\<close>

definition easy_env :: "unit startup_env" where
  "easy_env = \<lparr>perform = (\<lambda>_ w. (True, w)),
     env_flags = \<lparr>lib_is_bool = (\<lambda>_. None), lib_accepts = (\<lambda>_ _. False)\<rparr>, env_grow = (\<lambda>n. n)\<rparr>"

lemma easy_must [simp]:
  "must easy_env st x b = (Inr (), b\<lparr>boot_steps := boot_steps b @ [(st, True)]\<rparr>)"
  "try_step easy_env st b = (Inr True, b\<lparr>boot_steps := boot_steps b @ [(st, True)]\<rparr>)"
  by (simp_all add: must_def try_step_def boot_seq_def give_def easy_env_def)

lemma easy_run:
  assumes "parse_flags (env_flags easy_env) args default_flags = Parsed f rest"
  shows "\<exists>l opts. start_program easy_env args w = (Returned, l) \<and> (NewManager opts, True) \<in> set l"
proof -
  have "\<exists>b'. main easy_env args b = (Inr (), b') \<and>
    (\<exists>opts. (NewManager opts, True) \<in> set (boot_steps b'))" for b
    using assms
    by (simp add: main_def init_def servers_def run_manager_def boot_seq_def append_opt_def read_slice_def
      give_def Let_def split_beta) blast
  then show ?thesis unfolding start_program_def by (metis (mono_tags, lifting) old.prod.case old.sum.simps(6))
qed

theorem startup_follows_plan_witness:
  "\<exists>monitoring l. start_program easy_env [] () = (Returned, l) \<and>
     l = map (\<lambda>(st, ok, _). (st, ok)) (startup_plan (\<lambda>n. n) monitoring default_flags) \<and> last l = (StartManager, True)"
proof -
  have parse: "parse_flags (env_flags easy_env) [] default_flags = Parsed default_flags []" by simp
  obtain l where run: "start_program easy_env [] () = (Returned, l)"
    using easy_run [OF parse] by blast
  have grow: "env_grow easy_env = (\<lambda>n. n)" by (simp add: easy_env_def)
  have never: "snd (snd (ps ! i)) \<noteq> Some Returned" if "ps = startup_plan g m f" "i < length ps" for ps g m f i
  proof -
    have "ps ! i \<in> set ps" using that(2) by simp
    then show ?thesis
      by (auto simp: that(1) startup_plan_def cert_plan_def manager_plan_def split: if_splits)
  qed
  obtain monitoring where "l = map (\<lambda>(st, ok, _). (st, ok)) (startup_plan (\<lambda>n. n) monitoring default_flags)"
    using startup_follows_plan [OF parse, of "()"] never unfolding run grow Let_def by fastforce
  moreover from this have "last l = (StartManager, True)"
    by (simp add: startup_plan_def cert_plan_def manager_plan_def default_flags_def)
  ultimately show ?thesis using run by blast
qed

theorem manager_servers_witness:
  "\<exists>opts e l. start_program easy_env [''--webhook-cert-path=/w/'', ''--metrics-cert-path=m''] () = (e, l) \<and>
     (NewManager opts, True) \<in> set l \<and>
     GetCertificate (fold apply_tls (map the (WebhookTLSOpts opts)) \<lparr>NextProtos = [], GetCertificate = None\<rparr>) =
       Some (''/w/tls.crt'', ''/w/tls.key'')"
proof -
  let ?args = "[''--webhook-cert-path=/w/'', ''--metrics-cert-path=m'']"
  let ?f = "default_flags\<lparr>webhookCertPath := ''/w/'', metricsCertPath := ''m''\<rparr>"
  have parse: "parse_flags (env_flags easy_env) ?args default_flags = Parsed ?f []"
    by (simp add: parse_one_def split_flag_def set_one_def set_flag_def is_bool_flag_def flag_table_def
        default_flags_def)
  obtain l opts where run: "start_program easy_env ?args () = (Returned, l)" and opts: "(NewManager opts, True) \<in> set l"
    using easy_run [OF parse] by blast
  have "Join ''/w/'' ''tls.crt'' = ''/w/tls.crt''" "Join ''/w/'' ''tls.key'' = ''/w/tls.key''"
    by (simp_all add: Join_def Clean_def)
  with manager_servers [OF parse run opts, of "\<lparr>NextProtos = [], GetCertificate = None\<rparr>"] run opts
  show ?thesis by (auto simp: default_flags_def easy_env_def)
qed

end
