(* ===== verification/Deep_Copy.thy ===== *)
theory Deep_Copy
  imports Rpc_Types
begin

text \<open>
  api/v1alpha1/zz_generated.deepcopy.go: the deep copies of the resource types, which the
  client's cache and the scheme rely on. Here pointers matter, so the types of the resource
  appear a second time as Go lays them out in memory: a pointer, a map or a slice is the
  address of a cell of the store, or nil. A struct of another package (metadata, quantities,
  resources, tolerations, secrets, conditions) is a value of the type \<open>go_value\<close>, which
  may hold addresses at any depth; what it means, and its own \<open>DeepCopy\<close> or
  \<open>DeepCopyInto\<close>, are parameters, the record \<open>library\<close>.

  The contract of a deep copy is the locale \<open>deep_copy\<close>: the copy reads as the original,
  lies in cells that were not in use before, and leaves the cells in use as they were. It is
  what is assumed of the other packages and what is proved of the generated code.
\<close>

section \<open>The types in memory\<close>

type_synonym addr = nat

text \<open>A struct of another package: scalars, pointers (also maps and slices), nested structs.\<close>

datatype go_value = Scalar string | Ref "addr option" | Fields "go_value list"

record StorageTemplate_mem =
  hp_size :: go_value
  hp_class :: string

record ArchiveSnapshot_mem =
  ha_enable :: "addr option"
  ha_file_name :: string
  ha_checksum :: string
  ha_rsync_config :: "addr option"
  ha_restore_image :: "addr option"
  ha_storage :: StorageTemplate_mem

record PodMonitor_mem =
  hm_enabled :: bool
  hm_labels :: "addr option"

record StarknetRPCSpec_mem =
  hs_network :: string
  hs_restore_archive :: ArchiveSnapshot_mem
  hs_resources :: go_value
  hs_image :: "addr option"
  hs_storage :: StorageTemplate_mem
  hs_tolerations :: "addr option"
  hs_layer1_rpc_secret :: go_value
  hs_pod_monitor :: "addr option"

record StarknetRPCStatus_mem =
  hst_conditions :: "addr option"

record StarknetRPC_mem =
  hr_type :: TypeMeta
  hr_meta :: go_value
  hr_spec :: StarknetRPCSpec_mem
  hr_status :: StarknetRPCStatus_mem

record StarknetRPCList_mem =
  hl_type :: TypeMeta
  hl_meta :: go_value
  hl_items :: "addr option"

datatype cell = Zeroed
  | CBool bool | CString string | CMap entries
  | CTolerations "go_value list" | CConditions "go_value list" | CItems "StarknetRPC_mem list"
  | CStorage StorageTemplate_mem | CArchive ArchiveSnapshot_mem | CPodMonitor PodMonitor_mem
  | CSpec StarknetRPCSpec_mem | CStatus StarknetRPCStatus_mem
  | CRpc StarknetRPC_mem | CList StarknetRPCList_mem
  | CLib go_value \<comment> \<open>what the structs of other packages point to\<close>

text \<open>The cells below \<open>next_cell\<close> are in use.\<close>

record store =
  cells :: "addr \<Rightarrow> cell"
  next_cell :: addr

definition alloc :: "cell \<Rightarrow> store \<Rightarrow> addr \<times> store" where
  "alloc c s = (next_cell s, s\<lparr>cells := (cells s)(next_cell s := c), next_cell := Suc (next_cell s)\<rparr>)"

definition put :: "addr \<Rightarrow> cell \<Rightarrow> store \<Rightarrow> store" where
  "put a c s = s\<lparr>cells := (cells s)(a := c)\<rparr>"

text \<open>What a typed pointer reads; the other cases do not arise in a typed store.\<close>

fun cell_bool :: "cell \<Rightarrow> bool" where "cell_bool (CBool b) = b" | "cell_bool _ = False"
fun cell_string :: "cell \<Rightarrow> string" where "cell_string (CString v) = v" | "cell_string _ = ''''"
fun cell_map :: "cell \<Rightarrow> entries" where "cell_map (CMap m) = m" | "cell_map _ = []"
fun cell_tolerations :: "cell \<Rightarrow> go_value list" where
  "cell_tolerations (CTolerations l) = l" | "cell_tolerations _ = []"
fun cell_conditions :: "cell \<Rightarrow> go_value list" where
  "cell_conditions (CConditions l) = l" | "cell_conditions _ = []"
fun cell_lib :: "cell \<Rightarrow> go_value" where "cell_lib (CLib v) = v" | "cell_lib _ = Scalar ''''"
fun cell_items :: "cell \<Rightarrow> StarknetRPC_mem list" where
  "cell_items (CItems l) = l" | "cell_items _ = []"

definition zero_monitor :: PodMonitor_mem where
  "zero_monitor = \<lparr>hm_enabled = False, hm_labels = None\<rparr>"

fun cell_monitor :: "cell \<Rightarrow> PodMonitor_mem" where
  "cell_monitor (CPodMonitor p) = p" | "cell_monitor _ = zero_monitor"

section \<open>The contract of a deep copy\<close>

definition extends :: "store \<Rightarrow> store \<Rightarrow> bool" where
  "extends s s' \<longleftrightarrow> next_cell s \<le> next_cell s' \<and> (\<forall>a < next_cell s. cells s' a = cells s a)"

lemma extends_refl [simp]: "extends s s"
  by (simp add: extends_def)

lemma extends_trans: "extends s s' \<Longrightarrow> extends s' s'' \<Longrightarrow> extends s s''"
  by (simp add: extends_def)

text \<open>
  \<open>locs\<close> are the cells a value reaches, \<open>ok\<close> says that it is well formed, \<open>abs\<close> reads it.
\<close>

locale deep_copy =
  fixes locs :: "store \<Rightarrow> 'a \<Rightarrow> addr set" and ok :: "store \<Rightarrow> 'a \<Rightarrow> bool"
    and abs :: "store \<Rightarrow> 'a \<Rightarrow> 'b" and copy :: "'a \<Rightarrow> store \<Rightarrow> 'a \<times> store"
  assumes local: "(\<And>a. a \<in> locs s x \<Longrightarrow> cells s' a = cells s a) \<Longrightarrow>
      locs s' x = locs s x \<and> ok s' x = ok s x \<and> abs s' x = abs s x"
    and copies: "copy x s = (y, s') \<Longrightarrow> locs s x \<subseteq> {..<next_cell s} \<Longrightarrow> ok s x \<Longrightarrow>
      extends s s' \<and> locs s' y \<subseteq> {next_cell s..<next_cell s'} \<and> ok s' y \<and> abs s' y = abs s x"
begin

lemma kept:
  assumes "extends s s'" "locs s x \<subseteq> {..<next_cell s}"
  shows "locs s' x = locs s x" "ok s' x = ok s x" "abs s' x = abs s x"
  using local [of s x s'] assms by (auto simp: extends_def)

text \<open>A copy that is made later, when other cells have come into use.\<close>

lemma copies_later:
  assumes "copy x s = (y, s')" "extends s0 s" "locs s0 x \<subseteq> {..<next_cell s0}" "ok s0 x"
  shows "extends s s'" "locs s' y \<subseteq> {next_cell s..<next_cell s'}" "ok s' y" "abs s' y = abs s0 x"
proof -
  have "locs s x \<subseteq> {..<next_cell s}" using assms(2,3) kept(1) [OF assms(2,3)] by (auto simp: extends_def)
  with copies [OF assms(1)] kept [OF assms(2,3)] assms(4)
  show "extends s s'" "locs s' y \<subseteq> {next_cell s..<next_cell s'}" "ok s' y" "abs s' y = abs s0 x"
    by auto
qed

text \<open>Whatever is written through the copy, the original reads as before, and conversely.\<close>

lemma independent:
  assumes "copy x s = (y, s')" "locs s x \<subseteq> {..<next_cell s}" "ok s x"
  shows "a \<in> locs s' y \<Longrightarrow> abs (put a c s') x = abs s x"
    and "a \<in> locs s x \<Longrightarrow> abs (put a c s') y = abs s x"
proof -
  note c = copies [OF assms]
  note x' = kept [OF conjunct1 [OF c] assms(2)]
  show "abs (put a c s') x = abs s x" if "a \<in> locs s' y"
    using local [of s' x "put a c s'"] that c x' assms(2) by (force simp: put_def)
  show "abs (put a c s') y = abs s x" if "a \<in> locs s x"
    using local [of s' y "put a c s'"] that c assms(2) by (force simp: put_def)
qed

end

section \<open>The code of other packages\<close>

text \<open>The cells that a struct of another package reaches.\<close>

fun refs :: "go_value \<Rightarrow> addr set" where
  "refs (Scalar v) = {}"
| "refs (Ref p) = set_option p"
| "refs (Fields vs) = \<Union> (refs ` set vs)"

inductive_set reach :: "store \<Rightarrow> go_value \<Rightarrow> addr set" for s v where
  reach_here: "a \<in> refs v \<Longrightarrow> a \<in> reach s v"
| reach_next: "a \<in> reach s v \<Longrightarrow> b \<in> refs (cell_lib (cells s a)) \<Longrightarrow> b \<in> reach s v"

text \<open>
  A type of another package: which values are well formed, what a value means in the types of
  the model, and its deep copy.
\<close>

record 'a library_type =
  lt_ok :: "store \<Rightarrow> go_value \<Rightarrow> bool"
  lt_read :: "store \<Rightarrow> go_value \<Rightarrow> 'a"
  lt_copy :: "go_value \<Rightarrow> store \<Rightarrow> go_value \<times> store"

record library =
  lib_quantity :: "string library_type"
  lib_resources :: "ResourceRequirements library_type"
  lib_toleration :: "Toleration library_type"
  lib_secret :: "SecretKeySelector library_type"
  lib_meta :: "ObjectMeta library_type"
  lib_condition :: "Condition library_type"
  lib_list_meta :: "string library_type"

text \<open>Documented: each of them makes a deep copy of its receiver.\<close>

definition lawful_type :: "'a library_type \<Rightarrow> bool" where
  "lawful_type t = deep_copy reach (lt_ok t) (lt_read t) (lt_copy t)"

definition lawful_library :: "library \<Rightarrow> bool" where
  "lawful_library d \<longleftrightarrow> lawful_type (lib_quantity d) \<and> lawful_type (lib_resources d) \<and>
     lawful_type (lib_toleration d) \<and> lawful_type (lib_secret d) \<and> lawful_type (lib_meta d) \<and>
     lawful_type (lib_condition d) \<and> lawful_type (lib_list_meta d)"

lemma library_copies:
  assumes "lawful_library d"
  shows "deep_copy reach (lt_ok (lib_quantity d)) (lt_read (lib_quantity d)) (lt_copy (lib_quantity d))"
    "deep_copy reach (lt_ok (lib_resources d)) (lt_read (lib_resources d)) (lt_copy (lib_resources d))"
    "deep_copy reach (lt_ok (lib_toleration d)) (lt_read (lib_toleration d)) (lt_copy (lib_toleration d))"
    "deep_copy reach (lt_ok (lib_secret d)) (lt_read (lib_secret d)) (lt_copy (lib_secret d))"
    "deep_copy reach (lt_ok (lib_meta d)) (lt_read (lib_meta d)) (lt_copy (lib_meta d))"
    "deep_copy reach (lt_ok (lib_condition d)) (lt_read (lib_condition d)) (lt_copy (lib_condition d))"
    "deep_copy reach (lt_ok (lib_list_meta d)) (lt_read (lib_list_meta d)) (lt_copy (lib_list_meta d))"
  using assms unfolding lawful_library_def lawful_type_def by blast+

section \<open>The copies\<close>

text \<open>\<open>*out = new(T); **out = **in\<close> for a field that points to a bool or a string.\<close>

definition copy_bool :: "addr option \<Rightarrow> store \<Rightarrow> addr option \<times> store" where
  "copy_bool p s = (case p of None \<Rightarrow> (None, s)
     | Some a \<Rightarrow> case alloc (CBool False) s of (b, s1) \<Rightarrow>
         (Some b, put b (CBool (cell_bool (cells s1 a))) s1))"

definition copy_string :: "addr option \<Rightarrow> store \<Rightarrow> addr option \<times> store" where
  "copy_string p s = (case p of None \<Rightarrow> (None, s)
     | Some a \<Rightarrow> case alloc (CString '''') s of (b, s1) \<Rightarrow>
         (Some b, put b (CString (cell_string (cells s1 a))) s1))"

text \<open>\<open>make\<close> of a map or a slice, then the loop that fills it; the loop over a slice copies
  each element into its place.\<close>

fun copy_each :: "('a \<Rightarrow> store \<Rightarrow> 'a \<times> store) \<Rightarrow> 'a list \<Rightarrow> store \<Rightarrow> 'a list \<times> store" where
  "copy_each f [] s = ([], s)"
| "copy_each f (x # xs) s =
    (case f x s of (y, s1) \<Rightarrow> case copy_each f xs s1 of (ys, s2) \<Rightarrow> (y # ys, s2))"


definition copy_labels :: "addr option \<Rightarrow> store \<Rightarrow> addr option \<times> store" where
  "copy_labels p s = (case p of None \<Rightarrow> (None, s)
     | Some a \<Rightarrow> case alloc (CMap []) s of (b, s1) \<Rightarrow>
         (Some b, put b (CMap (maps_copy [] (Some (cell_map (cells s1 a))))) s1))"

definition copy_tolerations :: "library \<Rightarrow> addr option \<Rightarrow> store \<Rightarrow> addr option \<times> store" where
  "copy_tolerations d p s = (case p of None \<Rightarrow> (None, s)
     | Some a \<Rightarrow> case alloc (CTolerations []) s of (b, s1) \<Rightarrow>
         case copy_each (lt_copy (lib_toleration d)) (cell_tolerations (cells s1 a)) s1 of (ys, s2) \<Rightarrow>
         (Some b, put b (CTolerations ys) s2))"

definition copy_conditions :: "library \<Rightarrow> addr option \<Rightarrow> store \<Rightarrow> addr option \<times> store" where
  "copy_conditions d p s = (case p of None \<Rightarrow> (None, s)
     | Some a \<Rightarrow> case alloc (CConditions []) s of (b, s1) \<Rightarrow>
         case copy_each (lt_copy (lib_condition d)) (cell_conditions (cells s1 a)) s1 of (ys, s2) \<Rightarrow>
         (Some b, put b (CConditions ys) s2))"

definition StorageTemplate_DeepCopyInto ::
  "library \<Rightarrow> StorageTemplate_mem \<Rightarrow> store \<Rightarrow> StorageTemplate_mem \<times> store" where
  "StorageTemplate_DeepCopyInto d x s =
    (case lt_copy (lib_quantity d) (hp_size x) s of (amount, s1) \<Rightarrow> (x\<lparr>hp_size := amount\<rparr>, s1))"

definition ArchiveSnapshot_DeepCopyInto ::
  "library \<Rightarrow> ArchiveSnapshot_mem \<Rightarrow> store \<Rightarrow> ArchiveSnapshot_mem \<times> store" where
  "ArchiveSnapshot_DeepCopyInto d x s =
    (case copy_bool (ha_enable x) s of (enable, s1) \<Rightarrow>
     case copy_string (ha_rsync_config x) s1 of (rsync, s2) \<Rightarrow>
     case copy_string (ha_restore_image x) s2 of (img, s3) \<Rightarrow>
     case StorageTemplate_DeepCopyInto d (ha_storage x) s3 of (storage, s4) \<Rightarrow>
       (x\<lparr>ha_enable := enable, ha_rsync_config := rsync, ha_restore_image := img,
          ha_storage := storage\<rparr>, s4))"

definition PodMonitor_DeepCopyInto :: "PodMonitor_mem \<Rightarrow> store \<Rightarrow> PodMonitor_mem \<times> store" where
  "PodMonitor_DeepCopyInto x s =
    (case copy_labels (hm_labels x) s of (labels, s1) \<Rightarrow> (x\<lparr>hm_labels := labels\<rparr>, s1))"

definition copy_monitor :: "addr option \<Rightarrow> store \<Rightarrow> addr option \<times> store" where
  "copy_monitor p s = (case p of None \<Rightarrow> (None, s)
     | Some a \<Rightarrow> case alloc (CPodMonitor zero_monitor) s of (b, s1) \<Rightarrow>
         case PodMonitor_DeepCopyInto (cell_monitor (cells s1 a)) s1 of (y, s2) \<Rightarrow>
         (Some b, put b (CPodMonitor y) s2))"

definition StarknetRPCSpec_DeepCopyInto ::
  "library \<Rightarrow> StarknetRPCSpec_mem \<Rightarrow> store \<Rightarrow> StarknetRPCSpec_mem \<times> store" where
  "StarknetRPCSpec_DeepCopyInto d x s =
    (case ArchiveSnapshot_DeepCopyInto d (hs_restore_archive x) s of (archive, s1) \<Rightarrow>
     case lt_copy (lib_resources d) (hs_resources x) s1 of (resources, s2) \<Rightarrow>
     case copy_string (hs_image x) s2 of (img, s3) \<Rightarrow>
     case StorageTemplate_DeepCopyInto d (hs_storage x) s3 of (storage, s4) \<Rightarrow>
     case copy_tolerations d (hs_tolerations x) s4 of (tols, s5) \<Rightarrow>
     case lt_copy (lib_secret d) (hs_layer1_rpc_secret x) s5 of (secret, s6) \<Rightarrow>
     case copy_monitor (hs_pod_monitor x) s6 of (monitor, s7) \<Rightarrow>
       (x\<lparr>hs_restore_archive := archive, hs_resources := resources, hs_image := img,
          hs_storage := storage, hs_tolerations := tols, hs_layer1_rpc_secret := secret,
          hs_pod_monitor := monitor\<rparr>, s7))"

definition StarknetRPCStatus_DeepCopyInto ::
  "library \<Rightarrow> StarknetRPCStatus_mem \<Rightarrow> store \<Rightarrow> StarknetRPCStatus_mem \<times> store" where
  "StarknetRPCStatus_DeepCopyInto d x s =
    (case copy_conditions d (hst_conditions x) s of (cs, s1) \<Rightarrow> (x\<lparr>hst_conditions := cs\<rparr>, s1))"

definition StarknetRPC_DeepCopyInto ::
  "library \<Rightarrow> StarknetRPC_mem \<Rightarrow> store \<Rightarrow> StarknetRPC_mem \<times> store" where
  "StarknetRPC_DeepCopyInto d x s =
    (case lt_copy (lib_meta d) (hr_meta x) s of (meta, s1) \<Rightarrow>
     case StarknetRPCSpec_DeepCopyInto d (hr_spec x) s1 of (spec, s2) \<Rightarrow>
     case StarknetRPCStatus_DeepCopyInto d (hr_status x) s2 of (status, s3) \<Rightarrow>
       (x\<lparr>hr_meta := meta, hr_spec := spec, hr_status := status\<rparr>, s3))"

definition copy_items :: "library \<Rightarrow> addr option \<Rightarrow> store \<Rightarrow> addr option \<times> store" where
  "copy_items d p s = (case p of None \<Rightarrow> (None, s)
     | Some a \<Rightarrow> case alloc (CItems []) s of (b, s1) \<Rightarrow>
         case copy_each (StarknetRPC_DeepCopyInto d) (cell_items (cells s1 a)) s1 of (ys, s2) \<Rightarrow>
         (Some b, put b (CItems ys) s2))"

definition StarknetRPCList_DeepCopyInto ::
  "library \<Rightarrow> StarknetRPCList_mem \<Rightarrow> store \<Rightarrow> StarknetRPCList_mem \<times> store" where
  "StarknetRPCList_DeepCopyInto d x s =
    (case lt_copy (lib_list_meta d) (hl_meta x) s of (meta, s1) \<Rightarrow>
     case copy_items d (hl_items x) s1 of (items, s2) \<Rightarrow>
       (x\<lparr>hl_meta := meta, hl_items := items\<rparr>, s2))"

section \<open>Copies of single pointers\<close>

text \<open>A pointer to a value without pointers.\<close>

definition copy_value :: "cell \<Rightarrow> (cell \<Rightarrow> cell) \<Rightarrow> addr option \<Rightarrow> store \<Rightarrow> addr option \<times> store" where
  "copy_value z f p s = (case p of None \<Rightarrow> (None, s)
     | Some a \<Rightarrow> case alloc z s of (b, s1) \<Rightarrow> (Some b, put b (f (cells s1 a)) s1))"

lemma copy_value_contract:
  assumes "\<And>c. good c \<Longrightarrow> rd (f c) = rd c" "\<And>c. good c \<Longrightarrow> good (f c)"
  shows "deep_copy (\<lambda>_. set_option) (\<lambda>s p. \<forall>a \<in> set_option p. good (cells s a))
    (\<lambda>s. map_option (\<lambda>a. rd (cells s a))) (copy_value z f)"
  using assms
  by unfold_locales (auto simp: copy_value_def alloc_def put_def extends_def split: option.splits intro: option.map_cong0)

lemma copy_pointer_eqs:
  "copy_bool = copy_value (CBool False) (\<lambda>c. CBool (cell_bool c))"
  "copy_string = copy_value (CString '''') (\<lambda>c. CString (cell_string c))"
  "copy_labels = copy_value (CMap []) (\<lambda>c. CMap (maps_copy [] (Some (cell_map c))))"
  by (simp_all add: fun_eq_iff copy_bool_def copy_string_def copy_labels_def copy_value_def)

interpretation bool_pointer: deep_copy "\<lambda>_. set_option" "\<lambda>s p. \<forall>a \<in> set_option p. True"
  "\<lambda>s. map_option (\<lambda>a. cell_bool (cells s a))" copy_bool
  unfolding copy_pointer_eqs by (rule copy_value_contract) simp_all

interpretation string_pointer: deep_copy "\<lambda>_. set_option" "\<lambda>s p. \<forall>a \<in> set_option p. True"
  "\<lambda>s. map_option (\<lambda>a. cell_string (cells s a))" copy_string
  unfolding copy_pointer_eqs by (rule copy_value_contract) simp_all


lemma maps_copy_empty:
  assumes "wf_entries es"
  shows "maps_copy [] (Some es) = es"
proof -
  have "fold (\<lambda>(key, v). AList.update key v) es dst = dst @ es"
    if "distinct (map fst es)" "fst ` set dst \<inter> fst ` set es = {}" for dst
    using that
  proof (induction es arbitrary: dst)
    case (Cons e es)
    obtain key v where e: "e = (key, v)" by force
    have "AList.update key v ds = ds @ [(key, v)]" if "key \<notin> fst ` set ds" for ds :: entries
      using that by (induction ds) auto
    with Cons e show ?case by auto
  qed simp
  with assms show ?thesis by (simp add: maps_copy_def wf_entries_def)
qed

interpretation labels_pointer: deep_copy "\<lambda>_. set_option"
  "\<lambda>s p. \<forall>a \<in> set_option p. wf_entries (cell_map (cells s a))"
  "\<lambda>s. map_option (\<lambda>a. cell_map (cells s a))" copy_labels
  unfolding copy_pointer_eqs by (rule copy_value_contract) (simp_all add: maps_copy_empty)

section \<open>Composing copies\<close>

lemma deep_copy_pair:
  assumes "deep_copy l1 o1 a1 c1" and "deep_copy l2 o2 a2 c2"
  shows "deep_copy (\<lambda>s (x, y). l1 s x \<union> l2 s y) (\<lambda>s (x, y). o1 s x \<and> o2 s y) (\<lambda>s (x, y). (a1 s x, a2 s y))
    (\<lambda>(x, y) s. case c1 x s of (x', s1) \<Rightarrow> case c2 y s1 of (y', s2) \<Rightarrow> ((x', y'), s2))"
proof (unfold_locales, goal_cases)
  case (1 s p s')
  then show ?case
    using deep_copy.local [OF assms(1), of s "fst p" s'] deep_copy.local [OF assms(2), of s "snd p" s']
    by (auto split: prod.splits)
next
  case (2 p s q s')
  obtain x y where p: "p = (x, y)" by (cases p)
  obtain x' s1 y' where steps: "c1 x s = (x', s1)" "c2 y s1 = (y', s')" and q: "q = (x', y')"
    using 2(1) by (auto simp: p split: prod.splits)
  have in_use: "l1 s x \<subseteq> {..<next_cell s}" "l2 s y \<subseteq> {..<next_cell s}" "o1 s x" "o2 s y"
    using 2(2,3) by (auto simp: p)
  have first: "extends s s1" "l1 s1 x' \<subseteq> {next_cell s..<next_cell s1}" "o1 s1 x'" "a1 s1 x' = a1 s x"
    using deep_copy.copies [OF assms(1) steps(1) in_use(1,3)] by auto
  note second = deep_copy.copies_later [OF assms(2) steps(2) first(1) in_use(2,4)]
  have "l1 s1 x' \<subseteq> {..<next_cell s1}" using first(2) by auto
  note kept = deep_copy.kept [OF assms(1) second(1) this]
  have "next_cell s \<le> next_cell s1" "next_cell s1 \<le> next_cell s'"
    using first(1) second(1) by (auto simp: extends_def)
  with first second kept extends_trans [OF first(1) second(1)] show ?case
    by (auto simp: p q)
qed

text \<open>A struct whose part \<open>part\<close> is copied while the rest of it is assigned.\<close>

lemma deep_copy_part:
  assumes "deep_copy l good rep copy"
    and "\<And>x v. part (upd x v) = v" and "\<And>x v w. mk (upd x v) w = mk x w"
    and "\<And>s x. l' s x = l s (part x)" "\<And>s x. good' s x \<longleftrightarrow> good s (part x)"
      "\<And>s x. rep' s x = mk x (rep s (part x))"
      "\<And>s x. copy' x s = (case copy (part x) s of (v, s') \<Rightarrow> (upd x v, s'))"
  shows "deep_copy l' good' rep' copy'"
proof (unfold_locales, goal_cases)
  case (1 s x s')
  then show ?case using deep_copy.local [OF assms(1), of s "part x" s'] by (auto simp: assms(4-7))
next
  case (2 x s y s')
  then show ?case using deep_copy.copies [OF assms(1), of "part x" s _ s'] assms(2,3)
    by (auto simp: assms(4-7) split: prod.splits)
qed

text \<open>A pointer to a struct: \<open>new(T)\<close>, copy into it, store it.\<close>

definition copy_struct :: "cell \<Rightarrow> (cell \<Rightarrow> 'a) \<Rightarrow> ('a \<Rightarrow> cell) \<Rightarrow> ('a \<Rightarrow> store \<Rightarrow> 'a \<times> store) \<Rightarrow>
    addr option \<Rightarrow> store \<Rightarrow> addr option \<times> store" where
  "copy_struct z rd mk copy p s = (case p of None \<Rightarrow> (None, s)
     | Some a \<Rightarrow> case alloc z s of (b, s1) \<Rightarrow>
         case copy (rd (cells s1 a)) s1 of (y, s2) \<Rightarrow> (Some b, put b (mk y) s2))"

definition locs_struct :: "(cell \<Rightarrow> 'a) \<Rightarrow> (store \<Rightarrow> 'a \<Rightarrow> addr set) \<Rightarrow> store \<Rightarrow> addr option \<Rightarrow> addr set" where
  "locs_struct rd l s p = (case p of None \<Rightarrow> {} | Some a \<Rightarrow> insert a (l s (rd (cells s a))))"

definition ok_struct :: "(cell \<Rightarrow> 'a) \<Rightarrow> (store \<Rightarrow> 'a \<Rightarrow> bool) \<Rightarrow> store \<Rightarrow> addr option \<Rightarrow> bool" where
  "ok_struct rd good s p = (case p of None \<Rightarrow> True | Some a \<Rightarrow> good s (rd (cells s a)))"

definition abs_struct :: "(cell \<Rightarrow> 'a) \<Rightarrow> (store \<Rightarrow> 'a \<Rightarrow> 'b) \<Rightarrow> store \<Rightarrow> addr option \<Rightarrow> 'b option" where
  "abs_struct rd rep s p = map_option (\<lambda>a. rep s (rd (cells s a))) p"

lemmas struct_defs = copy_struct_def locs_struct_def ok_struct_def abs_struct_def

lemma deep_copy_struct:
  assumes "deep_copy l good rep copy" and "\<And>y. rd (mk y) = y"
  shows "deep_copy (locs_struct rd l) (ok_struct rd good) (abs_struct rd rep) (copy_struct z rd mk copy)"
proof (unfold_locales, goal_cases)
  case (1 s p s')
  show ?case
  proof (cases p)
    case (Some a)
    with 1 have "cells s' a = cells s a" by (simp add: locs_struct_def)
    with Some 1 show ?thesis
      using deep_copy.local [OF assms(1), of s "rd (cells s a)" s'] by (simp add: struct_defs)
  qed (simp add: struct_defs)
next
  case (2 p s q s')
  show ?case
  proof (cases p)
    case None
    with 2 show ?thesis by (simp add: struct_defs)
  next
    case (Some a)
    define s1 where "s1 = snd (alloc z s)"
    obtain y s2 where y: "copy (rd (cells s1 a)) s1 = (y, s2)" by (cases "copy (rd (cells s1 a)) s1")
    have a: "a < next_cell s" and in_use: "l s (rd (cells s a)) \<subseteq> {..<next_cell s}" and good: "good s (rd (cells s a))"
      using 2(2,3) by (simp_all add: Some locs_struct_def ok_struct_def)
    have s1: "extends s s1" "cells s1 a = cells s a" "next_cell s1 = Suc (next_cell s)"
      using a by (simp_all add: s1_def alloc_def extends_def)
    have q: "q = Some (next_cell s)" "s' = put (next_cell s) (mk y) s2"
      using 2(1) y by (simp_all add: copy_struct_def Some s1_def alloc_def)
    note c = deep_copy.copies_later [OF assms(1) y [unfolded s1(2)] s1(1) in_use good]
    have locs: "next_cell s \<notin> l s2 y" using c(2) s1(3) by auto
    have cells_kept: "cells s' a = cells s2 a" if "a \<in> l s2 y" for a
      using that locs by (auto simp: q put_def)
    have same: "l s' y = l s2 y" "good s' y = good s2 y" "rep s' y = rep s2 y"
      using deep_copy.local [OF assms(1) cells_kept] by simp_all
    have "extends s s2" using extends_trans [OF s1(1) c(1)] .
    then have "extends s s'" by (auto simp: q put_def extends_def)
    moreover have "next_cell s' = next_cell s2" "cells s' (next_cell s) = mk y" "Suc (next_cell s) \<le> next_cell s2"
      using c(1) s1(3) by (simp_all add: q put_def extends_def)
    ultimately show ?thesis
      using c same s1(3) by (auto simp: q(1) Some locs_struct_def ok_struct_def abs_struct_def assms(2))
  qed
qed

definition locs_each :: "(store \<Rightarrow> 'a \<Rightarrow> addr set) \<Rightarrow> store \<Rightarrow> 'a list \<Rightarrow> addr set" where
  "locs_each l s xs = \<Union> (l s ` set xs)"

definition ok_each :: "(store \<Rightarrow> 'a \<Rightarrow> bool) \<Rightarrow> store \<Rightarrow> 'a list \<Rightarrow> bool" where
  "ok_each good s xs = (\<forall>x \<in> set xs. good s x)"

lemma deep_copy_each:
  assumes "deep_copy l good rep copy"
  shows "deep_copy (locs_each l) (ok_each good) (\<lambda>s. map (rep s)) (copy_each copy)"
  unfolding locs_each_def [abs_def] ok_each_def [abs_def]
proof (unfold_locales, goal_cases)
  case (1 s xs s')
  then have "l s' x = l s x \<and> good s' x = good s x \<and> rep s' x = rep s x" if "x \<in> set xs" for x
    using deep_copy.local [OF assms, of s x s'] that by blast
  then show ?case by auto
next
  case (2 xs s ys s')
  then show ?case
  proof (induction xs arbitrary: s ys)
    case Nil
    then show ?case by simp
  next
    case (Cons x xs)
    obtain y s1 zs where steps: "copy x s = (y, s1)" "copy_each copy xs s1 = (zs, s')" and ys: "ys = y # zs"
      using Cons.prems(1) by (auto split: prod.splits)
    have first: "extends s s1" "l s1 y \<subseteq> {next_cell s..<next_cell s1}" "good s1 y" "rep s1 y = rep s x"
      using deep_copy.copies [OF assms steps(1)] Cons.prems(2,3) by auto
    have same: "l s1 z = l s z \<and> good s1 z = good s z \<and> rep s1 z = rep s z" if "z \<in> set xs" for z
      using deep_copy.kept [OF assms first(1), of z] Cons.prems(2) that by auto
    have le: "next_cell s \<le> next_cell s1" using first(1) by (simp add: extends_def)
    have "\<Union> (l s1 ` set xs) \<subseteq> {..<next_cell s1}" "\<forall>z \<in> set xs. good s1 z"
      using same Cons.prems(2,3) le by (fastforce dest: order_less_le_trans)+
    note rest = Cons.IH [OF steps(2) this]
    have "l s1 y \<subseteq> {..<next_cell s1}" using first(2) by auto
    note kept = deep_copy.kept [OF assms conjunct1 [OF rest] this]
    have "next_cell s1 \<le> next_cell s'" using rest by (simp add: extends_def)
    with first rest kept le same extends_trans [OF first(1) conjunct1 [OF rest]] show ?case
      by (auto simp: ys)
  qed
qed

section \<open>The copies of the resource types\<close>

text \<open>What the types in memory reach, when they are well formed, and the resource they represent.\<close>

definition locs_storage :: "store \<Rightarrow> StorageTemplate_mem \<Rightarrow> addr set" where
  "locs_storage s x = reach s (hp_size x)"

definition ok_storage :: "library \<Rightarrow> store \<Rightarrow> StorageTemplate_mem \<Rightarrow> bool" where
  "ok_storage d s x = lt_ok (lib_quantity d) s (hp_size x)"

definition abs_storage :: "library \<Rightarrow> store \<Rightarrow> StorageTemplate_mem \<Rightarrow> StorageTemplate" where
  "abs_storage d s x = \<lparr>st_size = lt_read (lib_quantity d) s (hp_size x), st_class = hp_class x\<rparr>"

lemma storage_copies:
  assumes "lawful_library d"
  shows "deep_copy locs_storage (ok_storage d) (abs_storage d) (StorageTemplate_DeepCopyInto d)"
  by (rule deep_copy_part [OF library_copies(1) [OF assms], where part = hp_size
        and upd = "\<lambda>x v. x\<lparr>hp_size := v\<rparr>" and mk = "\<lambda>x v. \<lparr>st_size = v, st_class = hp_class x\<rparr>"])
    (auto simp: locs_storage_def ok_storage_def abs_storage_def StorageTemplate_DeepCopyInto_def split: prod.splits)

definition locs_archive :: "store \<Rightarrow> ArchiveSnapshot_mem \<Rightarrow> addr set" where
  "locs_archive s x = set_option (ha_enable x) \<union> (set_option (ha_rsync_config x) \<union>
     (set_option (ha_restore_image x) \<union> locs_storage s (ha_storage x)))"

definition ok_archive :: "library \<Rightarrow> store \<Rightarrow> ArchiveSnapshot_mem \<Rightarrow> bool" where
  "ok_archive d s x = ok_storage d s (ha_storage x)"

definition abs_archive :: "library \<Rightarrow> store \<Rightarrow> ArchiveSnapshot_mem \<Rightarrow> ArchiveSnapshot" where
  "abs_archive d s x =
    \<lparr>as_enable = map_option (\<lambda>a. cell_bool (cells s a)) (ha_enable x),
     as_file_name = ha_file_name x, as_checksum = ha_checksum x,
     as_rsync_config = map_option (\<lambda>a. cell_string (cells s a)) (ha_rsync_config x),
     as_restore_image = map_option (\<lambda>a. cell_string (cells s a)) (ha_restore_image x),
     as_storage = abs_storage d s (ha_storage x)\<rparr>"

lemma archive_copies:
  assumes "lawful_library d"
  shows "deep_copy locs_archive (ok_archive d) (abs_archive d) (ArchiveSnapshot_DeepCopyInto d)"
  by (rule deep_copy_part [OF deep_copy_pair [OF bool_pointer.deep_copy_axioms
        deep_copy_pair [OF string_pointer.deep_copy_axioms
        deep_copy_pair [OF string_pointer.deep_copy_axioms storage_copies [OF assms]]]],
      where part = "\<lambda>x. (ha_enable x, ha_rsync_config x, ha_restore_image x, ha_storage x)"
        and upd = "\<lambda>x (e, r, i, st). x\<lparr>ha_enable := e, ha_rsync_config := r, ha_restore_image := i,
          ha_storage := st\<rparr>"
        and mk = "\<lambda>x (e, r, i, st). \<lparr>as_enable = e, as_file_name = ha_file_name x, as_checksum = ha_checksum x,
          as_rsync_config = r, as_restore_image = i, as_storage = st\<rparr>"])
    (auto simp: locs_archive_def ok_archive_def abs_archive_def ArchiveSnapshot_DeepCopyInto_def split: prod.splits)

definition locs_monitor :: "PodMonitor_mem \<Rightarrow> addr set" where
  "locs_monitor x = set_option (hm_labels x)"

definition ok_monitor :: "store \<Rightarrow> PodMonitor_mem \<Rightarrow> bool" where
  "ok_monitor s x = (\<forall>a \<in> set_option (hm_labels x). wf_entries (cell_map (cells s a)))"

definition abs_monitor :: "store \<Rightarrow> PodMonitor_mem \<Rightarrow> PodMonitorConfig" where
  "abs_monitor s x = \<lparr>pmc_enabled = hm_enabled x, pmc_labels = map_option (\<lambda>a. cell_map (cells s a)) (hm_labels x)\<rparr>"

interpretation monitor: deep_copy "\<lambda>_. locs_monitor" ok_monitor abs_monitor PodMonitor_DeepCopyInto
  by (rule deep_copy_part [OF labels_pointer.deep_copy_axioms, where part = hm_labels
        and upd = "\<lambda>x l. x\<lparr>hm_labels := l\<rparr>" and mk = "\<lambda>x l. \<lparr>pmc_enabled = hm_enabled x, pmc_labels = l\<rparr>"])
    (auto simp: locs_monitor_def ok_monitor_def abs_monitor_def PodMonitor_DeepCopyInto_def split: prod.splits)

lemma copy_struct_eqs:
  "copy_monitor = copy_struct (CPodMonitor zero_monitor) cell_monitor CPodMonitor PodMonitor_DeepCopyInto"
  "copy_items d = copy_struct (CItems []) cell_items CItems (copy_each (StarknetRPC_DeepCopyInto d))"
  "copy_tolerations d = copy_struct (CTolerations []) cell_tolerations CTolerations (copy_each (lt_copy (lib_toleration d)))"
  "copy_conditions d = copy_struct (CConditions []) cell_conditions CConditions (copy_each (lt_copy (lib_condition d)))"
  by (simp_all add: fun_eq_iff copy_monitor_def copy_items_def copy_tolerations_def copy_conditions_def copy_struct_def)

interpretation monitor_pointer: deep_copy "locs_struct cell_monitor (\<lambda>_. locs_monitor)"
  "ok_struct cell_monitor ok_monitor" "abs_struct cell_monitor abs_monitor" copy_monitor
  unfolding copy_struct_eqs(1) by (rule deep_copy_struct [OF monitor.deep_copy_axioms]) simp

definition locs_tolerations :: "store \<Rightarrow> addr option \<Rightarrow> addr set" where
  "locs_tolerations = locs_struct cell_tolerations (locs_each reach)"

definition ok_tolerations :: "library \<Rightarrow> store \<Rightarrow> addr option \<Rightarrow> bool" where
  "ok_tolerations d = ok_struct cell_tolerations (ok_each (lt_ok (lib_toleration d)))"

definition abs_tolerations :: "library \<Rightarrow> store \<Rightarrow> addr option \<Rightarrow> Toleration list option" where
  "abs_tolerations d = abs_struct cell_tolerations (\<lambda>s. map (lt_read (lib_toleration d) s))"

lemma tolerations_copies:
  assumes "lawful_library d"
  shows "deep_copy locs_tolerations (ok_tolerations d) (abs_tolerations d) (copy_tolerations d)"
  unfolding copy_struct_eqs(3) locs_tolerations_def ok_tolerations_def abs_tolerations_def
  by (rule deep_copy_struct [OF deep_copy_each [OF library_copies(3) [OF assms]]]) simp

definition locs_spec :: "store \<Rightarrow> StarknetRPCSpec_mem \<Rightarrow> addr set" where
  "locs_spec s x = locs_archive s (hs_restore_archive x) \<union> (reach s (hs_resources x) \<union>
     (set_option (hs_image x) \<union> (locs_storage s (hs_storage x) \<union> (locs_tolerations s (hs_tolerations x) \<union>
     (reach s (hs_layer1_rpc_secret x) \<union> locs_struct cell_monitor (\<lambda>_. locs_monitor) s (hs_pod_monitor x))))))"

definition ok_spec :: "library \<Rightarrow> store \<Rightarrow> StarknetRPCSpec_mem \<Rightarrow> bool" where
  "ok_spec d s x \<longleftrightarrow> ok_archive d s (hs_restore_archive x) \<and> lt_ok (lib_resources d) s (hs_resources x) \<and>
     ok_storage d s (hs_storage x) \<and> ok_tolerations d s (hs_tolerations x) \<and>
     lt_ok (lib_secret d) s (hs_layer1_rpc_secret x) \<and> ok_struct cell_monitor ok_monitor s (hs_pod_monitor x)"

definition abs_spec :: "library \<Rightarrow> store \<Rightarrow> StarknetRPCSpec_mem \<Rightarrow> StarknetRPCSpec" where
  "abs_spec d s x =
    \<lparr>sp_network = hs_network x,
     sp_restore_archive = abs_archive d s (hs_restore_archive x),
     sp_resources = lt_read (lib_resources d) s (hs_resources x),
     sp_image = map_option (\<lambda>a. cell_string (cells s a)) (hs_image x),
     sp_storage = abs_storage d s (hs_storage x),
     sp_tolerations = (case abs_tolerations d s (hs_tolerations x) of None \<Rightarrow> [] | Some l \<Rightarrow> l),
     sp_layer1_rpc_secret = lt_read (lib_secret d) s (hs_layer1_rpc_secret x),
     sp_pod_monitor = abs_struct cell_monitor abs_monitor s (hs_pod_monitor x)\<rparr>"

lemma spec_copies:
  assumes "lawful_library d"
  shows "deep_copy locs_spec (ok_spec d) (abs_spec d) (StarknetRPCSpec_DeepCopyInto d)"
  by (rule deep_copy_part [OF deep_copy_pair [OF archive_copies [OF assms]
        deep_copy_pair [OF library_copies(2) [OF assms]
        deep_copy_pair [OF string_pointer.deep_copy_axioms
        deep_copy_pair [OF storage_copies [OF assms]
        deep_copy_pair [OF tolerations_copies [OF assms]
        deep_copy_pair [OF library_copies(4) [OF assms] monitor_pointer.deep_copy_axioms]]]]]],
      where part = "\<lambda>x. (hs_restore_archive x, hs_resources x, hs_image x, hs_storage x, hs_tolerations x,
          hs_layer1_rpc_secret x, hs_pod_monitor x)"
        and upd = "\<lambda>x (a, r, i, st, t, l, m). x\<lparr>hs_restore_archive := a, hs_resources := r, hs_image := i,
          hs_storage := st, hs_tolerations := t, hs_layer1_rpc_secret := l, hs_pod_monitor := m\<rparr>"
        and mk = "\<lambda>x (a, r, i, st, t, l, m). \<lparr>sp_network = hs_network x, sp_restore_archive = a, sp_resources = r,
          sp_image = i, sp_storage = st, sp_tolerations = (case t of None \<Rightarrow> [] | Some l \<Rightarrow> l),
          sp_layer1_rpc_secret = l, sp_pod_monitor = m\<rparr>"])
    (auto simp: locs_spec_def ok_spec_def abs_spec_def StarknetRPCSpec_DeepCopyInto_def split: prod.splits)

definition locs_status :: "store \<Rightarrow> StarknetRPCStatus_mem \<Rightarrow> addr set" where
  "locs_status s x = locs_struct cell_conditions (locs_each reach) s (hst_conditions x)"

definition ok_status :: "library \<Rightarrow> store \<Rightarrow> StarknetRPCStatus_mem \<Rightarrow> bool" where
  "ok_status d s x = ok_struct cell_conditions (ok_each (lt_ok (lib_condition d))) s (hst_conditions x)"

definition abs_status :: "library \<Rightarrow> store \<Rightarrow> StarknetRPCStatus_mem \<Rightarrow> StarknetRPCStatus" where
  "abs_status d s x =
     \<lparr>ss_conditions = abs_struct cell_conditions (\<lambda>s. map (lt_read (lib_condition d) s)) s (hst_conditions x)\<rparr>"

lemma conditions_copies:
  assumes "lawful_library d"
  shows "deep_copy (locs_struct cell_conditions (locs_each reach))
    (ok_struct cell_conditions (ok_each (lt_ok (lib_condition d))))
    (abs_struct cell_conditions (\<lambda>s. map (lt_read (lib_condition d) s))) (copy_conditions d)"
  unfolding copy_struct_eqs(4)
  by (rule deep_copy_struct [OF deep_copy_each [OF library_copies(6) [OF assms]]]) simp

lemma status_copies:
  assumes "lawful_library d"
  shows "deep_copy locs_status (ok_status d) (abs_status d) (StarknetRPCStatus_DeepCopyInto d)"
  by (rule deep_copy_part [OF conditions_copies [OF assms], where part = hst_conditions
        and upd = "\<lambda>x c. x\<lparr>hst_conditions := c\<rparr>" and mk = "\<lambda>x c. \<lparr>ss_conditions = c\<rparr>"])
    (auto simp: locs_status_def ok_status_def abs_status_def StarknetRPCStatus_DeepCopyInto_def split: prod.splits)

definition locs_rpc :: "store \<Rightarrow> StarknetRPC_mem \<Rightarrow> addr set" where
  "locs_rpc s x = reach s (hr_meta x) \<union> (locs_spec s (hr_spec x) \<union> locs_status s (hr_status x))"

definition ok_rpc :: "library \<Rightarrow> store \<Rightarrow> StarknetRPC_mem \<Rightarrow> bool" where
  "ok_rpc d s x \<longleftrightarrow> lt_ok (lib_meta d) s (hr_meta x) \<and> ok_spec d s (hr_spec x) \<and> ok_status d s (hr_status x)"

definition abs_rpc :: "library \<Rightarrow> store \<Rightarrow> StarknetRPC_mem \<Rightarrow> StarknetRPC" where
  "abs_rpc d s x = \<lparr>rpc_type = hr_type x, rpc_meta = lt_read (lib_meta d) s (hr_meta x),
     rpc_spec = abs_spec d s (hr_spec x), rpc_status = abs_status d s (hr_status x)\<rparr>"

lemma rpc_copies:
  assumes "lawful_library d"
  shows "deep_copy locs_rpc (ok_rpc d) (abs_rpc d) (StarknetRPC_DeepCopyInto d)"
  by (rule deep_copy_part [OF deep_copy_pair [OF library_copies(5) [OF assms]
        deep_copy_pair [OF spec_copies [OF assms] status_copies [OF assms]]],
      where part = "\<lambda>x. (hr_meta x, hr_spec x, hr_status x)"
        and upd = "\<lambda>x (m, sp, st). x\<lparr>hr_meta := m, hr_spec := sp, hr_status := st\<rparr>"
        and mk = "\<lambda>x (m, sp, st). \<lparr>rpc_type = hr_type x, rpc_meta = m, rpc_spec = sp, rpc_status = st\<rparr>"])
    (auto simp: locs_rpc_def ok_rpc_def abs_rpc_def StarknetRPC_DeepCopyInto_def split: prod.splits)

lemma items_copies:
  assumes "lawful_library d"
  shows "deep_copy (locs_struct cell_items (locs_each locs_rpc)) (ok_struct cell_items (ok_each (ok_rpc d)))
    (abs_struct cell_items (\<lambda>s. map (abs_rpc d s))) (copy_items d)"
  unfolding copy_struct_eqs(2)
  by (rule deep_copy_struct [OF deep_copy_each [OF rpc_copies [OF assms]]]) simp

text \<open>A list is read as its type, its metadata and its items.\<close>

definition abs_list :: "library \<Rightarrow> store \<Rightarrow> StarknetRPCList_mem \<Rightarrow> TypeMeta \<times> string \<times> StarknetRPC list option" where
  "abs_list d s x = (hl_type x, lt_read (lib_list_meta d) s (hl_meta x),
     abs_struct cell_items (\<lambda>s. map (abs_rpc d s)) s (hl_items x))"

definition locs_list :: "store \<Rightarrow> StarknetRPCList_mem \<Rightarrow> addr set" where
  "locs_list s x = reach s (hl_meta x) \<union> locs_struct cell_items (locs_each locs_rpc) s (hl_items x)"

definition ok_list :: "library \<Rightarrow> store \<Rightarrow> StarknetRPCList_mem \<Rightarrow> bool" where
  "ok_list d s x \<longleftrightarrow> lt_ok (lib_list_meta d) s (hl_meta x) \<and> ok_struct cell_items (ok_each (ok_rpc d)) s (hl_items x)"

lemma list_copies:
  assumes "lawful_library d"
  shows "deep_copy locs_list (ok_list d) (abs_list d) (StarknetRPCList_DeepCopyInto d)"
  by (rule deep_copy_part [OF deep_copy_pair [OF library_copies(7) [OF assms] items_copies [OF assms]],
      where part = "\<lambda>x. (hl_meta x, hl_items x)" and upd = "\<lambda>x (m, i). x\<lparr>hl_meta := m, hl_items := i\<rparr>"
        and mk = "\<lambda>x (m, i). (hl_type x, m, i)"])
    (auto simp: locs_list_def ok_list_def abs_list_def StarknetRPCList_DeepCopyInto_def split: prod.splits)

section \<open>DeepCopy and DeepCopyObject\<close>

text \<open>
  Each \<open>DeepCopy\<close> returns nil for nil and otherwise the address of a new struct that
  \<open>DeepCopyInto\<close> has filled; \<open>DeepCopyObject\<close> returns that pointer as an interface.
\<close>

definition zero_storage :: StorageTemplate_mem where
  "zero_storage = \<lparr>hp_size = Scalar ''0'', hp_class = ''''\<rparr>"

fun cell_storage :: "cell \<Rightarrow> StorageTemplate_mem" where
  "cell_storage (CStorage x) = x" | "cell_storage _ = zero_storage"

definition zero_archive :: ArchiveSnapshot_mem where
  "zero_archive = \<lparr>ha_enable = None, ha_file_name = '''', ha_checksum = '''', ha_rsync_config = None,
     ha_restore_image = None, ha_storage = zero_storage\<rparr>"

fun cell_archive :: "cell \<Rightarrow> ArchiveSnapshot_mem" where
  "cell_archive (CArchive x) = x" | "cell_archive _ = zero_archive"

definition zero_spec :: StarknetRPCSpec_mem where
  "zero_spec = \<lparr>hs_network = '''', hs_restore_archive = zero_archive, hs_resources = Scalar '''',
     hs_image = None, hs_storage = zero_storage, hs_tolerations = None,
     hs_layer1_rpc_secret = Scalar '''', hs_pod_monitor = None\<rparr>"

fun cell_spec :: "cell \<Rightarrow> StarknetRPCSpec_mem" where
  "cell_spec (CSpec x) = x" | "cell_spec _ = zero_spec"

fun cell_status :: "cell \<Rightarrow> StarknetRPCStatus_mem" where
  "cell_status (CStatus x) = x" | "cell_status _ = \<lparr>hst_conditions = None\<rparr>"

definition zero_rpc_mem :: StarknetRPC_mem where
  "zero_rpc_mem = \<lparr>hr_type = \<lparr>tm_api_version = '''', tm_kind = ''''\<rparr>,
     hr_meta = Scalar '''', hr_spec = zero_spec, hr_status = \<lparr>hst_conditions = None\<rparr>\<rparr>"

fun cell_rpc :: "cell \<Rightarrow> StarknetRPC_mem" where
  "cell_rpc (CRpc x) = x" | "cell_rpc _ = zero_rpc_mem"

definition zero_list :: StarknetRPCList_mem where
  "zero_list = \<lparr>hl_type = \<lparr>tm_api_version = '''', tm_kind = ''''\<rparr>, hl_meta = Scalar '''', hl_items = None\<rparr>"

fun cell_list :: "cell \<Rightarrow> StarknetRPCList_mem" where
  "cell_list (CList x) = x" | "cell_list _ = zero_list"

definition StorageTemplate_DeepCopy :: "library \<Rightarrow> addr option \<Rightarrow> store \<Rightarrow> addr option \<times> store" where
  "StorageTemplate_DeepCopy d = copy_struct Zeroed cell_storage CStorage (StorageTemplate_DeepCopyInto d)"

definition ArchiveSnapshot_DeepCopy :: "library \<Rightarrow> addr option \<Rightarrow> store \<Rightarrow> addr option \<times> store" where
  "ArchiveSnapshot_DeepCopy d = copy_struct Zeroed cell_archive CArchive (ArchiveSnapshot_DeepCopyInto d)"

definition PodMonitor_DeepCopy :: "addr option \<Rightarrow> store \<Rightarrow> addr option \<times> store" where
  "PodMonitor_DeepCopy = copy_struct Zeroed cell_monitor CPodMonitor PodMonitor_DeepCopyInto"

definition StarknetRPCSpec_DeepCopy :: "library \<Rightarrow> addr option \<Rightarrow> store \<Rightarrow> addr option \<times> store" where
  "StarknetRPCSpec_DeepCopy d = copy_struct Zeroed cell_spec CSpec (StarknetRPCSpec_DeepCopyInto d)"

definition StarknetRPCStatus_DeepCopy :: "library \<Rightarrow> addr option \<Rightarrow> store \<Rightarrow> addr option \<times> store" where
  "StarknetRPCStatus_DeepCopy d = copy_struct Zeroed cell_status CStatus (StarknetRPCStatus_DeepCopyInto d)"

definition StarknetRPC_DeepCopy :: "library \<Rightarrow> addr option \<Rightarrow> store \<Rightarrow> addr option \<times> store" where
  "StarknetRPC_DeepCopy d = copy_struct Zeroed cell_rpc CRpc (StarknetRPC_DeepCopyInto d)"

definition StarknetRPCList_DeepCopy :: "library \<Rightarrow> addr option \<Rightarrow> store \<Rightarrow> addr option \<times> store" where
  "StarknetRPCList_DeepCopy d = copy_struct Zeroed cell_list CList (StarknetRPCList_DeepCopyInto d)"

definition StarknetRPC_DeepCopyObject :: "library \<Rightarrow> addr option \<Rightarrow> store \<Rightarrow> addr option \<times> store" where
  "StarknetRPC_DeepCopyObject d p s = (case StarknetRPC_DeepCopy d p s of
     (Some c, s') \<Rightarrow> (Some c, s') | (None, s') \<Rightarrow> (None, s'))"

definition StarknetRPCList_DeepCopyObject :: "library \<Rightarrow> addr option \<Rightarrow> store \<Rightarrow> addr option \<times> store" where
  "StarknetRPCList_DeepCopyObject d p s = (case StarknetRPCList_DeepCopy d p s of
     (Some c, s') \<Rightarrow> (Some c, s') | (None, s') \<Rightarrow> (None, s'))"

lemma DeepCopy_copies:
  assumes "lawful_library d"
  shows "deep_copy (locs_struct cell_storage locs_storage) (ok_struct cell_storage (ok_storage d))
      (abs_struct cell_storage (abs_storage d)) (StorageTemplate_DeepCopy d)"
    "deep_copy (locs_struct cell_archive locs_archive) (ok_struct cell_archive (ok_archive d))
      (abs_struct cell_archive (abs_archive d)) (ArchiveSnapshot_DeepCopy d)"
    "deep_copy (locs_struct cell_spec locs_spec) (ok_struct cell_spec (ok_spec d))
      (abs_struct cell_spec (abs_spec d)) (StarknetRPCSpec_DeepCopy d)"
    "deep_copy (locs_struct cell_status locs_status) (ok_struct cell_status (ok_status d))
      (abs_struct cell_status (abs_status d)) (StarknetRPCStatus_DeepCopy d)"
    "deep_copy (locs_struct cell_rpc locs_rpc) (ok_struct cell_rpc (ok_rpc d))
      (abs_struct cell_rpc (abs_rpc d)) (StarknetRPC_DeepCopy d)"
    "deep_copy (locs_struct cell_list locs_list) (ok_struct cell_list (ok_list d))
      (abs_struct cell_list (abs_list d)) (StarknetRPCList_DeepCopy d)"
  unfolding StorageTemplate_DeepCopy_def ArchiveSnapshot_DeepCopy_def StarknetRPCSpec_DeepCopy_def
    StarknetRPCStatus_DeepCopy_def StarknetRPC_DeepCopy_def StarknetRPCList_DeepCopy_def
  by (rule deep_copy_struct, rule storage_copies archive_copies spec_copies status_copies rpc_copies
      list_copies, rule assms, simp)+

interpretation monitor_copy: deep_copy "locs_struct cell_monitor (\<lambda>_. locs_monitor)"
  "ok_struct cell_monitor ok_monitor" "abs_struct cell_monitor abs_monitor" PodMonitor_DeepCopy
  unfolding PodMonitor_DeepCopy_def by (rule deep_copy_struct [OF monitor.deep_copy_axioms]) simp

section \<open>Properties\<close>

text \<open>C14. The deep copy of a resource represents the same resource and shares no cell with it, not
  even below the metadata, the quantities, the tolerations or the conditions. So the two are
  independent: whatever is written into a cell that one of them reaches, the other one still
  represents what it did. This relies on the deep copies of the other packages being deep
  copies. The copy of nil is nil.\<close>

theorem StarknetRPC_DeepCopy_independent:
  assumes "lawful_library d" and "StarknetRPC_DeepCopyObject d (Some p) s = (q, s')"
    and "locs_struct cell_rpc locs_rpc s (Some p) \<subseteq> {..<next_cell s}"
    and "ok_struct cell_rpc (ok_rpc d) s (Some p)"
  shows "\<exists>p'. q = Some p' \<and> abs_rpc d s' (cell_rpc (cells s' p')) = abs_rpc d s (cell_rpc (cells s p)) \<and>
    locs_struct cell_rpc locs_rpc s' q \<inter> locs_struct cell_rpc locs_rpc s' (Some p) = {} \<and>
    (\<forall>a \<in> locs_struct cell_rpc locs_rpc s' q. \<forall>c. abs_rpc d (put a c s') (cell_rpc (cells (put a c s') p)) =
        abs_rpc d s (cell_rpc (cells s p))) \<and>
    (\<forall>a \<in> locs_struct cell_rpc locs_rpc s' (Some p). \<forall>c. abs_rpc d (put a c s') (cell_rpc (cells (put a c s') p')) =
        abs_rpc d s (cell_rpc (cells s p))) \<and>
    StarknetRPC_DeepCopyObject d None s = (None, s)"
proof -
  have copy: "StarknetRPC_DeepCopy d (Some p) s = (q, s')"
    using assms(2) by (auto simp: StarknetRPC_DeepCopyObject_def split: prod.splits option.splits)
  obtain p' where p': "q = Some p'"
    using copy by (auto simp: StarknetRPC_DeepCopy_def copy_struct_def split: prod.splits)
  note rpc = DeepCopy_copies(5) [OF assms(1)]
  note c = deep_copy.copies [OF rpc copy assms(3,4)] and i = deep_copy.independent [OF rpc copy assms(3,4)]
  have same: "locs_struct cell_rpc locs_rpc s' (Some p) = locs_struct cell_rpc locs_rpc s (Some p)"
    using deep_copy.kept(1) [OF rpc conjunct1 [OF c] assms(3)] .
  have "locs_struct cell_rpc locs_rpc s' q \<inter> locs_struct cell_rpc locs_rpc s' (Some p) = {}"
    using c assms(3) unfolding same by fastforce
  moreover have "StarknetRPC_DeepCopyObject d None s = (None, s)"
    by (simp add: StarknetRPC_DeepCopyObject_def StarknetRPC_DeepCopy_def copy_struct_def)
  ultimately show ?thesis using c i unfolding p' same abs_struct_def by auto
qed

text \<open>C34. The deep copy of a list of resources has the same metadata and the same items in the same
  order, and the cells it reaches, also those below its metadata and that of the items, are all
  new: none of them was in use before, and those keep what they held.\<close>

theorem StarknetRPCList_DeepCopy_fresh:
  assumes "lawful_library d" and "StarknetRPCList_DeepCopyObject d (Some p) s = (q, s')"
    and "locs_struct cell_list locs_list s (Some p) \<subseteq> {..<next_cell s}"
    and "ok_struct cell_list (ok_list d) s (Some p)"
  shows "\<exists>p'. q = Some p' \<and> abs_list d s' (cell_list (cells s' p')) = abs_list d s (cell_list (cells s p)) \<and>
    locs_struct cell_list locs_list s' q \<inter> {..<next_cell s} = {} \<and>
    (\<forall>a < next_cell s. cells s' a = cells s a)"
proof -
  have copy: "StarknetRPCList_DeepCopy d (Some p) s = (q, s')"
    using assms(2) by (auto simp: StarknetRPCList_DeepCopyObject_def split: prod.splits option.splits)
  obtain p' where p': "q = Some p'"
    using copy by (auto simp: StarknetRPCList_DeepCopy_def copy_struct_def split: prod.splits)
  from deep_copy.copies [OF DeepCopy_copies(6) [OF assms(1)] copy assms(3,4)] show ?thesis
    unfolding p' abs_struct_def extends_def by auto
qed

section \<open>Witnesses\<close>

text \<open>
  Library types whose values are a text, or a pointer to one: their copies copy the cell they
  point to.
\<close>

fun flat_text :: "store \<Rightarrow> go_value \<Rightarrow> string" where
  "flat_text s (Scalar v) = v"
| "flat_text s (Ref (Some a)) = (case cell_lib (cells s a) of Scalar v \<Rightarrow> v | _ \<Rightarrow> '''')"
| "flat_text s _ = ''''"

fun flat_ok :: "store \<Rightarrow> go_value \<Rightarrow> bool" where
  "flat_ok s (Scalar v) = True"
| "flat_ok s (Ref (Some a)) = (case cells s a of CLib (Scalar v) \<Rightarrow> True | _ \<Rightarrow> False)"
| "flat_ok s _ = False"

fun flat_copy :: "go_value \<Rightarrow> store \<Rightarrow> go_value \<times> store" where
  "flat_copy (Ref (Some a)) s = (case alloc (CLib (cell_lib (cells s a))) s of (b, s1) \<Rightarrow> (Ref (Some b), s1))"
| "flat_copy v s = (v, s)"

definition flat :: "(string \<Rightarrow> 'a) \<Rightarrow> 'a library_type" where
  "flat f = \<lparr>lt_ok = flat_ok, lt_read = (\<lambda>s v. f (flat_text s v)), lt_copy = flat_copy\<rparr>"

lemma reach_local:
  assumes "\<And>a. a \<in> reach s v \<Longrightarrow> cells s' a = cells s a"
  shows "reach s' v = reach s v"
proof
  show "reach s' v \<subseteq> reach s v"
  proof
    fix a assume "a \<in> reach s' v"
    then show "a \<in> reach s v"
      by induction (auto intro: reach.intros simp: assms)
  qed
  show "reach s v \<subseteq> reach s' v"
  proof
    fix a assume "a \<in> reach s v"
    then show "a \<in> reach s' v"
      by induction (auto intro: reach.intros simp: assms)
  qed
qed

lemma reach_flat:
  "reach s (Scalar v) = {}"
  "cell_lib (cells s a) = Scalar v \<Longrightarrow> reach s (Ref (Some a)) = {a}"
proof -
  have "a \<notin> reach s (Scalar v)" for a
  proof
    assume "a \<in> reach s (Scalar v)"
    then show False by induction simp_all
  qed
  then show "reach s (Scalar v) = {}" by blast
next
  assume a: "cell_lib (cells s a) = Scalar v"
  have "b = a" if "b \<in> reach s (Ref (Some a))" for b
    using that by induction (simp_all add: a)
  then show "reach s (Ref (Some a)) = {a}"
    by (auto intro: reach.intros)
qed

lemma lawful_flat: "lawful_type (flat f)"
  unfolding lawful_type_def
proof (unfold_locales, goal_cases)
  case (1 s v s')
  have "cells s' a = cells s a" if "v = Ref (Some a)" for a
    by (rule 1) (simp add: that reach_here)
  then have "flat_text s' v = flat_text s v" "flat_ok s' v = flat_ok s v"
    by (induction s v rule: flat_text.induct) auto
  with reach_local [OF 1] show ?case by (simp add: flat_def)
next
  case (2 v s v' s')
  then show ?case
  proof (cases "\<exists>a. v = Ref (Some a)")
    case True
    then obtain a where v: "v = Ref (Some a)" by blast
    then obtain x where x: "cells s a = CLib (Scalar x)"
      using 2(3) by (auto simp: flat_def split: cell.splits go_value.splits)
    have "v' = Ref (Some (next_cell s))" "s' = snd (alloc (CLib (Scalar x)) s)"
      using 2(1) by (simp_all add: flat_def v x alloc_def)
    then show ?thesis
      using reach_flat(2) [of s' "next_cell s" x] by (simp add: flat_def v x alloc_def extends_def)
  next
    case False
    with 2 have "v' = v" "s' = s" "flat_ok s v" by (auto simp: flat_def elim: flat_copy.elims)
    moreover from False this obtain x where "v = Scalar x" by (auto elim: flat_ok.elims)
    ultimately show ?thesis by (simp add: flat_def reach_flat)
  qed
qed

definition plain_library :: library where
  "plain_library =
    \<lparr>lib_quantity = flat id, lib_resources = flat (\<lambda>_. no_resources),
     lib_toleration = flat (\<lambda>v. \<lparr>tol_key = v, tol_operator = '''', tol_value = '''', tol_effect = '''', tol_seconds = None\<rparr>),
     lib_secret = flat (\<lambda>v. \<lparr>sks_name = v, sks_key = '''', sks_optional = None\<rparr>),
     lib_meta = flat (\<lambda>v. \<lparr>om_name = v, om_namespace = '''', om_uid = '''', om_labels = None, om_annotations = None, om_owners = []\<rparr>),
     lib_condition = flat (\<lambda>v. \<lparr>c_type = v, c_status = ConditionTrue, c_reason = '''', c_message = '''', c_last_transition = None\<rparr>),
     lib_list_meta = flat id\<rparr>"

lemma lawful_plain_library: "lawful_library plain_library"
  by (simp add: plain_library_def lawful_library_def lawful_flat)

text \<open>A resource with a name behind a pointer, an image, a switch, labels and one condition, alone in a list.\<close>

definition stored_rpc :: StarknetRPC_mem where
  "stored_rpc = zero_rpc_mem\<lparr>hr_meta := Ref (Some 8),
     hr_spec := zero_spec\<lparr>hs_restore_archive := zero_archive\<lparr>ha_enable := Some 0\<rparr>, hs_image := Some 1,
       hs_pod_monitor := Some 3\<rparr>,
     hr_status := \<lparr>hst_conditions = Some 4\<rparr>\<rparr>"

definition sample_store :: store where
  "sample_store =
    \<lparr>cells = (\<lambda>_. Zeroed)(0 := CBool True, 1 := CString ''img'', 2 := CMap [(''team'', ''a'')],
       3 := CPodMonitor \<lparr>hm_enabled = True, hm_labels = Some 2\<rparr>, 4 := CConditions [Scalar ''Restore''],
       5 := CRpc stored_rpc, 6 := CItems [stored_rpc],
       7 := CList (zero_list\<lparr>hl_items := Some 6\<rparr>), 8 := CLib (Scalar ''node'')),
     next_cell = 9\<rparr>"

lemmas sample_store_defs = sample_store_def stored_rpc_def zero_rpc_mem_def zero_spec_def zero_archive_def
  zero_storage_def zero_list_def plain_library_def flat_def

lemma sample_store_ok:
  "locs_struct cell_rpc locs_rpc sample_store (Some 5) \<subseteq> {..<next_cell sample_store}"
  "locs_struct cell_list locs_list sample_store (Some 7) \<subseteq> {..<next_cell sample_store}"
  "ok_struct cell_rpc (ok_rpc plain_library) sample_store (Some 5)"
  "ok_struct cell_list (ok_list plain_library) sample_store (Some 7)"
  by (simp_all add: sample_store_defs locs_struct_def locs_each_def locs_rpc_def locs_spec_def locs_archive_def
      locs_storage_def locs_monitor_def locs_tolerations_def locs_status_def locs_list_def reach_flat
      ok_struct_def ok_each_def ok_rpc_def ok_spec_def ok_archive_def ok_storage_def ok_tolerations_def
      ok_status_def ok_list_def ok_monitor_def wf_entries_def)

theorem StarknetRPC_DeepCopy_independent_witness:
  "\<exists>p' s'. StarknetRPC_DeepCopyObject plain_library (Some 5) sample_store = (Some p', s') \<and>
     sp_image (rpc_spec (abs_rpc plain_library s' (cell_rpc (cells s' p')))) = Some ''img'' \<and>
     rpc_name (abs_rpc plain_library s' (cell_rpc (cells s' p'))) = ''node''"
proof -
  obtain q s' where run: "StarknetRPC_DeepCopyObject plain_library (Some 5) sample_store = (q, s')"
    by (cases "StarknetRPC_DeepCopyObject plain_library (Some 5) sample_store")
  have rpc: "cell_rpc (cells sample_store 5) = stored_rpc" by (simp add: sample_store_def)
  have "sp_image (rpc_spec (abs_rpc plain_library sample_store stored_rpc)) = Some ''img''"
    "rpc_name (abs_rpc plain_library sample_store stored_rpc) = ''node''"
    by (simp_all add: sample_store_defs abs_rpc_def abs_spec_def)
  with StarknetRPC_DeepCopy_independent [OF lawful_plain_library run sample_store_ok(1,3)] run
  show ?thesis unfolding rpc by metis
qed

theorem StarknetRPCList_DeepCopy_fresh_witness:
  "\<exists>p' s'. StarknetRPCList_DeepCopyObject plain_library (Some 7) sample_store = (Some p', s') \<and>
     abs_list plain_library s' (cell_list (cells s' p')) = abs_list plain_library sample_store (zero_list\<lparr>hl_items := Some 6\<rparr>)"
proof -
  obtain q s' where run: "StarknetRPCList_DeepCopyObject plain_library (Some 7) sample_store = (q, s')"
    by (cases "StarknetRPCList_DeepCopyObject plain_library (Some 7) sample_store")
  have l: "cell_list (cells sample_store 7) = zero_list\<lparr>hl_items := Some 6\<rparr>"
    by (simp add: sample_store_def)
  from StarknetRPCList_DeepCopy_fresh [OF lawful_plain_library run sample_store_ok(2,4)] run
  show ?thesis unfolding l by metis
qed

end
