(* ===== verification/Spec2Isabelle.thy ===== *)
theory Spec2Isabelle
  imports Restore_Machine Creation Failed_Job Manager Deep_Copy
begin

text \<open>
  A verification library for starknet-operators, the Kubernetes operator that runs Starknet RPC
  nodes: for each StarknetRPC resource it keeps a volume claim for the node's database, restores a
  snapshot into it with a job, runs the node's pod and, if asked to, a PodMonitor for Prometheus.

  \<^bold>\<open>The program and its model.\<close> One reconciliation (internal/controller/starknetrpc_controller.go)
  reads the resource, initializes its conditions and runs four stages in order, each of which
  may end it: the storage claim, the restore of the archive, the pod, the PodMonitor. The
  methods share one copy of the resource through a pointer and talk to the API server.

  \<^item> \<open>Prelude\<close>: Go's maps, integers and decimal printing.
  \<^item> \<open>K8s_Objects\<close>: the Kubernetes and Prometheus objects, by the fields the code uses;
    the sentinels of internal/utils/reconciler/reconciler.go and the results of a reconciliation.
  \<^item> \<open>Rpc_Types\<close>: api/v1alpha1/starknetrpc_types.go, groupversion_info.go.
  \<^item> \<open>Client\<close>: the API server, the pod proxy, the event recorder and the condition helpers of
    apimachinery as one record of functions, \<open>client\<close>, on a world of any type. A method is a
    function from a state (world, shared copy, record of the calls) to an outcome, which is a value
    or a panic, and a state. \<open>Get\<close>, \<open>Create\<close>, \<open>Update\<close>, \<open>Delete\<close>, \<open>StatusUpdate\<close>, \<open>ProxyGet\<close> and
    \<open>Event\<close> are the primitive calls. The record of the calls is a ghost that no code reads.
  \<^item> \<open>Effects\<close>: weakest preconditions \<open>wp\<close>; \<open>talk\<close>, for the list of calls of one run; \<open>contract\<close>,
    for what holds of every call and result of an action.
  \<^item> \<open>Sample\<close>: an API server in memory, for the witnesses only.
  \<^item> \<open>Names\<close>: the derived names, the locales \<open>wanted_object\<close> and \<open>owned_object\<close> that every
    constructor of an object interprets, and what it means that a request stays with a resource.
  \<^item> \<open>Conditions\<close>: internal/utils/condition; the locale \<open>phase\<close> with one interpretation for each
    of the two conditions.
  \<^item> \<open>Stage\<close>: the locale \<open>stage\<close>, the interface between the controller and its four stages.
  \<^item> \<open>Reconciler\<close>: internal/utils/reconciler/ensure.go; the locale \<open>object_reconciler\<close> is what
    \<open>CreateOrReconcile\<close> needs of a test and an update.
  \<^item> \<open>Pvc\<close>, \<open>Archive_Restore\<close>, \<open>Proxy\<close>, \<open>Rpc_Pod\<close>, \<open>Pod_Monitor\<close>: the files of the same names
    in internal/controller and internal/utils/proxy.
  \<^item> \<open>Controller\<close>: \<open>Reconcile\<close> and \<open>SetupWithManager\<close>, composed from the stages; the locale
    \<open>ledger\<close> follows the shared copy along the calls, for every relation that composes.
  \<^item> \<open>History\<close>: any number of reconciliations of one resource, as an inductive relation.
  \<^item> \<open>Creation\<close>: everything a reconciliation creates (an instance of \<open>ledger\<close>) and in which order;
    which of the created objects wake the operator up when they change.
  \<^item> \<open>Restore_Machine\<close>: the restore as a state machine, an instance of \<open>ledger\<close>: the states of the
    Restore condition and the transitions, each with its trigger among the calls.
  \<^item> \<open>Steady\<close>: reconciliations of a resource that has all it wants; \<open>quiet\<close> is the judgement that an
    action changes nothing, with a rule for each primitive call.
  \<^item> \<open>Cluster\<close>: what the API server documents of its stores while it answers (\<open>responsive\<close>), through
    a view of the world as maps from names to objects; a deletion may take effect at once or later.
    A world without a view is one where the server is not responsive, of which nothing is said.
    \<open>runs\<close> says what an action does to the view.
  \<^item> \<open>Cluster_Stages\<close>: what each stage leaves in such a cluster, from every state it may find.
  \<^item> \<open>Convergence\<close>: repeated reconciliations with an arbitrary change of the world before each;
    \<open>stretch\<close> says what has to hold of the rounds, \<open>steps\<close> counts those in which the cluster has done
    its part; the work loop of the queue as a partial function.
  \<^item> \<open>Failed_Job\<close>: the same with a job that has failed, where the work loop never ends.
  \<^item> \<open>Flags\<close>, \<open>Manager\<close>: cmd/main.go, the command line and the start of the manager. The options of
    the two servers are Go slices with arrays and capacities, since they share memory.
  \<^item> \<open>Deep_Copy\<close>: api/v1alpha1/zz_generated.deepcopy.go on a store of cells. A struct of another
    package is a \<open>go_value\<close>, which may hold addresses at any depth; its own deep copy is a field of
    the parameter \<open>library\<close>. The locale \<open>deep_copy\<close>
    is interpreted for each type, and the lemmas \<open>deep_copy_pair\<close>, \<open>deep_copy_part\<close>,
    \<open>deep_copy_struct\<close> and \<open>deep_copy_each\<close> compose copies the way the generator does.

  \<^bold>\<open>What the theorems show.\<close> For the whole reconciliation (this theory): the pod waits for the
  Restore condition; the condition changes only on evidence; no panic for a server that returns
  well-shaped objects; a reconciliation that ends early asks to be called again; resources do
  not interfere; job and node work on one volume; the reconciliation
  refines the state machine of the restore; a resource that has all it wants is left as it is, by any
  number of reconciliations. Over a stretch of reconciliations in which the server answers and nobody
  interferes, four of them that find the claims bound and the job successful bring a resource from any
  state to the one it wants, and the work loop ends; with a job that has failed it never ends. Over a
  history of reconciliations: no pod without a restore, however the world changes in between. What is
  created is what is wanted, and which changes of it start a reconciliation. For each stage: the exact calls it
  makes, what it returns on every branch, what it deletes and creates and when. For
  \<open>CreateOrReconcile\<close>: its protocol with the server, and that one update suffices. For the
  start-up: it follows a declarative plan. For the deep copies: they represent the same resource and share no
  memory with it. Some theorems state where the code falls short: \<open>claim_reset_not_atomic\<close>,
  \<open>Reconcile_never_serving\<close>, \<open>failed_job_blocks\<close>,
  \<open>probe_port_zero\<close>, \<open>monitor_nil_port_panics\<close>, \<open>stale_label_stays\<close>, and the theorems
  \<open>restore_claim_ignores_template\<close> and \<open>GetWantedPvc_spec\<close> of their theories.

  \<^bold>\<open>Assumptions.\<close> Theorems hold for every client unless they name a hypothesis:
  \<open>lawful_status_update\<close> (a status update returns the resource that was sent),
  \<open>lawful_conditions\<close> (the condition helpers store and find a condition by its type),
  \<open>lawful_keys\<close> (the server answers about the object it was asked about), \<open>safe_server\<close>
  (pods have a container with a port, endpoints name their port), \<open>lawful_library\<close> (the deep copies
  of other packages satisfy the contract \<open>deep_copy\<close>) and \<open>responsive\<close> (in a world with a view the
  server keeps what it is given, refuses a creation exactly when the name is taken, accepts a
  deletion exactly when the object is there, and is still responsive afterwards). The theorems on
  repeated reconciliations also name what the environment does, as conditions on that one run and
  not as laws: \<open>stretch\<close> with \<open>4 \<le> steps\<close>, or \<open>stays_blocked\<close>. A job that fails and a claim that is
  never bound are allowed by \<open>responsive\<close> and \<open>stretch\<close>; they only make no step. The server
  in memory satisfies the first three, \<open>careful_client\<close> the fourth, \<open>plain_library\<close> the fifth,
  \<open>cluster_client\<close> the sixth, with \<open>daily\<close> as an environment in which a job takes its time.

  \<^bold>\<open>Loops and fuel.\<close> Every loop of the code is bounded by a list and is a structural recursion,
  except the parsing of the flags, whose arguments get fewer in each step, and the work loop, which
  is a partial function that is proved to return; no fuel is used.

  \<^bold>\<open>Not modelled.\<close> Logging; contexts and their cancellation; the fields of Kubernetes objects that the
  code neither sets nor reads; the memory that an object under construction shares with the resource (the
  pointers into \<open>cluster.Spec\<close> in \<open>GetWantedPvc\<close> and \<open>GetWantedPod\<close>), since the client returns
  its answer as a value; the caches and queues of controller-runtime (a history leaves the world free
  instead); the code of the scheme; zap's options; the shell scripts of the
  restore image, the manifests and the tests.
\<close>

section \<open>Properties\<close>

text \<open>C1. Nothing about the pod or its monitor is asked of the server, not even a read, unless
  the shared copy has a true Restore condition at the time of the call.\<close>

theorem Reconcile_gate:
  assumes "lawful_conditions k" and "lawful_status_update k"
    and "c \<in> set (calls (Reconcile k req) s)"
    and "request_kinds (call_req c) \<inter> {KindPod, KindPodMonitor} \<noteq> {}"
  shows "is_status_condition_true k (conditions (call_cluster c)) ''Restore''"
  using Reconcile_gated [OF assms] by (simp add: restored_def)

text \<open>C12. No reconciliation ever reports a node as available: when the resource it read is not
  Available, neither is any status it sends, whatever the server and the pod answer. The phase
  Ready is declared and never reached.\<close>

theorem Reconcile_never_serving:
  assumes "lawful_conditions k" and "lawful_status_update k"
    and "api_rpc_get k req (world s) = (Inr r, w)"
    and "\<not> is_status_condition_true k (conditions r) ''Available''"
    and "c \<in> set (calls (Reconcile k req) s)" and "call_req c = StatusUpdateReq x"
  shows "\<not> is_status_condition_true k (conditions x) ''Available''"
proof -
  define P :: "Call \<Rightarrow> bool" where "P c \<longleftrightarrow> (\<forall>x. call_req c = StatusUpdateReq x \<longrightarrow> \<not> serving k x)" for c
  note keeps = keeps_unavailable [OF assms(1,2)]
  have "P c"
  proof (rule Reconcile_calls [OF contract_reconcile_fetched [OF keeps _ keeps_subset [OF keeps]] _ _ assms(5)])
    show "pod_marks k \<subseteq> all_transitions k" by (auto simp: all_transitions_def)
    show "\<not> serving k r'" if "api_rpc_get k req (world s) = (Inr r', w')" for r' w'
      using that assms(3,4) by (simp add: serving_def)
  qed (auto simp: allows_def P_def)
  with assms(6) show ?thesis by (simp add: P_def serving_def)
qed

text \<open>C10. Two reconciliations for different keys never ask about the same object, of whatever
  kind: not even the claims of one resource can be mistaken for those of another.\<close>

theorem Reconcile_isolated:
  assumes "lawful_keys k" and "lawful_status_update k" and "req \<noteq> req'"
    and "c \<in> set (calls (Reconcile k req) s)" and "c' \<in> set (calls (Reconcile k req') s')"
    and "request_target (call_req c) = Some t"
  shows "request_target (call_req c') \<noteq> Some t"
proof
  assume t': "request_target (call_req c') = Some t"
  obtain knd n where t: "t = (knd, n)" by (cases t)
  obtain r r' where "meta_key (rpc_meta r) = req" "owned_key r knd n"
    "meta_key (rpc_meta r') = req'" "owned_key r' knd n"
    using Reconcile_owned [OF assms(1,2,4)] Reconcile_owned [OF assms(1,2,5)] assms(6) t' t by metis
  with owned_key_disjoint assms(3) show False by metis
qed

text \<open>C7. As long as the server returns pods with a container that declares a port and monitors
  whose first endpoint names its port, a reconciliation does not panic, and the sentinel that
  the stages use among themselves never leaves it.\<close>

theorem Reconcile_no_panic:
  assumes "safe_server k"
  shows "\<exists>result err. fst (Reconcile k req s) = Ret (result, err) \<and> err \<noteq> Some ErrNextLoop"
proof (cases "api_rpc_get k req (world s)")
  case (Pair reply w)
  show ?thesis
  proof (cases reply)
    case (Inl e)
    with Pair show ?thesis by (simp add: Reconcile_not_found)
  next
    case (Inr r)
    have "case fst (reconcile_fetched k (fetched_state s req r w)) of
        Ret x \<Rightarrow> outcome_ok x | Panicked p \<Rightarrow> False"
      using contract_reconcile_fetched [where I = anyone and J = anyone and P = anything and k = k] assms
      by (auto simp: contract_def split: outcome.splits)
    with Pair Inr show ?thesis
      by (auto simp: Reconcile_found outcome_ok_def split: outcome.splits)
  qed
qed

text \<open>C2. Over a whole reconciliation the Restore condition becomes true only if the restore is
  switched off or the job of the resource was read with a success, and stops being true only
  if the claim of its database has just been created.\<close>

theorem Reconcile_evidence:
  assumes "lawful_conditions k" and "lawful_status_update k"
    and "api_rpc_get k req (world s) = (Inr r, w)"
  shows "(is_status_condition_true k (conditions (the_rpc (snd (Reconcile k req s)))) ''Restore'' \<longrightarrow>
      is_status_condition_true k (conditions r) ''Restore'' \<or>
      as_enable (sp_restore_archive (rpc_spec r)) = Some False \<or>
      (\<exists>c \<in> set (calls (Reconcile k req) s). \<exists>j. call_req c = GetReq KindJob (GetRestoreJobName r) \<and>
         call_reply c = Got (ObjJob j) \<and> 0 < sint (job_succeeded j))) \<and>
    (is_status_condition_true k (conditions r) ''Restore'' \<longrightarrow>
      is_status_condition_true k (conditions (the_rpc (snd (Reconcile k req s)))) ''Restore'' \<or>
      (\<exists>c \<in> set (calls (Reconcile k req) s). \<exists>x y. call_req c = CreateReq (ObjPvc x) \<and>
         call_reply c = Got (ObjPvc y) \<and> meta_key (pvc_meta x) = GetStoragePvcName r))"
proof -
  have "talk (reconcile_fetched k) (fetched_state s req r w) (\<lambda>_ l s'.
      same_resource r (the_rpc s') \<and> explained k r l (the_rpc (fetched_state s req r w)) (the_rpc s'))"
    using tracked_fetched [OF assms(1,2), of r] unfolding tracks_def
    by (elim allE [of _ "fetched_state s req r w"]) simp
  from talk_calls [OF this] show ?thesis
    by (auto simp: explained_def restored_def Reconcile_found [OF assms(3)] job_success_def claim_created_def)
qed

text \<open>C9. A reconciliation that ends without an error asks to be called again or leaves the
  Restore condition true: while the restore is not done, no wake-up is ever lost.\<close>

theorem Reconcile_requeues:
  assumes "lawful_conditions k" and "lawful_status_update k"
    and "api_rpc_get k req (world s) = (Inr r, w)"
    and "fst (Reconcile k req s) = Ret (result, None)"
  shows "res_requeue result \<or> 0 < res_requeue_after result \<or>
    is_status_condition_true k (conditions (the_rpc (snd (Reconcile k req s)))) ''Restore''"
proof -
  have "talk (reconcile_fetched k) (fetched_state s req r w) (\<lambda>out l s'.
      \<forall>res. out = Ret (res, None) \<longrightarrow> asks_again res \<or> restored k (the_rpc s'))"
    using never_stuck_fetched [OF assms(1,2)] unfolding never_stuck_def by blast
  from talk_calls [OF this] assms(4) show ?thesis
    by (simp add: Reconcile_found [OF assms(3)] asks_again_def restored_def)
qed

text \<open>When the resource cannot be read, nothing else is asked: a resource that is gone is not
  an error and is not tried again, every other error is returned.\<close>

theorem Reconcile_missing:
  assumes "api_rpc_get k req (world s) = (Inl e, w)"
  shows "fst (Reconcile k req s) =
      Ret (\<lparr>res_requeue = False, res_requeue_after = 0\<rparr>, if e = NotFound then None else Some (Api e)) \<and>
    map call_req (calls (Reconcile k req) s) = [GetReq KindRpc req]"
  using Reconcile_not_found [OF assms] by (simp add: empty_result_def)

text \<open>The claim behind a directory of a container.\<close>

definition claim_at :: "PodSpec \<Rightarrow> Container \<Rightarrow> string \<Rightarrow> string option" where
  "claim_at spec c dir = (case find (\<lambda>m. vm_path m = dir) (ct_mounts c) of
     None \<Rightarrow> None
   | Some m \<Rightarrow> map_option vol_claim (find (\<lambda>v. vol_name v = vm_name m) (ps_volumes spec)))"

text \<open>C36. The restore job and the node work on the same database: what the job unpacks into
  /data is the claim of the data directory that the node is told to use, it is the claim the
  storage stage creates, and the scratch space is another claim.\<close>

theorem restore_fills_node_database:
  "\<exists>job node. ps_containers (job_template (GetWantedRestoreJob r)) = [job] \<and>
     ps_containers (pod_spec (GetWantedPod r)) = [node] \<and>
     map_of (map (\<lambda>e. (ev_name e, ev_value e)) (ct_env node)) ''PATHFINDER_DATA_DIR'' = Some ''/usr/share/pathfinder/data'' \<and>
     claim_at (pod_spec (GetWantedPod r)) node ''/usr/share/pathfinder/data'' = Some (om_name (pvc_meta (GetWantedPvc r))) \<and>
     claim_at (job_template (GetWantedRestoreJob r)) job ''/data'' = Some (om_name (pvc_meta (GetWantedPvc r))) \<and>
     claim_at (job_template (GetWantedRestoreJob r)) job ''/scratch'' = Some (om_name (pvc_meta (GetWantedRestorePvc r))) \<and>
     om_name (pvc_meta (GetWantedRestorePvc r)) \<noteq> om_name (pvc_meta (GetWantedPvc r))"
  by (simp add: GetWantedPod_def GetWantedRestoreJob_def GetWantedPvc_def GetWantedRestorePvc_def Let_def
      claim_at_def EnvValue_def name_defs)

section \<open>Witnesses\<close>

theorem Reconcile_never_serving_witness:
  "\<exists>c \<in> set (calls (Reconcile mem_client sample_key) finished_run). \<exists>x. call_req c = StatusUpdateReq x \<and>
     is_status_condition_true mem_client (conditions x) ''Restore'' \<and>
     \<not> is_status_condition_true mem_client (conditions x) ''Available''"
proof -
  obtain c x where c: "c \<in> set (calls (Reconcile mem_client sample_key) finished_run)"
    "call_req c = StatusUpdateReq x" "is_status_condition_true mem_client (conditions x) ''Restore''"
    using finished_run_sends unfolding list_ex_iff sends_restored_def by (force split: Request.splits)
  have "\<not> is_status_condition_true mem_client (conditions initialized_rpc) ''Available''"
    by (simp add: initialized_rpc_def mem_condition_true_def condition_of_def)
  from Reconcile_never_serving [OF lawful_conditions_mem lawful_status_update_mem
      serve_get [OF sample_key(3), of finished_mem] this _ c(2)] c
  show ?thesis unfolding finished_run_def by blast
qed

theorem Reconcile_gate_witness:
  "\<exists>c \<in> set (calls (Reconcile mem_client sample_key) restored_run).
     request_kinds (call_req c) = {KindPod} \<and>
     is_status_condition_true mem_client (conditions (call_cluster c)) ''Restore''"
proof -
  obtain c where c: "c \<in> set (calls (Reconcile mem_client sample_key) restored_run)"
    "request_kinds (call_req c) = {KindPod}"
    using restored_run_creates creates_pod_kinds unfolding list_ex_iff by blast
  from c(2) have "request_kinds (call_req c) \<inter> {KindPod, KindPodMonitor} \<noteq> {}" by simp
  from Reconcile_gate [OF lawful_conditions_mem lawful_status_update_mem c(1) this] c show ?thesis by blast
qed

theorem Reconcile_isolated_witness:
  "Some (KindRpc, sample_key) \<in> request_target ` call_req ` set (calls (Reconcile mem_client sample_key)
       (run_from empty_mem zero_rpc)) \<and>
   Some (KindRpc, sample_key) \<notin> request_target ` call_req ` set (calls
       (Reconcile mem_client \<lparr>nn_name = ''other'', nn_namespace = ''default''\<rparr>)
       (run_from (serve sample_rpc empty_mem) zero_rpc))"
proof -
  let ?l = "calls (Reconcile mem_client sample_key) (run_from empty_mem zero_rpc)"
  have other: "sample_key \<noteq> \<lparr>nn_name = ''other'', nn_namespace = ''default''\<rparr>"
    by (simp add: sample_key_def)
  have l: "map call_req ?l = [GetReq KindRpc sample_key]"
    by (simp add: Reconcile_not_found [of mem_client sample_key "run_from empty_mem zero_rpc" NotFound])
  then obtain c where c: "c \<in> set ?l" "call_req c = GetReq KindRpc sample_key"
    by (cases ?l) auto
  then have t: "request_target (call_req c) = Some (KindRpc, sample_key)" by simp
  moreover have "Some (KindRpc, sample_key) \<notin> request_target ` call_req ` set (calls
      (Reconcile mem_client \<lparr>nn_name = ''other'', nn_namespace = ''default''\<rparr>)
      (run_from (serve sample_rpc empty_mem) zero_rpc))"
    using Reconcile_isolated [OF lawful_keys_mem lawful_status_update_mem other c(1) _ t] by force
  ultimately show ?thesis using imageI [OF imageI [OF c(1)], of request_target call_req] t by metis
qed

text \<open>A server that never hands out an object that is not safe.\<close>

definition validated :: "('a \<Rightarrow> bool) \<Rightarrow> ('w, 'a) kind_api \<Rightarrow> ('w, 'a) kind_api" where
  "validated safe api =
    (let check = (\<lambda>(r, w). (case r of Inl e \<Rightarrow> Inl e | Inr x \<Rightarrow> if safe x then Inr x else Inl (OtherError ''invalid''), w)) in
     api\<lparr>api_get := (\<lambda>n w. check (api_get api n w)), api_create := (\<lambda>x w. check (api_create api x w)),
         api_update := (\<lambda>x w. check (api_update api x w))\<rparr>)"

lemma answers_safely_validated: "answers_safely safe (validated safe api)"
  by (auto simp: answers_safely_def validated_def Let_def split: prod.splits sum.splits if_splits)

definition careful_client :: "mem client" where
  "careful_client = mem_client\<lparr>api_pods := validated safe_pod (api_pods mem_client),
     api_pod_monitors := validated safe_monitor (api_pod_monitors mem_client)\<rparr>"

lemma safe_server_careful: "safe_server careful_client"
  by (simp add: safe_server_def careful_client_def answers_safely_validated)

theorem Reconcile_no_panic_witness:
  "safe_server careful_client \<and> (\<exists>result err. fst (Reconcile careful_client sample_key
     (run_from (serve restored_rpc bound_mem) zero_rpc)) = Ret (result, err) \<and> err \<noteq> Some ErrNextLoop)"
  using Reconcile_no_panic [OF safe_server_careful] safe_server_careful by blast

theorem Reconcile_evidence_witness:
  "\<exists>c \<in> set (calls (Reconcile mem_client sample_key) (run_from (serve restored_rpc empty_mem) zero_rpc)).
     \<exists>x y. call_req c = CreateReq (ObjPvc x) \<and> call_reply c = Got (ObjPvc y) \<and>
       meta_key (pvc_meta x) = GetStoragePvcName restored_rpc"
proof -
  have "\<not> is_status_condition_true mem_client (conditions (the_rpc (snd (Reconcile mem_client sample_key
      (run_from (serve restored_rpc empty_mem) zero_rpc))))) ''Restore''"
    by code_simp
  with Reconcile_evidence [OF lawful_conditions_mem lawful_status_update_mem serve_get [OF sample_key(2), of empty_mem]]
    restored_rpc_true show ?thesis by simp
qed

theorem Reconcile_requeues_witness:
  "\<exists>result. fst (Reconcile mem_client sample_key (run_from (serve restored_rpc empty_mem) zero_rpc)) = Ret (result, None) \<and>
     (res_requeue result \<or> 0 < res_requeue_after result)"
proof -
  let ?s = "run_from (serve restored_rpc empty_mem) zero_rpc"
  have run: "fst (Reconcile mem_client sample_key ?s) = Ret (after Second, None) \<and>
      \<not> is_status_condition_true mem_client (conditions (the_rpc (snd (Reconcile mem_client sample_key ?s)))) ''Restore''"
    by code_simp
  with Reconcile_requeues [OF lawful_conditions_mem lawful_status_update_mem serve_get [OF sample_key(2), of empty_mem], of "after Second"]
  show ?thesis by blast
qed

theorem Reconcile_missing_witness:
  "fst (Reconcile mem_client sample_key (run_from empty_mem zero_rpc)) =
     Ret (\<lparr>res_requeue = False, res_requeue_after = 0\<rparr>, None)"
  using Reconcile_missing [of mem_client sample_key "run_from empty_mem zero_rpc" NotFound] by simp

end
